theory Spec2Isabelle
  imports Main "HOL-Library.Word"
begin

unbundle bit_operations_syntax

section \<open>Values of the embedding\<close>

text \<open>
  The library \<open>dist/jose-jwe.js\<close> is embedded function by function. A \<open>Uint8Array\<close>
  (and an \<open>ArrayBuffer\<close> viewed through one) is a list of 8-bit words. A JavaScript
  string is a \<open>string\<close>; every string the embedded functions look into is either
  a base64 text or a "binary string" whose code units are below 256, and \<open>atob\<close>
  refuses every other code unit.
\<close>

type_synonym byte = "8 word"
type_synonym bytes = "byte list"

text \<open>
  A parsed JSON value, as \<open>JSON.parse\<close> returns it. Numbers are restricted to the
  integers; an object is its list of members.
\<close>

datatype json =
    JNull
  | JBool bool
  | JNum int
  | JStr string
  | JArr "json list"
  | JObj "(string \<times> json) list"

text \<open>
  How an operation of the library fails: a rejected promise carries the reason string
  of the source, \<open>JoseJWE.assert\<close> throws an \<open>Error\<close> with its message, and the
  platform functions throw or reject with errors of their own.
\<close>

datatype error =
    Reject string \<comment> \<open>\<open>Promise.reject(reason)\<close>\<close>
  | AssertError string \<comment> \<open>\<open>JoseJWE.assert(false, msg)\<close>\<close>
  | Unsupported json \<comment> \<open>the assert of \<open>getCryptoConfig\<close>: "unsupported algorithm: " + alg\<close>
  | InvalidCharacterError \<comment> \<open>thrown by \<open>atob\<close>\<close>
  | SyntaxError \<comment> \<open>thrown by \<open>JSON.parse\<close>\<close>
  | TypeError \<comment> \<open>reading a property of \<open>null\<close> or \<open>undefined\<close>\<close>
  | ProviderError \<comment> \<open>a promise of \<open>crypto.subtle\<close> that rejects\<close>

section \<open>The algorithm registry\<close>

text \<open>
  The \<open>id\<close> object handed to the Web Crypto API: \<open>{name, hash: {name}}\<close> or
  \<open>{name, length}\<close>. A field the source leaves out is \<open>None\<close>.
\<close>

record crypto_id =
  id_name :: string
  id_hash :: "string option"
  id_length :: "nat option"

text \<open>
  The \<open>auth\<close> member of a content-encryption record has one of two shapes:
  \<open>{aead: true, tag_bytes}\<close> or \<open>{key_bytes, id, truncated_bytes}\<close>.
\<close>

datatype auth =
    Aead nat
  | Mac nat crypto_id nat

record config =
  jwe_name :: "string option"
  cfg_id :: crypto_id
  iv_bytes :: "nat option"
  specific_cek_bytes :: "nat option"
  auth :: "auth option"

definition hash_id :: "string \<Rightarrow> string \<Rightarrow> crypto_id" where
  "hash_id n h = \<lparr>id_name = n, id_hash = Some h, id_length = None\<rparr>"

definition length_id :: "string \<Rightarrow> nat \<Rightarrow> crypto_id" where
  "length_id n l = \<lparr>id_name = n, id_hash = None, id_length = Some l\<rparr>"

text \<open>
  \<open>JoseJWE.getCryptoConfig\<close>: the \<open>switch\<close> compares with \<open>===\<close>, so only a string
  primitive selects a case; the cases are kept in the order of the source, with the
  members each case of the source writes.
\<close>

definition getCryptoConfig :: "json \<Rightarrow> error + config" where
  "getCryptoConfig alg =
    (if alg = JStr ''RSA-OAEP'' then
       Inr \<lparr>jwe_name = Some ''RSA-OAEP'', cfg_id = hash_id ''RSA-OAEP'' ''SHA-1'',
            iv_bytes = None, specific_cek_bytes = None, auth = None\<rparr>
     else if alg = JStr ''RSA-OAEP-256'' then
       Inr \<lparr>jwe_name = Some ''RSA-OAEP-256'', cfg_id = hash_id ''RSA-OAEP'' ''SHA-256'',
            iv_bytes = None, specific_cek_bytes = None, auth = None\<rparr>
     else if alg = JStr ''A128KW'' then
       Inr \<lparr>jwe_name = Some ''A128KW'', cfg_id = length_id ''AES-KW'' 128,
            iv_bytes = None, specific_cek_bytes = None, auth = None\<rparr>
     else if alg = JStr ''A256KW'' then
       Inr \<lparr>jwe_name = Some ''A256KW'', cfg_id = length_id ''AES-KW'' 256,
            iv_bytes = None, specific_cek_bytes = None, auth = None\<rparr>
     else if alg = JStr ''A128CBC-HS256'' then
       Inr \<lparr>jwe_name = Some ''A128CBC-HS256'', cfg_id = length_id ''AES-CBC'' 128,
            iv_bytes = Some 16, specific_cek_bytes = Some 32,
            auth = Some (Mac 16 (hash_id ''HMAC'' ''SHA-256'') 16)\<rparr>
     else if alg = JStr ''A256CBC-HS512'' then
       Inr \<lparr>jwe_name = None, cfg_id = length_id ''AES-CBC'' 256,
            iv_bytes = Some 16, specific_cek_bytes = Some 64,
            auth = Some (Mac 32 (hash_id ''HMAC'' ''SHA-512'') 32)\<rparr>
     else if alg = JStr ''A128GCM'' then
       Inr \<lparr>jwe_name = None, cfg_id = length_id ''AES-GCM'' 128,
            iv_bytes = Some 12, specific_cek_bytes = None, auth = Some (Aead 16)\<rparr>
     else if alg = JStr ''A256GCM'' then
       Inr \<lparr>jwe_name = Some ''A256GCM'', cfg_id = length_id ''AES-GCM'' 256,
            iv_bytes = Some 12, specific_cek_bytes = None, auth = Some (Aead 16)\<rparr>
     else Inl (Unsupported alg))"

text \<open>
  The protected header of \<open>encryptPlainText\<close>:
  \<open>JSON.stringify({"alg": key_encryption.jwe_name, "enc": content_encryption.jwe_name})\<close>.
  \<open>JSON.stringify\<close> leaves out a member whose value is \<open>undefined\<close>; the names of the
  registry need no escaping.
\<close>

definition stringify_member :: "string \<Rightarrow> string option \<Rightarrow> string list" where
  "stringify_member k v =
    (case v of None \<Rightarrow> [] | Some s \<Rightarrow> [''\"'' @ k @ ''\":\"'' @ s @ ''\"''])"

fun join_with :: "string \<Rightarrow> string list \<Rightarrow> string" where
  "join_with sep [] = []"
| "join_with sep [x] = x"
| "join_with sep (x # y # ys) = x @ sep @ join_with sep (y # ys)"

definition protected_header_json :: "config \<Rightarrow> config \<Rightarrow> string" where
  "protected_header_json ka ca =
    ''{'' @ join_with '','' (stringify_member ''alg'' (jwe_name ka) @
                              stringify_member ''enc'' (jwe_name ca)) @ ''}''"

section \<open>Binary utilities\<close>

text \<open>
  \<open>JoseJWE.Utils.arrayFromString\<close>: the code units of a string, stored into a
  \<open>Uint8Array\<close>.
\<close>

definition arrayFromString :: "string \<Rightarrow> bytes" where
  "arrayFromString str = map (\<lambda>c. of_nat (of_char c)) str"

text \<open>
  \<open>JoseJWE.Utils.stringFromArray\<close>: \<open>String.fromCharCode\<close> of every byte of the
  buffer, in order.
\<close>

definition stringFromArray :: "bytes \<Rightarrow> string" where
  "stringFromArray arr = map (\<lambda>b. char_of (unat b)) arr"

text \<open>
  \<open>JoseJWE.Utils.stripLeadingZeros\<close>: the loop keeps the flag \<open>is_leading_zero\<close>,
  skips the zero bytes met while it is set and pushes every other byte.
\<close>

fun strip_loop :: "bytes \<Rightarrow> bool \<Rightarrow> bytes \<Rightarrow> bytes" where
  "strip_loop [] is_leading_zero r = r"
| "strip_loop (x # xs) is_leading_zero r =
    (if is_leading_zero \<and> x = 0 then strip_loop xs is_leading_zero r
     else strip_loop xs False (r @ [x]))"

definition stripLeadingZeros :: "bytes \<Rightarrow> bytes" where
  "stripLeadingZeros arr = strip_loop arr True []"

text \<open>
  \<open>JoseJWE.Utils.arrayFromInt32\<close>. The second assert, \<open>i == i|0\<close>, parses as
  \<open>(i == i) | 0\<close> and holds for every number but \<open>NaN\<close>, so no integer is refused.
  \<open>new Uint32Array([i])\<close> stores \<open>i\<close> modulo \<open>2^32\<close>; its buffer is read in the
  byte order of the platform (little-endian on every platform the library runs on), and
  the loop \<open>r[j] = buf[3-j]\<close> reverses it.
\<close>

definition uint32_buffer :: "32 word \<Rightarrow> bytes" where
  "uint32_buffer w = [ucast w, ucast (drop_bit 8 w), ucast (drop_bit 16 w), ucast (drop_bit 24 w)]"

definition arrayFromInt32 :: "int \<Rightarrow> bytes" where
  "arrayFromInt32 i = (let buf = uint32_buffer (word_of_int i) in map (\<lambda>j. buf ! (3 - j)) [0..<4])"

text \<open>
  \<open>JoseJWE.Utils.arrayBufferConcat\<close>: a zeroed \<open>Uint8Array(total)\<close> is filled by the
  two nested loops, \<open>r[offset++] = args[i][j]\<close>, and the final assert compares
  \<open>offset\<close> with \<open>total\<close>. A write past the end of a typed array is ignored, as
  list update is.
\<close>

fun copy_into :: "bytes \<Rightarrow> nat \<Rightarrow> bytes \<Rightarrow> bytes \<times> nat" where
  "copy_into r offset [] = (r, offset)"
| "copy_into r offset (x # xs) = copy_into (r[offset := x]) (Suc offset) xs"

fun concat_loop :: "bytes \<Rightarrow> nat \<Rightarrow> bytes list \<Rightarrow> bytes \<times> nat" where
  "concat_loop r offset [] = (r, offset)"
| "concat_loop r offset (a # as) =
    (case copy_into r offset a of (r', offset') \<Rightarrow> concat_loop r' offset' as)"

definition arrayBufferConcat :: "bytes list \<Rightarrow> error + bytes" where
  "arrayBufferConcat args =
    (let total = sum_list (map length args) in
     case concat_loop (replicate total 0) 0 args of
       (r, offset) \<Rightarrow>
         if offset = total then Inr r
         else Inl (AssertError ''arrayBufferConcat: unexpected offset''))"

text \<open>
  \<open>JoseJWE.Utils.compare\<close>. The bitwise operators of JavaScript work on 32-bit
  integers. The loop returns the accumulator \<open>ok\<close> together with the final value of
  \<open>i\<close>, the number of iterations it ran.
\<close>

function compare_loop :: "bytes \<Rightarrow> bytes \<Rightarrow> nat \<Rightarrow> 32 word \<Rightarrow> 32 word \<times> nat" where
  "compare_loop arr1 arr2 i ok =
    (if i < length arr1
     then compare_loop arr1 arr2 (i + 1) (ok OR (ucast (arr1 ! i) XOR ucast (arr2 ! i)))
     else (ok, i))"
  by pat_completeness auto
termination
  by (relation "measure (\<lambda>(arr1, arr2, i, ok). length arr1 - i)") auto

declare compare_loop.simps [simp del]

definition compare :: "bytes \<Rightarrow> bytes \<Rightarrow> bool" where
  "compare arr1 arr2 =
    (if length arr1 \<noteq> length arr2 then False
     else fst (compare_loop arr1 arr2 0 0) = 0)"

text \<open>
  \<open>JoseJWE.Utils.getCekWorkaround\<close>: the algorithm under which a CEK is generated or
  unwrapped, with the key usages of either direction.
\<close>

record workaround =
  hack_id :: crypto_id
  enc_op :: "string list"
  dec_op :: "string list"

definition getCekWorkaround :: "config \<Rightarrow> error + workaround" where
  "getCekWorkaround alg =
    (case specific_cek_bytes alg of
       Some len \<Rightarrow>
         if len \<noteq> 0 then
           (if len = 16 then
              Inr \<lparr>hack_id = length_id ''AES-CBC'' 128, enc_op = [''encrypt''], dec_op = [''decrypt'']\<rparr>
            else if len = 32 then
              Inr \<lparr>hack_id = length_id ''AES-CBC'' 256, enc_op = [''encrypt''], dec_op = [''decrypt'']\<rparr>
            else if len = 64 then
              Inr \<lparr>hack_id = hash_id ''HMAC'' ''SHA-256'', enc_op = [''sign''], dec_op = [''verify'']\<rparr>
            else if len = 128 then
              Inr \<lparr>hack_id = hash_id ''HMAC'' ''SHA-384'', enc_op = [''sign''], dec_op = [''verify'']\<rparr>
            else Inl (AssertError ''getCekWorkaround: invalid len''))
         else Inr \<lparr>hack_id = cfg_id alg, enc_op = [''encrypt''], dec_op = [''decrypt'']\<rparr>
     | None \<Rightarrow> Inr \<lparr>hack_id = cfg_id alg, enc_op = [''encrypt''], dec_op = [''decrypt'']\<rparr>)"

section \<open>Base64Url\<close>

text \<open>
  \<open>btoa\<close> and \<open>atob\<close> are functions of the platform; they are modelled from the
  HTML standard (forgiving-base64 encode and decode). \<open>btoa\<close> writes every
  six-bit group of its input as a character of the alphabet and pads the text with
  \<open>=\<close> to a multiple of four characters.
\<close>

definition b64_alphabet :: string where
  "b64_alphabet = ''ABCDEFGHIJKLMNOPQRSTUVWXYZabcdefghijklmnopqrstuvwxyz0123456789+/''"

definition b64_char :: "nat \<Rightarrow> char" where
  "b64_char n = b64_alphabet ! n"

primrec index_of :: "'a \<Rightarrow> 'a list \<Rightarrow> nat option" where
  "index_of x [] = None"
| "index_of x (y # ys) = (if x = y then Some 0 else map_option Suc (index_of x ys))"

definition b64_index :: "char \<Rightarrow> nat option" where
  "b64_index c = index_of c b64_alphabet"

text \<open>
  The six-bit groups of a binary string: 24 bits of three code units make four groups;
  a last group of two code units is 16 bits and two zero bits, one of a single code
  unit is 8 bits and four zero bits.
\<close>

fun sextets :: "string \<Rightarrow> nat list" where
  "sextets (a # b # c # rest) =
    (let n = (of_char a * 256 + of_char b) * 256 + (of_char c :: nat) in
     [n div 262144, n div 4096 mod 64, n div 64 mod 64, n mod 64]) @ sextets rest"
| "sextets [a, b] =
    (let n = (of_char a * 256 + (of_char b :: nat)) * 4 in
     [n div 4096, n div 64 mod 64, n mod 64])"
| "sextets [a] =
    (let n = (of_char a :: nat) * 16 in [n div 64, n mod 64])"
| "sextets [] = []"

definition btoa :: "string \<Rightarrow> string" where
  "btoa str = map b64_char (sextets str) @ replicate ((3 - length str mod 3) mod 3) CHR ''=''"

text \<open>
  \<open>atob\<close>, step by step: ASCII whitespace is removed; when the length is a multiple
  of four, one or two trailing \<open>=\<close> are removed; a length that leaves the remainder 1
  and a character outside the alphabet are failures; the six bits of every character
  are appended to a buffer, which is written out as three bytes whenever it holds 24
  bits; of the 12 or 18 bits left at the end the last four or two are discarded.
\<close>

definition ascii_whitespace :: "char \<Rightarrow> bool" where
  "ascii_whitespace c = (of_char c \<in> {9, 10, 12, 13, 32 :: nat})"

definition remove_padding :: "string \<Rightarrow> string" where
  "remove_padding s =
    (if length s mod 4 = 0 \<and> s \<noteq> [] \<and> last s = CHR ''='' then
       (let s1 = butlast s in
        if s1 \<noteq> [] \<and> last s1 = CHR ''='' then butlast s1 else s1)
     else s)"

fun decode_sextets :: "nat list \<Rightarrow> nat \<Rightarrow> nat \<Rightarrow> string" where
  "decode_sextets [] buffer nbits =
    (if nbits = 12 then [char_of (buffer div 16)]
     else if nbits = 18 then [char_of (buffer div 1024), char_of (buffer div 4)]
     else [])"
| "decode_sextets (x # xs) buffer nbits =
    (let buffer' = buffer * 64 + x; nbits' = nbits + 6 in
     if nbits' = 24
     then [char_of (buffer' div 65536), char_of (buffer' div 256), char_of buffer']
          @ decode_sextets xs 0 0
     else decode_sextets xs buffer' nbits')"

definition atob :: "string \<Rightarrow> error + string" where
  "atob str =
    (let s = remove_padding (filter (\<lambda>c. \<not> ascii_whitespace c) str) in
     if length s mod 4 = 1 then Inl InvalidCharacterError
     else case those (map b64_index s) of
            None \<Rightarrow> Inl InvalidCharacterError
          | Some xs \<Rightarrow> Inr (decode_sextets xs 0 0))"

text \<open>
  \<open>String.prototype.replace\<close> with a global single-character pattern, and with the
  pattern \<open>/=+$/\<close>, whose only match is the whole run of \<open>=\<close> that ends the string.
\<close>

definition replace_all :: "char \<Rightarrow> char \<Rightarrow> string \<Rightarrow> string" where
  "replace_all c d s = map (\<lambda>x. if x = c then d else x) s"

definition strip_trailing :: "char \<Rightarrow> string \<Rightarrow> string" where
  "strip_trailing c s = rev (dropWhile (\<lambda>x. x = c) (rev s))"

definition Base64Url_encode :: "string \<Rightarrow> string" where
  "Base64Url_encode str =
    strip_trailing CHR ''='' (replace_all CHR ''/'' CHR ''_'' (replace_all CHR ''+'' CHR ''-'' (btoa str)))"

text \<open>
  \<open>Base64Url.encodeArray\<close>: \<open>arrayish\<close> leaves an array as it is and views an
  \<open>ArrayBuffer\<close> as a \<open>Uint8Array\<close>; the loop appends \<open>String.fromCharCode(arr[i])\<close>.
\<close>

definition Base64Url_encodeArray :: "bytes \<Rightarrow> string" where
  "Base64Url_encodeArray arr = Base64Url_encode (map (\<lambda>b. char_of (unat b)) arr)"

definition Base64Url_decode :: "string \<Rightarrow> error + string" where
  "Base64Url_decode str = atob (replace_all CHR ''_'' CHR ''/'' (replace_all CHR ''-'' CHR ''+'' str))"

definition Base64Url_decodeArray :: "string \<Rightarrow> error + bytes" where
  "Base64Url_decodeArray str =
    (case Base64Url_decode str of Inl e \<Rightarrow> Inl e | Inr s \<Rightarrow> Inr (arrayFromString s))"

section \<open>RSA key normalisation\<close>

text \<open>
  A parameter of the RSA key handed to \<open>convertRsaKey\<close> is a number (an integer
  here), a string, or \<open>KOther\<close>: a value that is neither (\<open>null\<close>, a boolean, a plain
  object), which is unequal to every string under \<open>==\<close> and which the regular
  expression of the source does not match. A parameter the key lacks is \<open>None\<close>.
\<close>

datatype jwk_value = KNum int | KStr string | KOther

type_synonym rsa_key = "string \<Rightarrow> jwk_value option"

fun split_on :: "char \<Rightarrow> string \<Rightarrow> string list" where
  "split_on d [] = [[]]"
| "split_on d (c # cs) =
    (if c = d then [] # split_on d cs
     else (case split_on d cs of [] \<Rightarrow> [[c]] | x # xs \<Rightarrow> (c # x) # xs))"

definition is_hex :: "char \<Rightarrow> bool" where
  "is_hex c = (c \<in> set ''0123456789abcdefABCDEF'')"

definition hex_digit :: "char \<Rightarrow> nat" where
  "hex_digit c =
    (let n = (of_char c :: nat) in
     if 48 \<le> n \<and> n \<le> 57 then n - 48
     else if 97 \<le> n \<and> n \<le> 102 then n - 87
     else n - 55)"

text \<open>\<open>parseInt(e, 16)\<close> on a text of hexadecimal digits.\<close>

definition intFromHex :: "string \<Rightarrow> nat" where
  "intFromHex e = foldl (\<lambda>acc c. acc * 16 + hex_digit c) 0 e"

text \<open>The pattern \<open>/^([0-9a-fA-F]{2}:)+[0-9a-fA-F]{2}$/\<close>.\<close>

fun hex_groups :: "string \<Rightarrow> bool" where
  "hex_groups [a, b] = (is_hex a \<and> is_hex b)"
| "hex_groups (a # b # c # rest) = (is_hex a \<and> is_hex b \<and> c = CHR '':'' \<and> hex_groups rest)"
| "hex_groups _ = False"

definition colon_hex :: "string \<Rightarrow> bool" where
  "colon_hex v = (hex_groups v \<and> 2 < length v)"

definition loose_eq :: "jwk_value \<Rightarrow> string \<Rightarrow> bool" where
  "loose_eq v s = (case v of KStr t \<Rightarrow> t = s | _ \<Rightarrow> False)"

text \<open>
  The body of the loop of \<open>convertRsaKey\<close> for the parameter \<open>p\<close> with the value
  \<open>v = rsa_key[p]\<close>: the value stored into \<open>r[p]\<close>, or the assert that fails.
\<close>

definition convert_param :: "string \<Rightarrow> jwk_value option \<Rightarrow> error + jwk_value option" where
  "convert_param p v =
    (if p = ''e'' then
       (case v of
          Some (KNum n) \<Rightarrow>
            Inr (Some (KStr (Base64Url_encodeArray (stripLeadingZeros (arrayFromInt32 n)))))
        | _ \<Rightarrow> Inr v)
     else
       (case v of
          Some (KStr t) \<Rightarrow>
            if colon_hex t then
              (let arr = map intFromHex (split_on CHR '':'' t) in
               Inr (Some (KStr (Base64Url_encodeArray (stripLeadingZeros (map of_nat arr))))))
            else Inr v
        | _ \<Rightarrow> Inl (AssertError (''convertRsaKey: expecting rsa_key['' @ [CHR 39] @ p @ [CHR 39]
                                   @ ''] to be a string''))))"

fun convert_loop :: "rsa_key \<Rightarrow> string list \<Rightarrow> rsa_key \<Rightarrow> error + rsa_key" where
  "convert_loop rsa_key [] r = Inr r"
| "convert_loop rsa_key (p # ps) r =
    (case convert_param p (rsa_key p) of
       Inl e \<Rightarrow> Inl e
     | Inr v \<Rightarrow> convert_loop rsa_key ps (r(p := v)))"

definition convertRsaKey :: "rsa_key \<Rightarrow> string list \<Rightarrow> error + rsa_key" where
  "convertRsaKey rsa_key parameters =
    (let missing = filter (\<lambda>p. rsa_key p = None) parameters in
     if missing \<noteq> [] then
       Inl (AssertError (''convertRsaKey: Was expecting '' @ join_with '','' missing))
     else if (case rsa_key ''kty'' of None \<Rightarrow> False | Some v \<Rightarrow> \<not> loose_eq v ''RSA'') then
       Inl (AssertError (''convertRsaKey: expecting rsa_key['' @ [CHR 39] @ ''kty'' @ [CHR 39]
                         @ ''] to be '' @ [CHR 39] @ ''RSA'' @ [CHR 39]))
     else if (case rsa_key ''alg'' of None \<Rightarrow> False | Some v \<Rightarrow> \<not> loose_eq v ''RSA-OAEP'') then
       Inl (AssertError (''convertRsaKey: expecting rsa_key['' @ [CHR 39] @ ''alg'' @ [CHR 39]
                         @ ''] to be '' @ [CHR 39] @ ''RSA-OAEP'' @ [CHR 39]))
     else convert_loop rsa_key parameters
            ((Map.empty :: rsa_key)(''kty'' \<mapsto> KStr ''RSA'', ''alg'' \<mapsto> KStr ''RSA-OAEP'')))"

section \<open>The platform\<close>

text \<open>
  The functions the library takes from its platform are parameters of the embedding:
  the operations of \<open>crypto.subtle\<close> it calls, over opaque key handles \<open>'k\<close>, with
  \<open>None\<close> for a promise that rejects, and \<open>JSON.parse\<close>, with \<open>None\<close> for a text
  it throws on.
\<close>

record aes_params =
  param_name :: string
  param_iv :: bytes
  additionalData :: "bytes option"
  tagLength :: "nat option"

record 'k platform =
  subtle_exportKey :: "'k \<Rightarrow> bytes option"
  subtle_importKey :: "bytes \<Rightarrow> crypto_id \<Rightarrow> bool \<Rightarrow> string list \<Rightarrow> 'k option"
  subtle_unwrapKey :: "bytes \<Rightarrow> 'k \<Rightarrow> crypto_id \<Rightarrow> crypto_id \<Rightarrow> bool \<Rightarrow> string list \<Rightarrow> 'k option"
  subtle_sign :: "crypto_id \<Rightarrow> 'k \<Rightarrow> bytes \<Rightarrow> bytes option"
  subtle_decrypt :: "aes_params \<Rightarrow> 'k \<Rightarrow> bytes \<Rightarrow> bytes option"
  JSON_parse :: "string \<Rightarrow> json option"

text \<open>
  The calls to \<open>crypto.subtle\<close> an operation makes, with their arguments, in the order
  the promise chains of the source make them.
\<close>

datatype 'k call =
    ExportKey 'k
  | ImportKey bytes crypto_id bool "string list"
  | UnwrapKey bytes 'k crypto_id crypto_id bool "string list"
  | Sign crypto_id 'k bytes
  | Decrypt aes_params 'k bytes

fun is_Decrypt :: "'k call \<Rightarrow> bool" where
  "is_Decrypt (Decrypt p k b) = True"
| "is_Decrypt _ = False"

text \<open>A promise, once settled: rejected with an error or fulfilled with a value.\<close>

type_synonym 'a promise = "error + 'a"

definition settle :: "'a option \<Rightarrow> 'a promise" where
  "settle r = (case r of None \<Rightarrow> Inl ProviderError | Some v \<Rightarrow> Inr v)"

section \<open>MacThenEncrypt\<close>

text \<open>
  \<open>JoseJWE.MacThenEncrypt.splitKey\<close> returns the promises of the MAC key and of the
  ENC key. Both callbacks test \<open>cek_bytes.byteLength * 8 != config.id.length +
  config.auth.key_bytes * 8\<close>; with a member missing the sum is \<open>NaN\<close> and the test
  holds. The calls are those of the export and of the two imports.
\<close>

definition splitKey ::
  "'k platform \<Rightarrow> config \<Rightarrow> 'k promise \<Rightarrow> string list \<Rightarrow> ('k promise \<times> 'k promise) \<times> 'k call list" where
  "splitKey P config cek_promise purpose =
    (case cek_promise of
       Inl e \<Rightarrow> ((Inl e, Inl e), [])
     | Inr cek \<Rightarrow>
        (case subtle_exportKey P cek of
           None \<Rightarrow> ((Inl ProviderError, Inl ProviderError), [ExportKey cek])
         | Some cek_bytes \<Rightarrow>
            (case auth config of
               None \<Rightarrow> ((Inl TypeError, Inl TypeError), [ExportKey cek])
             | Some (Aead tag_bytes) \<Rightarrow>
                 ((Inl (Reject ''encryptPlainText: incorrect cek length''),
                   Inl (Reject ''encryptPlainText: incorrect cek length'')), [ExportKey cek])
             | Some (Mac key_bytes auth_id truncated_bytes) \<Rightarrow>
                 if (case id_length (cfg_id config) of
                       None \<Rightarrow> True
                     | Some len \<Rightarrow> length cek_bytes * 8 \<noteq> len + key_bytes * 8)
                 then ((Inl (Reject ''encryptPlainText: incorrect cek length''),
                        Inl (Reject ''encryptPlainText: incorrect cek length'')), [ExportKey cek])
                 else
                   ((settle (subtle_importKey P (take key_bytes cek_bytes) auth_id False [''sign'']),
                     settle (subtle_importKey P (drop key_bytes cek_bytes) (cfg_id config) False purpose)),
                    [ExportKey cek,
                     ImportKey (take key_bytes cek_bytes) auth_id False [''sign''],
                     ImportKey (drop key_bytes cek_bytes) (cfg_id config) False purpose]))))"

text \<open>
  \<open>JoseJWE.MacThenEncrypt.truncatedMac\<close>. \<open>al_full.set(al, 4)\<close> copies \<open>al\<close> into a
  zeroed \<open>Uint8Array(8)\<close> from index 4 on.
\<close>

definition mac_input :: "bytes \<Rightarrow> bytes \<Rightarrow> bytes \<Rightarrow> error + bytes" where
  "mac_input aad iv cipher_text =
    (let al = arrayFromInt32 (int (length aad * 8));
         al_full = fst (copy_into (replicate 8 0) 4 al)
     in arrayBufferConcat [aad, iv, cipher_text, al_full])"

definition truncatedMac ::
  "'k platform \<Rightarrow> config \<Rightarrow> 'k promise \<Rightarrow> bytes \<Rightarrow> bytes \<Rightarrow> bytes \<Rightarrow> bytes promise \<times> 'k call list" where
  "truncatedMac P config mac_key_promise aad iv cipher_text =
    (case mac_key_promise of
       Inl e \<Rightarrow> (Inl e, [])
     | Inr mac_key \<Rightarrow>
        (case mac_input aad iv cipher_text of
           Inl e \<Rightarrow> (Inl e, [])
         | Inr buf \<Rightarrow>
            (case auth config of
               Some (Mac key_bytes auth_id truncated_bytes) \<Rightarrow>
                 (case subtle_sign P auth_id mac_key buf of
                    None \<Rightarrow> (Inl ProviderError, [Sign auth_id mac_key buf])
                  | Some bytes \<Rightarrow> (Inr (take truncated_bytes bytes), [Sign auth_id mac_key buf]))
             | _ \<Rightarrow> (Inl TypeError, []))))"

section \<open>Decryption\<close>

text \<open>The codec instance: the two selected configurations.\<close>

record jose =
  key_encryption :: config
  content_encryption :: config

text \<open>
  \<open>Promise.all\<close> of two promises. Where both reject, the promise chains of
  \<open>decryptCiphertext\<close> reject with the same error, so the order does not show.
\<close>

definition promise_all :: "'a promise \<Rightarrow> 'b promise \<Rightarrow> ('a \<times> 'b) promise" where
  "promise_all a b =
    (case a of Inl e \<Rightarrow> Inl e
     | Inr x \<Rightarrow> (case b of Inl e \<Rightarrow> Inl e | Inr y \<Rightarrow> Inr (x, y)))"

text \<open>
  \<open>JoseJWE.prototype.decryptCiphertext\<close>: the promise of the plain text bytes and the
  calls made to settle it. \<open>iv.length != this.content_encryption.iv_bytes\<close> holds when
  the record has no \<open>iv_bytes\<close>.
\<close>

definition decryptCiphertext ::
  "'k platform \<Rightarrow> jose \<Rightarrow> 'k promise \<Rightarrow> bytes \<Rightarrow> bytes \<Rightarrow> bytes \<Rightarrow> bytes \<Rightarrow> bytes promise \<times> 'k call list" where
  "decryptCiphertext P this cek_promise aad iv cipher_text tag =
    (if iv_bytes (content_encryption this) \<noteq> Some (length iv) then
       (Inl (Reject ''decryptCiphertext: invalid IV''), [])
     else
       (let config = content_encryption this in
        case auth config of
          None \<Rightarrow> (Inl TypeError, [])
        | Some (Aead tag_bytes) \<Rightarrow>
            (let dec = \<lparr>param_name = id_name (cfg_id config), param_iv = iv,
                        additionalData = Some aad, tagLength = Some (tag_bytes * 8)\<rparr> in
             case cek_promise of
               Inl e \<Rightarrow> (Inl e, [])
             | Inr cek \<Rightarrow>
                (case arrayBufferConcat [cipher_text, tag] of
                   Inl e \<Rightarrow> (Inl e, [])
                 | Inr buf \<Rightarrow> (settle (subtle_decrypt P dec cek buf), [Decrypt dec cek buf])))
        | Some (Mac key_bytes auth_id truncated_bytes) \<Rightarrow>
            (case splitKey P config cek_promise [''decrypt''] of
               ((mac_key_promise, enc_key_promise), calls1) \<Rightarrow>
                 (case truncatedMac P config mac_key_promise aad iv cipher_text of
                    (mac_promise, calls2) \<Rightarrow>
                      (case promise_all enc_key_promise mac_promise of
                         Inl e \<Rightarrow> (Inl e, calls1 @ calls2)
                       | Inr (enc_key, mac) \<Rightarrow>
                           if \<not> compare mac tag then
                             (Inl (Reject ''decryptCiphertext: MAC failed.''), calls1 @ calls2)
                           else
                             (let dec = \<lparr>param_name = id_name (cfg_id config), param_iv = iv,
                                         additionalData = None, tagLength = None\<rparr> in
                              (settle (subtle_decrypt P dec enc_key cipher_text),
                               calls1 @ calls2 @ [Decrypt dec enc_key cipher_text])))))))"

text \<open>
  \<open>JoseJWE.prototype.decryptCek\<close>. \<open>getCekWorkaround\<close> may throw before a promise is
  made (the outer error); \<open>this.content_encryption.specific_cek_bytes > 0\<close> is false
  when the member is missing.
\<close>

definition decryptCek ::
  "'k platform \<Rightarrow> jose \<Rightarrow> 'k promise \<Rightarrow> bytes \<Rightarrow> error + ('k promise \<times> 'k call list)" where
  "decryptCek P this key_promise encrypted_cek =
    (case getCekWorkaround (content_encryption this) of
       Inl e \<Rightarrow> Inl e
     | Inr hack \<Rightarrow>
        (let extractable = (case specific_cek_bytes (content_encryption this) of
                              None \<Rightarrow> False | Some n \<Rightarrow> 0 < n);
             key_enc = cfg_id (key_encryption this)
         in case key_promise of
              Inl e \<Rightarrow> Inr (Inl e, [])
            | Inr key \<Rightarrow>
                Inr (settle (subtle_unwrapKey P encrypted_cek key key_enc (hack_id hack)
                               extractable (dec_op hack)),
                     [UnwrapKey encrypted_cek key key_enc (hack_id hack) extractable (dec_op hack)])))"

text \<open>
  Reading a member of the parsed header: \<open>null\<close> has no members and throws, an object
  gives the member or \<open>undefined\<close> (\<open>None\<close>), every other value gives \<open>undefined\<close>.
  \<open>truthy\<close> is the test of \<open>if (!header.alg)\<close>.
\<close>

definition get_member :: "json \<Rightarrow> string \<Rightarrow> error + json option" where
  "get_member v k =
    (case v of JNull \<Rightarrow> Inl TypeError | JObj ms \<Rightarrow> Inr (map_of ms k) | _ \<Rightarrow> Inr None)"

definition truthy :: "json option \<Rightarrow> bool" where
  "truthy v =
    (case v of
       None \<Rightarrow> False
     | Some JNull \<Rightarrow> False
     | Some (JBool b) \<Rightarrow> b
     | Some (JNum n) \<Rightarrow> n \<noteq> 0
     | Some (JStr s) \<Rightarrow> s \<noteq> []
     | Some _ \<Rightarrow> True)"

text \<open>
  \<open>JoseJWE.prototype.decrypt\<close>, in three parts: the segments after the header check
  (\<open>decrypt_segments\<close>), the header check (\<open>decrypt_header\<close>) and the split. The result
  is the settled promise of the plain text (or the error thrown on the way), the codec
  instance as the call leaves it, and the calls to \<open>crypto.subtle\<close>.
\<close>

definition decrypt_segments ::
  "'k platform \<Rightarrow> jose \<Rightarrow> 'k promise \<Rightarrow> string list \<Rightarrow> string promise \<times> jose \<times> 'k call list" where
  "decrypt_segments P this key_promise parts =
    (case Base64Url_decodeArray (parts ! 1) of
       Inl e \<Rightarrow> (Inl e, this, [])
     | Inr encrypted_cek \<Rightarrow>
        (case decryptCek P this key_promise encrypted_cek of
           Inl e \<Rightarrow> (Inl e, this, [])
         | Inr (cek_promise, calls1) \<Rightarrow>
            (case Base64Url_decodeArray (parts ! 2) of
               Inl e \<Rightarrow> (Inl e, this, calls1)
             | Inr iv \<Rightarrow>
                (case Base64Url_decodeArray (parts ! 3) of
                   Inl e \<Rightarrow> (Inl e, this, calls1)
                 | Inr cipher_text \<Rightarrow>
                    (case Base64Url_decodeArray (parts ! 4) of
                       Inl e \<Rightarrow> (Inl e, this, calls1)
                     | Inr tag \<Rightarrow>
                        (case decryptCiphertext P this cek_promise (arrayFromString (parts ! 0))
                                iv cipher_text tag of
                           (plain_text_promise, calls2) \<Rightarrow>
                             (map_sum id stringFromArray plain_text_promise, this,
                              calls1 @ calls2)))))))"

definition decrypt_header ::
  "'k platform \<Rightarrow> jose \<Rightarrow> 'k promise \<Rightarrow> string list \<Rightarrow> json \<Rightarrow> string promise \<times> jose \<times> 'k call list" where
  "decrypt_header P this key_promise parts header =
    (case get_member header ''alg'' of
       Inl e \<Rightarrow> (Inl e, this, [])
     | Inr alg \<Rightarrow>
        if \<not> truthy alg then (Inl (Reject ''decrypt: missing alg''), this, [])
        else
          (case getCryptoConfig (the alg) of
             Inl e \<Rightarrow> (Inl e, this, [])
           | Inr ka \<Rightarrow>
              (let this1 = this\<lparr>key_encryption := ka\<rparr> in
               case get_member header ''enc'' of
                 Inl e \<Rightarrow> (Inl e, this1, [])
               | Inr enc \<Rightarrow>
                  if \<not> truthy enc then (Inl (Reject ''decrypt: missing enc''), this1, [])
                  else
                    (case getCryptoConfig (the enc) of
                       Inl e \<Rightarrow> (Inl e, this1, [])
                     | Inr ca \<Rightarrow>
                        (let this2 = this1\<lparr>content_encryption := ca\<rparr> in
                         case get_member header ''crit'' of
                           Inl e \<Rightarrow> (Inl e, this2, [])
                         | Inr crit \<Rightarrow>
                            if truthy crit then
                              (Inl (Reject ''decrypt: crit is not supported''), this2, [])
                            else decrypt_segments P this2 key_promise parts)))))"

definition decrypt ::
  "'k platform \<Rightarrow> jose \<Rightarrow> 'k promise \<Rightarrow> string \<Rightarrow> string promise \<times> jose \<times> 'k call list" where
  "decrypt P this key_promise cipher_text =
    (let parts = split_on CHR ''.'' cipher_text in
     if length parts \<noteq> 5 then (Inl (Reject ''decrypt: invalid input''), this, [])
     else
       (case Base64Url_decode (parts ! 0) of
          Inl e \<Rightarrow> (Inl e, this, [])
        | Inr text \<Rightarrow>
           (case JSON_parse P text of
              None \<Rightarrow> (Inl SyntaxError, this, [])
            | Some header \<Rightarrow> decrypt_header P this key_promise parts header)))"

section \<open>The error kinds of the specification\<close>

text \<open>
  The specification names kinds of errors where the source has reason strings and
  thrown errors. Each failure of the source is given the kind under which the
  specification lists its cause: a MAC mismatch is an integrity failure, a violated
  length relationship an internal invariant, an unknown identifier an unsupported
  algorithm, a failed assert of \<open>convertRsaKey\<close> a malformed key, a rejection of the
  provider a failure of the primitive, and every other rejection of \<open>decrypt\<close> (segment
  count, header members, base64 text, IV length) a malformed input.
\<close>

datatype error_kind =
    UnsupportedAlgorithm
  | MalformedInput
  | MalformedKey
  | IntegrityFailure
  | CryptoPrimitiveFailure
  | InternalInvariant

definition error_kind_of :: "error \<Rightarrow> error_kind" where
  "error_kind_of e =
    (case e of
       Reject msg \<Rightarrow>
         if msg = ''decryptCiphertext: MAC failed.'' then IntegrityFailure
         else if msg = ''encryptPlainText: incorrect cek length'' then InternalInvariant
         else MalformedInput
     | AssertError msg \<Rightarrow>
         if take 13 msg = ''convertRsaKey'' then MalformedKey else InternalInvariant
     | Unsupported v \<Rightarrow> UnsupportedAlgorithm
     | InvalidCharacterError \<Rightarrow> MalformedInput
     | SyntaxError \<Rightarrow> MalformedInput
     | TypeError \<Rightarrow> MalformedInput
     | ProviderError \<Rightarrow> CryptoPrimitiveFailure)"

section \<open>A platform for the concrete instances\<close>

text \<open>
  The theorems below hold for every platform. Their concrete instances run on a small
  one: a key handle is the raw key; export, import and unwrap hand the bytes through;
  the signature is 64 bytes computed from key and data; content decryption is the
  identity, and where a tag length is given the tag is cut off and checked against a
  value computed from key, IV, additional data and cipher text (a wrong or missing tag
  rejects). Its \<open>JSON.parse\<close> knows the header texts of the instances, on which it
  agrees with the real one, and throws on every other text.
\<close>

definition toy_sign :: "bytes \<Rightarrow> bytes \<Rightarrow> bytes" where
  "toy_sign key data = replicate 64 (sum_list key + sum_list data)"

definition toy_decrypt :: "aes_params \<Rightarrow> bytes \<Rightarrow> bytes \<Rightarrow> bytes option" where
  "toy_decrypt params key buf =
    (case tagLength params of
       None \<Rightarrow> Some buf
     | Some bits \<Rightarrow>
         (let n = bits div 8; cipher = take (length buf - n) buf; tag = drop (length buf - n) buf in
          if length buf < n then None
          else if tag = replicate n (sum_list key + sum_list (param_iv params)
                                     + sum_list (case additionalData params of None \<Rightarrow> [] | Some aad \<Rightarrow> aad)
                                     + sum_list cipher)
          then Some cipher else None))"

definition toy_JSON_parse :: "string \<Rightarrow> json option" where
  "toy_JSON_parse text =
    (if text = ''{\"alg\":\"RSA-OAEP\",\"enc\":\"A256GCM\"}'' then
       Some (JObj [(''alg'', JStr ''RSA-OAEP''), (''enc'', JStr ''A256GCM'')])
     else if text = ''{\"alg\":\"A128KW\",\"enc\":\"A128CBC-HS256\"}'' then
       Some (JObj [(''alg'', JStr ''A128KW''), (''enc'', JStr ''A128CBC-HS256'')])
     else if text = ''{\"alg\":\"RSA-OAEP\",\"enc\":\"A256GCM\",\"crit\":[\"exp\"]}'' then
       Some (JObj [(''alg'', JStr ''RSA-OAEP''), (''enc'', JStr ''A256GCM''),
                   (''crit'', JArr [JStr ''exp''])])
     else None)"

definition toy_platform :: "bytes platform" where
  "toy_platform =
    \<lparr>subtle_exportKey = Some,
     subtle_importKey = (\<lambda>raw alg extractable usages. Some raw),
     subtle_unwrapKey = (\<lambda>wrapped key alg inner extractable usages. Some wrapped),
     subtle_sign = (\<lambda>alg key data. Some (toy_sign key data)),
     subtle_decrypt = toy_decrypt,
     JSON_parse = toy_JSON_parse\<rparr>"

text \<open>The codec instance as the constructor \<open>JoseJWE()\<close> leaves it.\<close>

definition rsa_oaep_config :: config where
  "rsa_oaep_config =
    \<lparr>jwe_name = Some ''RSA-OAEP'', cfg_id = hash_id ''RSA-OAEP'' ''SHA-1'',
     iv_bytes = None, specific_cek_bytes = None, auth = None\<rparr>"

definition a256gcm_config :: config where
  "a256gcm_config =
    \<lparr>jwe_name = Some ''A256GCM'', cfg_id = length_id ''AES-GCM'' 256,
     iv_bytes = Some 12, specific_cek_bytes = None, auth = Some (Aead 16)\<rparr>"

definition a128cbc_config :: config where
  "a128cbc_config =
    \<lparr>jwe_name = Some ''A128CBC-HS256'', cfg_id = length_id ''AES-CBC'' 128,
     iv_bytes = Some 16, specific_cek_bytes = Some 32,
     auth = Some (Mac 16 (hash_id ''HMAC'' ''SHA-256'') 16)\<rparr>"

definition new_jose :: jose where
  "new_jose = \<lparr>key_encryption = rsa_oaep_config, content_encryption = a256gcm_config\<rparr>"

text \<open>Further records of the registry and a second codec instance, for the instances.\<close>

definition a128kw_config :: config where
  "a128kw_config =
    \<lparr>jwe_name = Some ''A128KW'', cfg_id = length_id ''AES-KW'' 128,
     iv_bytes = None, specific_cek_bytes = None, auth = None\<rparr>"

definition kw_cbc_jose :: jose where
  "kw_cbc_jose = \<lparr>key_encryption = a128kw_config, content_encryption = a128cbc_config\<rparr>"

section \<open>Notions used in the proofs\<close>

text \<open>
  A character that is neither ASCII whitespace nor one of \<open>=\<close>, \<open>-\<close>, \<open>_\<close>; and the
  effect of the two replacements of \<open>Base64Url.encode\<close> on one character.
\<close>

definition b64_plain :: "char \<Rightarrow> bool" where
  "b64_plain c = (\<not> ascii_whitespace c \<and> c \<noteq> CHR ''='' \<and> c \<noteq> CHR ''-'' \<and> c \<noteq> CHR ''_'')"

definition to_url :: "char \<Rightarrow> char" where
  "to_url x = (if x = CHR ''/'' then CHR ''_'' else if x = CHR ''+'' then CHR ''-'' else x)"

text \<open>
  The eight bytes \<open>al_full\<close> of \<open>truncatedMac\<close>, written out; the promise
  \<open>Promise.all([enc_key_promise, mac_promise])\<close> of the composite branch of
  \<open>decryptCiphertext\<close> with the calls that settle it; and the parameters of its
  AES-CBC decryption.
\<close>

definition AL :: "bytes \<Rightarrow> bytes" where
  "AL aad =
    [0, 0, 0, 0,
     of_nat ((length aad * 8) div 16777216), of_nat ((length aad * 8) div 65536),
     of_nat ((length aad * 8) div 256), of_nat (length aad * 8)]"

definition keys_and_mac ::
  "'k platform \<Rightarrow> config \<Rightarrow> 'k promise \<Rightarrow> bytes \<Rightarrow> bytes \<Rightarrow> bytes \<Rightarrow> ('k \<times> bytes) promise \<times> 'k call list" where
  "keys_and_mac P config cek_promise aad iv cipher_text =
    (case splitKey P config cek_promise [''decrypt''] of
       ((mac_key_promise, enc_key_promise), calls1) \<Rightarrow>
         (case truncatedMac P config mac_key_promise aad iv cipher_text of
            (mac_promise, calls2) \<Rightarrow>
              (promise_all enc_key_promise mac_promise, calls1 @ calls2)))"

definition cbc_params :: "config \<Rightarrow> bytes \<Rightarrow> aes_params" where
  "cbc_params config iv =
    \<lparr>param_name = id_name (cfg_id config), param_iv = iv, additionalData = None, tagLength = None\<rparr>"

section \<open>Base64Url: decoding inverts encoding\<close>

lemma sextets_recompose:
  fixes n :: nat
  shows "((n div 262144 * 64 + n div 4096 mod 64) * 64 + n div 64 mod 64) * 64 + n mod 64 = n"
proof -
  define m where "m = n div 64"
  define p where "p = m div 64"
  define q where "q = p div 64"
  have p: "n div 4096 = p" unfolding p_def m_def by (simp add: div_mult2_eq)
  have q: "n div 262144 = q" unfolding q_def p_def m_def by (simp add: div_mult2_eq)
  have "q * 64 + p mod 64 = p" unfolding q_def by simp
  moreover have "p * 64 + m mod 64 = m" unfolding p_def by simp
  moreover have "m * 64 + n mod 64 = n" unfolding m_def by simp
  ultimately show ?thesis using p q m_def by simp
qed

lemma sextets_recompose2:
  fixes n :: nat
  shows "(n div 4096 * 64 + n div 64 mod 64) * 64 + n mod 64 = n"
proof -
  define m where "m = n div 64"
  define p where "p = m div 64"
  have p: "n div 4096 = p" unfolding p_def m_def by (simp add: div_mult2_eq)
  have "p * 64 + m mod 64 = m" unfolding p_def by simp
  moreover have "m * 64 + n mod 64 = n" unfolding m_def by simp
  ultimately show ?thesis using p m_def by simp
qed

lemma div_65536:
  fixes a b c :: nat
  assumes "b < 256" "c < 256"
  shows "((a * 256 + b) * 256 + c) div 65536 = a"
proof -
  have "((a * 256 + b) * 256 + c) div 65536 = (((a * 256 + b) * 256 + c) div 256) div 256"
    by (simp add: div_mult2_eq)
  then show ?thesis using assms by simp
qed

lemma div_1024:
  fixes a b :: nat
  assumes "b < 256"
  shows "((a * 256 + b) * 4) div 1024 = a"
proof -
  have "((a * 256 + b) * 4) div 1024 = (((a * 256 + b) * 4) div 4) div 256"
    by (simp add: div_mult2_eq)
  then show ?thesis using assms by simp
qed

lemma div_256:
  fixes a b c :: nat
  assumes "c < 256"
  shows "((a * 256 + b) * 256 + c) div 256 = a * 256 + b"
  using assms by simp

lemma char_of_low: "char_of (x * 256 + of_char c :: nat) = c"
proof -
  have "char_of (x * 256 + of_char c :: nat) = char_of ((x * 256 + of_char c :: nat) mod 256)"
    by (simp only: char_of_mod_256)
  also have "(x * 256 + of_char c :: nat) mod 256 = of_char c" by simp
  finally show ?thesis by simp
qed

lemma decode_step4:
  "buf = ((w * 64 + x) * 64 + y) * 64 + z \<Longrightarrow>
   decode_sextets (w # x # y # z # xs) 0 0 =
     [char_of (buf div 65536), char_of (buf div 256), char_of buf] @ decode_sextets xs 0 0"
  by (simp add: Let_def)

lemma decode_step3:
  "buf = (w * 64 + x) * 64 + y \<Longrightarrow>
   decode_sextets [w, x, y] 0 0 = [char_of (buf div 1024), char_of (buf div 4)]"
  by (simp add: Let_def)

lemma decode_step2:
  "buf = w * 64 + x \<Longrightarrow> decode_sextets [w, x] 0 0 = [char_of (buf div 16)]"
  by (simp add: Let_def)

lemma decode_three:
  "decode_sextets (sextets [a, b, c] @ xs) 0 0 = [a, b, c] @ decode_sextets xs 0 0"
proof -
  define n :: nat where "n = (of_char a * 256 + of_char b) * 256 + of_char c"
  have buf: "((n div 262144 * 64 + n div 4096 mod 64) * 64 + n div 64 mod 64) * 64 + n mod 64 = n"
    by (rule sextets_recompose)
  have "n div 65536 = of_char a" unfolding n_def by (rule div_65536) simp_all
  then have a: "char_of (n div 65536) = a" by simp
  have "n div 256 = of_char a * 256 + of_char b" unfolding n_def by (rule div_256) simp
  then have b: "char_of (n div 256) = b" by (simp only: char_of_low)
  have c: "char_of n = c" unfolding n_def by (rule char_of_low)
  have "decode_sextets ([n div 262144, n div 4096 mod 64, n div 64 mod 64, n mod 64] @ xs) 0 0
        = [char_of (n div 65536), char_of (n div 256), char_of n] @ decode_sextets xs 0 0"
    using decode_step4 [OF buf [symmetric]] by simp
  then have "decode_sextets ([n div 262144, n div 4096 mod 64, n div 64 mod 64, n mod 64] @ xs) 0 0
        = [a, b, c] @ decode_sextets xs 0 0"
    by (simp only: a b c)
  moreover have "sextets [a, b, c] = [n div 262144, n div 4096 mod 64, n div 64 mod 64, n mod 64]"
    by (simp add: Let_def n_def)
  ultimately show ?thesis by simp
qed

lemma decode_two: "decode_sextets (sextets [a, b]) 0 0 = [a, b]"
proof -
  define n :: nat where "n = (of_char a * 256 + of_char b) * 4"
  have buf: "(n div 4096 * 64 + n div 64 mod 64) * 64 + n mod 64 = n"
    by (rule sextets_recompose2)
  have "n div 1024 = of_char a" unfolding n_def by (rule div_1024) simp
  then have a: "char_of (n div 1024) = a" by simp
  have "n div 4 = of_char a * 256 + of_char b" unfolding n_def by simp
  then have b: "char_of (n div 4) = b" by (simp only: char_of_low)
  have "decode_sextets [n div 4096, n div 64 mod 64, n mod 64] 0 0
        = [char_of (n div 1024), char_of (n div 4)]"
    by (rule decode_step3 [OF buf [symmetric]])
  then have "decode_sextets [n div 4096, n div 64 mod 64, n mod 64] 0 0 = [a, b]"
    by (simp only: a b)
  moreover have "sextets [a, b] = [n div 4096, n div 64 mod 64, n mod 64]"
    by (simp add: Let_def n_def)
  ultimately show ?thesis by simp
qed

lemma decode_one: "decode_sextets (sextets [a]) 0 0 = [a]"
proof -
  define n :: nat where "n = of_char a * 16"
  have buf: "n div 64 * 64 + n mod 64 = n" by simp
  have "n div 16 = of_char a" unfolding n_def by simp
  then have a: "char_of (n div 16) = a" by simp
  have "decode_sextets [n div 64, n mod 64] 0 0 = [char_of (n div 16)]"
    by (rule decode_step2 [OF buf [symmetric]])
  then have "decode_sextets [n div 64, n mod 64] 0 0 = [a]" by (simp only: a)
  moreover have "sextets [a] = [n div 64, n mod 64]" by (simp add: Let_def n_def)
  ultimately show ?thesis by simp
qed

lemma decode_sextets_sextets: "decode_sextets (sextets s) 0 0 = s"
proof (induction s rule: sextets.induct)
  case (1 a b c rest)
  have "sextets (a # b # c # rest) = sextets [a, b, c] @ sextets rest" by (simp add: Let_def)
  then show ?case using 1 decode_three [of a b c "sextets rest"] by simp
next
  case (2 a b) show ?case by (rule decode_two)
next
  case (3 a) show ?case by (rule decode_one)
next
  case 4 show ?case by simp
qed

lemma bound24: "a < 256 \<Longrightarrow> b < 256 \<Longrightarrow> c < 256 \<Longrightarrow> (a * 256 + b) * 256 + c < (16777216::nat)"
  by simp

lemma bound18: "a < 256 \<Longrightarrow> b < 256 \<Longrightarrow> (a * 256 + b) * 4 < (262144::nat)"
  by simp

lemma sextets_lt: "list_all (\<lambda>x. x < 64) (sextets s)"
proof (induction s rule: sextets.induct)
  case (1 a b c rest)
  define n :: nat where "n = (of_char a * 256 + of_char b) * 256 + of_char c"
  have "n < 16777216" unfolding n_def by (rule bound24) simp_all
  then have "n div 262144 < 64" by simp
  then show ?case using 1 by (simp add: Let_def n_def)
next
  case (2 a b)
  define n :: nat where "n = (of_char a * 256 + of_char b) * 4"
  have "n < 262144" unfolding n_def by (rule bound18) simp_all
  then have "n div 4096 < 64" by simp
  then show ?case by (simp add: Let_def n_def)
next
  case (3 a)
  define n :: nat where "n = of_char a * 16"
  have "of_char a < (256::nat)" by simp
  then have "n < 4096" unfolding n_def by simp
  then have "n div 64 < 64" by simp
  then show ?case by (simp add: Let_def n_def)
next
  case 4 show ?case by simp
qed

lemma length_sextets: "length (sextets s) mod 4 \<noteq> 1"
  by (induction s rule: sextets.induct) (auto simp: Let_def)

lemma index_of_nth: "distinct xs \<Longrightarrow> n < length xs \<Longrightarrow> index_of (xs ! n) xs = Some n"
proof (induction xs arbitrary: n)
  case Nil
  then show ?case by simp
next
  case (Cons x xs)
  show ?case
  proof (cases n)
    case 0
    then show ?thesis by simp
  next
    case (Suc m)
    then have "xs ! m \<in> set xs" using Cons.prems by simp
    then have "xs ! m \<noteq> x" using Cons.prems by auto
    then show ?thesis using Suc Cons by simp
  qed
qed

lemma distinct_alphabet: "distinct b64_alphabet"
  by (simp add: b64_alphabet_def)

lemma length_alphabet: "length b64_alphabet = 64"
  by (simp add: b64_alphabet_def)

lemma alphabet_plain: "list_all b64_plain b64_alphabet"
  by (simp add: b64_alphabet_def b64_plain_def ascii_whitespace_def)

lemma b64_index_char: "n < 64 \<Longrightarrow> b64_index (b64_char n) = Some n"
  unfolding b64_index_def b64_char_def
  by (rule index_of_nth [OF distinct_alphabet]) (simp add: length_alphabet)

lemma b64_char_plain:
  assumes "n < 64"
  shows "b64_plain (b64_char n)"
proof -
  have "b64_alphabet ! n \<in> set b64_alphabet" using assms by (simp add: length_alphabet)
  then show ?thesis using alphabet_plain unfolding b64_char_def list_all_iff by blast
qed

lemma those_index_char:
  "list_all (\<lambda>x. x < 64) xs \<Longrightarrow> those (map b64_index (map b64_char xs)) = Some xs"
  by (induction xs) (simp_all add: b64_index_char)

lemma plain_chars: "list_all (\<lambda>x. x < 64) xs \<Longrightarrow> list_all b64_plain (map b64_char xs)"
  by (induction xs) (simp_all add: b64_char_plain)

lemma filter_plain: "list_all b64_plain cs \<Longrightarrow> filter (\<lambda>c. \<not> ascii_whitespace c) cs = cs"
  by (induction cs) (simp_all add: b64_plain_def)

lemma remove_padding_plain:
  assumes "list_all b64_plain cs"
  shows "remove_padding cs = cs"
proof (cases "cs = []")
  case True
  then show ?thesis by (simp add: remove_padding_def)
next
  case False
  then have "b64_plain (last cs)" using assms by (simp add: list_all_iff)
  then have "last cs \<noteq> CHR ''=''" by (simp add: b64_plain_def)
  then show ?thesis by (simp add: remove_padding_def)
qed

lemma atob_plain: "atob (map b64_char (sextets s)) = Inr s"
proof -
  let ?cs = "map b64_char (sextets s)"
  have plain: "list_all b64_plain ?cs" by (rule plain_chars [OF sextets_lt])
  have 1: "remove_padding (filter (\<lambda>c. \<not> ascii_whitespace c) ?cs) = ?cs"
    by (simp only: filter_plain [OF plain] remove_padding_plain [OF plain])
  have 2: "length ?cs mod 4 \<noteq> 1" using length_sextets [of s] by simp
  have 3: "those (map b64_index ?cs) = Some (sextets s)"
    by (rule those_index_char [OF sextets_lt])
  show ?thesis unfolding atob_def 1 Let_def using 2 3 by (simp add: decode_sextets_sextets)
qed

lemma replace_to_url:
  "replace_all CHR ''/'' CHR ''_'' (replace_all CHR ''+'' CHR ''-'' cs) = map to_url cs"
  by (simp add: replace_all_def to_url_def)

lemma replace_from_url:
  "list_all b64_plain cs \<Longrightarrow>
   replace_all CHR ''_'' CHR ''/'' (replace_all CHR ''-'' CHR ''+'' (map to_url cs)) = cs"
  by (induction cs) (auto simp: replace_all_def to_url_def b64_plain_def)

lemma strip_trailing_append:
  assumes "c \<notin> set xs"
  shows "strip_trailing c (xs @ replicate k c) = xs"
proof -
  have "dropWhile (\<lambda>x. x = c) (replicate k c @ rev xs) = rev xs"
  proof (cases xs rule: rev_cases)
    case Nil
    then show ?thesis by simp
  next
    case (snoc ys y)
    then have "y \<noteq> c" using assms by auto
    then show ?thesis using snoc by (simp add: dropWhile_append3)
  qed
  then show ?thesis by (simp add: strip_trailing_def)
qed

lemma to_url_plain:
  "b64_plain x \<Longrightarrow> to_url x \<noteq> CHR ''='' \<and> to_url x \<noteq> CHR ''+'' \<and> to_url x \<noteq> CHR ''/''"
  by (simp add: to_url_def b64_plain_def)

lemma to_url_all:
  "list_all b64_plain cs \<Longrightarrow>
   list_all (\<lambda>x. x \<noteq> CHR ''='' \<and> x \<noteq> CHR ''+'' \<and> x \<noteq> CHR ''/'') (map to_url cs)"
  by (induction cs) (simp_all add: to_url_plain)

lemma to_url_set:
  "list_all b64_plain cs \<Longrightarrow>
   CHR ''='' \<notin> set (map to_url cs) \<and> CHR ''+'' \<notin> set (map to_url cs)
   \<and> CHR ''/'' \<notin> set (map to_url cs)"
  using to_url_all [of cs] unfolding list_all_iff by blast

lemma encode_eq: "Base64Url_encode s = map to_url (map b64_char (sextets s))"
proof -
  let ?cs = "map b64_char (sextets s)"
  have plain: "list_all b64_plain ?cs" by (rule plain_chars [OF sextets_lt])
  have e: "replace_all CHR ''/'' CHR ''_'' (replace_all CHR ''+'' CHR ''-'' (btoa s))
        = map to_url ?cs @ replicate ((3 - length s mod 3) mod 3) CHR ''=''"
    by (simp add: replace_to_url btoa_def to_url_def)
  have n: "CHR ''='' \<notin> set (map to_url ?cs)" using to_url_set [OF plain] by blast
  show ?thesis
    unfolding Base64Url_encode_def e by (rule strip_trailing_append [OF n])
qed

lemma decode_encode: "Base64Url_decode (Base64Url_encode s) = Inr s"
proof -
  let ?cs = "map b64_char (sextets s)"
  have plain: "list_all b64_plain ?cs" by (rule plain_chars [OF sextets_lt])
  show ?thesis
    unfolding Base64Url_decode_def encode_eq
    by (simp only: replace_from_url [OF plain] atob_plain)
qed

lemma array_string: "arrayFromString (map (\<lambda>b. char_of (unat b)) arr) = arr"
proof -
  have "\<And>b :: byte. (of_nat (of_char (char_of (unat b))) :: byte) = b"
  proof -
    fix b :: byte
    have "unat b < 256" using unsigned_less [of b] by simp
    then show "(of_nat (of_char (char_of (unat b))) :: byte) = b" by simp
  qed
  then show ?thesis by (simp add: arrayFromString_def map_idI)
qed

lemma decodeArray_encodeArray: "Base64Url_decodeArray (Base64Url_encodeArray b) = Inr b"
  by (simp add: Base64Url_decodeArray_def Base64Url_encodeArray_def decode_encode array_string)

text \<open>
  Claim C8. For every byte sequence \<open>b\<close>, \<open>Base64Url.decodeArray\<close> of
  \<open>Base64Url.encodeArray(b)\<close> gives \<open>b\<close> back, and the text the encoder returns contains
  none of the characters \<open>=\<close>, \<open>+\<close> and \<open>/\<close>.
\<close>

theorem base64url_roundtrip:
  "Base64Url_decodeArray (Base64Url_encodeArray b) = Inr b
   \<and> CHR ''='' \<notin> set (Base64Url_encodeArray b)
   \<and> CHR ''+'' \<notin> set (Base64Url_encodeArray b)
   \<and> CHR ''/'' \<notin> set (Base64Url_encodeArray b)"
proof -
  let ?s = "map (\<lambda>x. char_of (unat x)) b"
  have "list_all b64_plain (map b64_char (sextets ?s))" by (rule plain_chars [OF sextets_lt])
  then have chars: "CHR ''='' \<notin> set (Base64Url_encodeArray b)
   \<and> CHR ''+'' \<notin> set (Base64Url_encodeArray b)
   \<and> CHR ''/'' \<notin> set (Base64Url_encodeArray b)"
    unfolding Base64Url_encodeArray_def encode_eq by (rule to_url_set)
  have "Base64Url_decodeArray (Base64Url_encodeArray b) = Inr b"
    by (rule decodeArray_encodeArray)
  then show ?thesis using chars by simp
qed

section \<open>The constant-time comparison\<close>

lemma fold_or_zero:
  fixes ok :: "32 word"
  shows "fold (\<lambda>j acc. acc OR f j) xs ok = 0 \<longleftrightarrow> ok = 0 \<and> list_all (\<lambda>j. f j = 0) xs"
  by (induction xs arbitrary: ok) (auto simp: or_eq_0_iff)

lemma compare_loop_fold:
  "i \<le> length arr1 \<Longrightarrow>
   compare_loop arr1 arr2 i ok =
     (fold (\<lambda>j acc. acc OR (ucast (arr1 ! j) XOR ucast (arr2 ! j))) [i..<length arr1] ok,
      length arr1)"
proof (induction arr1 arr2 i ok rule: compare_loop.induct)
  case (1 arr1 arr2 i ok)
  show ?case
  proof (cases "i < length arr1")
    case True
    then have "[i..<length arr1] = i # [i + 1..<length arr1]" by (simp add: upt_conv_Cons)
    then show ?thesis using True 1 by (subst compare_loop.simps) simp
  next
    case False
    then have "i = length arr1" using 1 by simp
    then show ?thesis by (subst compare_loop.simps) simp
  qed
qed

lemma unat_ucast_8_32:
  fixes x :: byte
  shows "unat (ucast x :: 32 word) = unat x"
proof -
  have "unat x < 2 ^ 32" using unsigned_less [of x, where 'a = nat] by simp
  then show ?thesis by (simp add: unsigned_ucast_eq take_bit_nat_eq_self)
qed

lemma ucast_inj_8_32:
  fixes x y :: byte
  shows "(ucast x :: 32 word) = ucast y \<longleftrightarrow> x = y"
proof
  assume "(ucast x :: 32 word) = ucast y"
  then have "unat (ucast x :: 32 word) = unat (ucast y :: 32 word)" by simp
  then have "unat x = unat y" by (simp only: unat_ucast_8_32)
  then show "x = y" by (simp add: word_unat_eq_iff)
qed simp

lemma byte_xor_zero:
  fixes x y :: byte
  shows "((ucast x :: 32 word) XOR ucast y) = 0 \<longleftrightarrow> x = y"
proof -
  have "((ucast x :: 32 word) XOR ucast y) = 0 \<longleftrightarrow> (ucast x :: 32 word) = ucast y"
    by (auto simp: bit_eq_iff bit_xor_iff)
  then show ?thesis by (simp only: ucast_inj_8_32)
qed

lemma compare_loop_run:
  "compare_loop a b 0 0 =
     (fold (\<lambda>j acc. acc OR (ucast (a ! j) XOR ucast (b ! j))) [0..<length a] 0, length a)"
  by (rule compare_loop_fold) simp

lemma compare_iff_nth:
  "compare a b = (length a = length b \<and> (\<forall>i<length a. a ! i = b ! i))"
proof -
  have "fst (compare_loop a b 0 0) = 0 \<longleftrightarrow> (\<forall>i<length a. a ! i = b ! i)"
    unfolding compare_loop_run by (auto simp: fold_or_zero byte_xor_zero list_all_iff)
  then show ?thesis by (auto simp: compare_def)
qed

lemma compare_eq: "compare a b = (a = b)"
  by (simp only: compare_iff_nth list_eq_iff_nth_eq)

text \<open>
  Claim C9. \<open>compare\<close> returns true exactly when the two byte sequences have the same
  length and the same byte at every index. When the lengths are equal, its result is
  the test \<open>ok == 0\<close> on the accumulator folded with \<open>ok |= arr1[i] ^ arr2[i]\<close> over all
  indices, and the loop runs once for every index whatever the bytes are: it does not
  stop at the first mismatch.
\<close>

theorem compare_constant_time:
  "compare a b = (length a = length b \<and> (\<forall>i<length a. a ! i = b ! i))
   \<and> (length a = length b \<longrightarrow>
        compare a b =
          (fold (\<lambda>i acc. acc OR (ucast (a ! i) XOR ucast (b ! i))) [0..<length a] (0 :: 32 word) = 0)
        \<and> snd (compare_loop a b 0 0) = length a)"
proof -
  have "length a = length b \<longrightarrow>
        compare a b =
          (fold (\<lambda>i acc. acc OR (ucast (a ! i) XOR ucast (b ! i))) [0..<length a] (0 :: 32 word) = 0)
        \<and> snd (compare_loop a b 0 0) = length a"
    by (simp add: compare_def compare_loop_run)
  then show ?thesis using compare_iff_nth [of a b] by blast
qed

theorem compare_constant_time_witness:
  "compare [1, 2, 3] [1, 2, 3] \<and> \<not> compare [1, 2, 3] [9, 2, 3]
   \<and> snd (compare_loop [1, 2, 3] [9, 2, 3] 0 0) = 3 \<and> \<not> compare [1, 2] [1, 2, 3]"
  using compare_constant_time [of "[1, 2, 3]" "[1, 2, 3]"]
        compare_constant_time [of "[1, 2, 3]" "[9, 2, 3]"]
        compare_constant_time [of "[1, 2]" "[1, 2, 3]"]
  by (simp add: nth_Cons' less_Suc_eq all_conj_distrib numeral_3_eq_3)

section \<open>The MAC input and the truncated tag\<close>

lemma ucast_drop_bit_of_nat:
  assumes "k + 8 \<le> 32"
  shows "(ucast (drop_bit k (of_nat n :: 32 word)) :: byte) = of_nat (n div 2 ^ k)"
proof -
  have "(ucast (drop_bit k (of_nat n :: 32 word)) :: byte) = of_nat (drop_bit k n)"
    using assms by (intro bit_word_eqI) (auto simp: bit_simps)
  then show ?thesis by (simp add: drop_bit_eq_div)
qed

lemma uint32_buffer_nat:
  "uint32_buffer (of_nat n) =
     [of_nat n, of_nat (n div 256), of_nat (n div 65536), of_nat (n div 16777216)]"
proof -
  have 0: "(ucast (of_nat n :: 32 word) :: byte) = of_nat n"
    using ucast_drop_bit_of_nat [of 0 n] by simp
  have 1: "(ucast (drop_bit 8 (of_nat n :: 32 word)) :: byte) = of_nat (n div 256)"
    using ucast_drop_bit_of_nat [of 8 n] by simp
  have 2: "(ucast (drop_bit 16 (of_nat n :: 32 word)) :: byte) = of_nat (n div 65536)"
    using ucast_drop_bit_of_nat [of 16 n] by simp
  have 3: "(ucast (drop_bit 24 (of_nat n :: 32 word)) :: byte) = of_nat (n div 16777216)"
    using ucast_drop_bit_of_nat [of 24 n] by simp
  show ?thesis unfolding uint32_buffer_def by (simp only: 0 1 2 3)
qed

lemma reverse4: "map (\<lambda>j. [a, b, c, d] ! (3 - j)) [0..<4] = [d, c, b, a]"
proof -
  have "[0..<4] = [0, 1, 2, 3 :: nat]" by (simp add: upt_rec)
  then show ?thesis by simp
qed

lemma arrayFromInt32_nat:
  "arrayFromInt32 (int n) =
     [of_nat (n div 16777216), of_nat (n div 65536), of_nat (n div 256), of_nat n]"
proof -
  have "(word_of_int (int n) :: 32 word) = of_nat n" by simp
  then show ?thesis
    unfolding arrayFromInt32_def Let_def by (simp only: uint32_buffer_nat reverse4)
qed

lemma length_arrayFromInt32: "length (arrayFromInt32 i) = 4"
  by (simp add: arrayFromInt32_def uint32_buffer_def Let_def)

lemma copy_into_eq:
  "offset + length xs \<le> length r \<Longrightarrow>
   copy_into r offset xs = (take offset r @ xs @ drop (offset + length xs) r, offset + length xs)"
proof (induction xs arbitrary: r offset)
  case Nil
  then show ?case by simp
next
  case (Cons x xs)
  have "take (Suc offset) (r[offset := x]) = take offset r @ [x]"
    using Cons.prems by (simp add: take_Suc_conv_app_nth)
  moreover have "drop (Suc offset + length xs) (r[offset := x]) = drop (Suc offset + length xs) r"
    by simp
  ultimately show ?case using Cons by simp
qed

lemma concat_loop_eq:
  "offset + sum_list (map length args) \<le> length r \<Longrightarrow>
   concat_loop r offset args =
     (take offset r @ concat args @ drop (offset + sum_list (map length args)) r,
      offset + sum_list (map length args))"
proof (induction args arbitrary: r offset)
  case Nil
  then show ?case by simp
next
  case (Cons a as)
  let ?r = "take offset r @ a @ drop (offset + length a) r"
  have c: "copy_into r offset a = (?r, offset + length a)"
    using Cons.prems by (intro copy_into_eq) simp
  have len: "length ?r = length r" using Cons.prems by simp
  have "concat_loop ?r (offset + length a) as =
         (take (offset + length a) ?r @ concat as
            @ drop (offset + length a + sum_list (map length as)) ?r,
          offset + length a + sum_list (map length as))"
    using Cons.prems len by (intro Cons.IH) simp
  moreover have "take (offset + length a) ?r = take offset r @ a"
    using Cons.prems by simp
  moreover have "drop (offset + length a + sum_list (map length as)) ?r
                 = drop (offset + length a + sum_list (map length as)) r"
    using Cons.prems by (simp add: ac_simps)
  ultimately show ?case using c by (simp add: add.assoc)
qed

lemma arrayBufferConcat_eq: "arrayBufferConcat args = Inr (concat args)"
proof -
  have "concat_loop (replicate (sum_list (map length args)) 0) 0 args =
          (concat args, sum_list (map length args))"
    using concat_loop_eq [of 0 args "replicate (sum_list (map length args)) 0"] by simp
  then show ?thesis by (simp add: arrayBufferConcat_def)
qed

lemma mac_input_eq:
  "mac_input aad iv cipher_text =
     Inr (aad @ iv @ cipher_text @
          [0, 0, 0, 0,
           of_nat ((length aad * 8) div 16777216), of_nat ((length aad * 8) div 65536),
           of_nat ((length aad * 8) div 256), of_nat (length aad * 8)])"
proof -
  let ?al = "arrayFromInt32 (int (length aad * 8))"
  have "length ?al = 4" by (rule length_arrayFromInt32)
  then have "copy_into (replicate 8 0) 4 ?al = (replicate 4 0 @ ?al, 8)"
    using copy_into_eq [of 4 ?al "replicate 8 0"] by simp
  moreover have "replicate 4 (0 :: byte) = [0, 0, 0, 0]" by (simp add: numeral_eq_Suc)
  ultimately have "fst (copy_into (replicate 8 0) 4 ?al) = [0, 0, 0, 0] @ ?al" by simp
  then show ?thesis
    unfolding mac_input_def Let_def arrayBufferConcat_eq
    by (simp only: arrayFromInt32_nat) simp
qed



lemma be32_value:
  fixes n :: nat
  shows "((n div 16777216 mod 256 * 256 + n div 65536 mod 256) * 256 + n div 256 mod 256) * 256
           + n mod 256 = n mod 4294967296"
proof -
  define m where "m = n div 256"
  define p where "p = m div 256"
  define q where "q = p div 256"
  have p: "n div 65536 = p" unfolding p_def m_def by (simp add: div_mult2_eq)
  have q: "n div 16777216 = q" unfolding q_def p_def m_def by (simp add: div_mult2_eq)
  have 1: "n mod (256 * 16777216) = 256 * (m mod 16777216) + n mod 256"
    unfolding m_def by (rule mod_mult2_eq)
  have 2: "m mod (256 * 65536) = 256 * (p mod 65536) + m mod 256"
    unfolding p_def by (rule mod_mult2_eq)
  have 3: "p mod (256 * 256) = 256 * (q mod 256) + p mod 256"
    unfolding q_def by (rule mod_mult2_eq)
  show ?thesis using 1 2 3 p q m_def by simp
qed

lemma unat_byte_of_nat: "unat (of_nat n :: byte) = n mod 256"
  by (simp add: unat_of_nat)

lemma be32_read:
  "foldl (\<lambda>acc b. acc * 256 + unat b) 0
     [0, 0, 0, 0, of_nat (n div 16777216), of_nat (n div 65536), of_nat (n div 256), of_nat n :: byte]
   = n mod 2 ^ 32"
  using be32_value [of n] by (simp add: unat_byte_of_nat del: of_nat_div)

text \<open>
  Claim C5. In \<open>truncatedMac\<close> the bytes handed to \<open>crypto.subtle.sign\<close> are
  \<open>aad\<close>, \<open>iv\<close>, \<open>cipher_text\<close> and \<open>AL\<close>, in this order and nothing else; \<open>AL\<close>
  is eight bytes, four zero bytes followed by the four bytes of \<open>8 * aad.length\<close> with
  the most significant first; the tag returned is the first \<open>truncated_bytes\<close> bytes of
  the signature. Read as a big-endian number, \<open>AL\<close> is \<open>8 * aad.length\<close> modulo
  \<open>2^32\<close>: the bit length itself whenever it fits 32 bits.
\<close>

theorem truncatedMac_input_and_tag:
  "truncatedMac P config (Inr mac_key) aad iv cipher_text =
     (let al = [0, 0, 0, 0,
                of_nat ((length aad * 8) div 16777216), of_nat ((length aad * 8) div 65536),
                of_nat ((length aad * 8) div 256), of_nat (length aad * 8)] in
      case auth config of
        Some (Mac key_bytes auth_id truncated_bytes) \<Rightarrow>
          (case subtle_sign P auth_id mac_key (aad @ iv @ cipher_text @ al) of
             None \<Rightarrow> (Inl ProviderError, [Sign auth_id mac_key (aad @ iv @ cipher_text @ al)])
           | Some bytes \<Rightarrow>
               (Inr (take truncated_bytes bytes),
                [Sign auth_id mac_key (aad @ iv @ cipher_text @ al)]))
      | _ \<Rightarrow> (Inl TypeError, []))
   \<and> foldl (\<lambda>acc b. acc * 256 + unat b) 0
        [0, 0, 0, 0,
         of_nat ((length aad * 8) div 16777216), of_nat ((length aad * 8) div 65536),
         of_nat ((length aad * 8) div 256), of_nat (length aad * 8) :: byte]
      = (length aad * 8) mod 2 ^ 32"
proof -
  have "foldl (\<lambda>acc b. acc * 256 + unat b) 0
        [0, 0, 0, 0,
         of_nat ((length aad * 8) div 16777216), of_nat ((length aad * 8) div 65536),
         of_nat ((length aad * 8) div 256), of_nat (length aad * 8) :: byte]
      = (length aad * 8) mod 2 ^ 32"
    by (rule be32_read)
  moreover have "truncatedMac P config (Inr mac_key) aad iv cipher_text =
     (let al = [0, 0, 0, 0,
                of_nat ((length aad * 8) div 16777216), of_nat ((length aad * 8) div 65536),
                of_nat ((length aad * 8) div 256), of_nat (length aad * 8)] in
      case auth config of
        Some (Mac key_bytes auth_id truncated_bytes) \<Rightarrow>
          (case subtle_sign P auth_id mac_key (aad @ iv @ cipher_text @ al) of
             None \<Rightarrow> (Inl ProviderError, [Sign auth_id mac_key (aad @ iv @ cipher_text @ al)])
           | Some bytes \<Rightarrow>
               (Inr (take truncated_bytes bytes),
                [Sign auth_id mac_key (aad @ iv @ cipher_text @ al)]))
      | _ \<Rightarrow> (Inl TypeError, []))"
    unfolding truncatedMac_def mac_input_eq Let_def
    by (simp split: option.split auth.split)
  ultimately show ?thesis by blast
qed

section \<open>The registry and the CEK split\<close>

lemma getCryptoConfig_cases:
  assumes "getCryptoConfig alg = Inr config"
  obtains "alg = JStr ''RSA-OAEP''" | "alg = JStr ''RSA-OAEP-256''" | "alg = JStr ''A128KW''"
    | "alg = JStr ''A256KW''" | "alg = JStr ''A128CBC-HS256''" | "alg = JStr ''A256CBC-HS512''"
    | "alg = JStr ''A128GCM''" | "alg = JStr ''A256GCM''"
proof (cases "alg = JStr ''RSA-OAEP''")
  case True
  then show ?thesis by (rule that(1))
next
  case n1: False
  show ?thesis
  proof (cases "alg = JStr ''RSA-OAEP-256''")
    case True
    then show ?thesis by (rule that(2))
  next
    case n2: False
    show ?thesis
    proof (cases "alg = JStr ''A128KW''")
      case True
      then show ?thesis by (rule that(3))
    next
      case n3: False
      show ?thesis
      proof (cases "alg = JStr ''A256KW''")
        case True
        then show ?thesis by (rule that(4))
      next
        case n4: False
        show ?thesis
        proof (cases "alg = JStr ''A128CBC-HS256''")
          case True
          then show ?thesis by (rule that(5))
        next
          case n5: False
          show ?thesis
          proof (cases "alg = JStr ''A256CBC-HS512''")
            case True
            then show ?thesis by (rule that(6))
          next
            case n6: False
            show ?thesis
            proof (cases "alg = JStr ''A128GCM''")
              case True
              then show ?thesis by (rule that(7))
            next
              case n7: False
              show ?thesis
              proof (cases "alg = JStr ''A256GCM''")
                case True
                then show ?thesis by (rule that(8))
              next
                case n8: False
                have "getCryptoConfig alg = Inl (Unsupported alg)"
                  unfolding getCryptoConfig_def by (simp only: n1 n2 n3 n4 n5 n6 n7 n8 if_False)
                then show ?thesis using assms by simp
              qed
            qed
          qed
        qed
      qed
    qed
  qed
qed

lemma composite_configs:
  assumes "getCryptoConfig alg = Inr config"
    and "auth config = Some (Mac key_bytes auth_id truncated_bytes)"
  shows "(config = a128cbc_config \<and> key_bytes = 16 \<and> auth_id = hash_id ''HMAC'' ''SHA-256''
            \<and> truncated_bytes = 16)
       \<or> (config = \<lparr>jwe_name = None, cfg_id = length_id ''AES-CBC'' 256,
                     iv_bytes = Some 16, specific_cek_bytes = Some 64,
                     auth = Some (Mac 32 (hash_id ''HMAC'' ''SHA-512'') 32)\<rparr>
            \<and> key_bytes = 32 \<and> auth_id = hash_id ''HMAC'' ''SHA-512'' \<and> truncated_bytes = 32)"
  using assms(1)
proof (cases rule: getCryptoConfig_cases)
  case 1 then show ?thesis using assms by (simp add: getCryptoConfig_def) auto
next
  case 2 then show ?thesis using assms by (simp add: getCryptoConfig_def) auto
next
  case 3 then show ?thesis using assms by (simp add: getCryptoConfig_def) auto
next
  case 4 then show ?thesis using assms by (simp add: getCryptoConfig_def) auto
next
  case 5 then show ?thesis using assms by (simp add: getCryptoConfig_def a128cbc_config_def) auto
next
  case 6 then show ?thesis using assms by (simp add: getCryptoConfig_def) auto
next
  case 7 then show ?thesis using assms by (simp add: getCryptoConfig_def) auto
next
  case 8 then show ?thesis using assms by (simp add: getCryptoConfig_def) auto
qed

text \<open>
  Claim C6. For a composite suite of the registry, \<open>splitKey\<close> exports the raw CEK
  and rejects (both promises, with the reason "incorrect cek length", an internal
  invariant) whenever its length differs from \<open>key_bytes + key_bits / 8\<close>, which is the
  \<open>specific_cek_bytes\<close> of the suite; otherwise it imports the first \<open>key_bytes\<close>
  bytes under the HMAC identifier, not extractable, with the usage \<open>sign\<close>, and the
  remaining bytes under the AES-CBC identifier with the usage of the caller, in this
  order.
\<close>

theorem splitKey_composite:
  assumes "getCryptoConfig alg = Inr config"
    and "auth config = Some (Mac key_bytes auth_id truncated_bytes)"
    and "subtle_exportKey P cek = Some cek_bytes"
  shows "\<exists>key_bits.
           id_length (cfg_id config) = Some key_bits
         \<and> specific_cek_bytes config = Some (key_bytes + key_bits div 8)
         \<and> id_name auth_id = ''HMAC'' \<and> id_name (cfg_id config) = ''AES-CBC''
         \<and> splitKey P config (Inr cek) purpose =
             (if length cek_bytes \<noteq> key_bytes + key_bits div 8 then
                ((Inl (Reject ''encryptPlainText: incorrect cek length''),
                  Inl (Reject ''encryptPlainText: incorrect cek length'')), [ExportKey cek])
              else
                ((settle (subtle_importKey P (take key_bytes cek_bytes) auth_id False [''sign'']),
                  settle (subtle_importKey P (drop key_bytes cek_bytes) (cfg_id config) False purpose)),
                 [ExportKey cek,
                  ImportKey (take key_bytes cek_bytes) auth_id False [''sign''],
                  ImportKey (drop key_bytes cek_bytes) (cfg_id config) False purpose]))
         \<and> error_kind_of (Reject ''encryptPlainText: incorrect cek length'') = InternalInvariant"
proof -
  have k: "error_kind_of (Reject ''encryptPlainText: incorrect cek length'') = InternalInvariant"
    by (simp add: error_kind_of_def)
  from composite_configs [OF assms(1,2)] show ?thesis
  proof
    assume c: "config = a128cbc_config \<and> key_bytes = 16 \<and> auth_id = hash_id ''HMAC'' ''SHA-256''
            \<and> truncated_bytes = 16"
    have "length cek_bytes * 8 \<noteq> 128 + 16 * 8 \<longleftrightarrow> length cek_bytes \<noteq> 16 + 128 div 8" by auto
    then show ?thesis using c k assms(3)
      by (intro exI [of _ 128])
         (simp add: splitKey_def a128cbc_config_def length_id_def hash_id_def)
  next
    assume c: "config = \<lparr>jwe_name = None, cfg_id = length_id ''AES-CBC'' 256,
                     iv_bytes = Some 16, specific_cek_bytes = Some 64,
                     auth = Some (Mac 32 (hash_id ''HMAC'' ''SHA-512'') 32)\<rparr>
            \<and> key_bytes = 32 \<and> auth_id = hash_id ''HMAC'' ''SHA-512'' \<and> truncated_bytes = 32"
    have "length cek_bytes * 8 \<noteq> 256 + 32 * 8 \<longleftrightarrow> length cek_bytes \<noteq> 32 + 256 div 8" by auto
    then show ?thesis using c k assms(3)
      by (intro exI [of _ 256])
         (simp add: splitKey_def length_id_def hash_id_def)
  qed
qed

lemma getCryptoConfig_a128cbc: "getCryptoConfig (JStr ''A128CBC-HS256'') = Inr a128cbc_config"
  by (simp add: getCryptoConfig_def a128cbc_config_def)

theorem splitKey_composite_witness:
  "splitKey toy_platform a128cbc_config (Inr (replicate 16 1 @ replicate 16 2)) [''decrypt''] =
     ((Inr (replicate 16 1), Inr (replicate 16 2)),
      [ExportKey (replicate 16 1 @ replicate 16 2),
       ImportKey (replicate 16 1) (hash_id ''HMAC'' ''SHA-256'') False [''sign''],
       ImportKey (replicate 16 2) (length_id ''AES-CBC'' 128) False [''decrypt'']])
   \<and> splitKey toy_platform a128cbc_config (Inr (replicate 31 1)) [''decrypt''] =
     ((Inl (Reject ''encryptPlainText: incorrect cek length''),
       Inl (Reject ''encryptPlainText: incorrect cek length'')), [ExportKey (replicate 31 1)])"
proof -
  have a: "auth a128cbc_config = Some (Mac 16 (hash_id ''HMAC'' ''SHA-256'') 16)"
    by (simp add: a128cbc_config_def)
  have e1: "subtle_exportKey toy_platform (replicate 16 1 @ replicate 16 2)
              = Some (replicate 16 1 @ replicate 16 2)"
    by (simp add: toy_platform_def)
  have e2: "subtle_exportKey toy_platform (replicate 31 1) = Some (replicate 31 1)"
    by (simp add: toy_platform_def)
  show ?thesis
    using splitKey_composite [OF getCryptoConfig_a128cbc a e1, of "[''decrypt'']"]
          splitKey_composite [OF getCryptoConfig_a128cbc a e2, of "[''decrypt'']"]
    by (simp add: a128cbc_config_def length_id_def toy_platform_def settle_def)
qed

text \<open>
  Claim C2, evaluated on the source. The records of six of the eight identifiers carry
  the identifier as \<open>jwe_name\<close>; those of \<open>A256CBC-HS512\<close> and \<open>A128GCM\<close> have no
  \<open>jwe_name\<close>, and the protected header built from such a record has no \<open>enc\<close>
  member.
\<close>

theorem getCryptoConfig_jwe_names:
  "map (\<lambda>a. map_sum id jwe_name (getCryptoConfig (JStr a)))
     [''RSA-OAEP'', ''RSA-OAEP-256'', ''A128KW'', ''A256KW'',
      ''A128CBC-HS256'', ''A256CBC-HS512'', ''A128GCM'', ''A256GCM'']
   = [Inr (Some ''RSA-OAEP''), Inr (Some ''RSA-OAEP-256''), Inr (Some ''A128KW''),
      Inr (Some ''A256KW''), Inr (Some ''A128CBC-HS256''), Inr None, Inr None,
      Inr (Some ''A256GCM'')]
   \<and> (case (getCryptoConfig (JStr ''RSA-OAEP''), getCryptoConfig (JStr ''A256CBC-HS512'')) of
         (Inr ka, Inr ca) \<Rightarrow> protected_header_json ka ca = ''{\"alg\":\"RSA-OAEP\"}''
       | _ \<Rightarrow> False)"
  by (simp add: getCryptoConfig_def protected_header_json_def stringify_member_def)

section \<open>RSA key normalisation: the shapes of the exponent\<close>

lemma encodeArray_101: "Base64Url_encodeArray [1, 0, 1] = ''AQAB''"
  by (simp add: Base64Url_encodeArray_def encode_eq Let_def b64_char_def b64_alphabet_def to_url_def)

lemma convert_param_e_num:
  "convert_param ''e'' (Some (KNum 65537)) = Inr (Some (KStr ''AQAB''))"
proof -
  have "arrayFromInt32 65537 = [0, 1, 0, 1]"
    using arrayFromInt32_nat [of 65537] by simp
  then have "stripLeadingZeros (arrayFromInt32 65537) = [1, 0, 1]"
    by (simp add: stripLeadingZeros_def)
  then show ?thesis by (simp add: convert_param_def encodeArray_101)
qed

lemma convert_param_e_str: "convert_param ''e'' (Some (KStr s)) = Inr (Some (KStr s))"
  by (simp add: convert_param_def)

lemma convert_loop_cong:
  assumes "\<And>p. p \<in> set ps \<Longrightarrow> convert_param p (k1 p) = convert_param p (k2 p)"
  shows "convert_loop k1 ps r = convert_loop k2 ps r"
  using assms by (induction ps arbitrary: r) (simp_all split: sum.split)

lemma convert_loop_other:
  "convert_loop k ps r = Inr r' \<Longrightarrow> p \<notin> set ps \<Longrightarrow> r' p = r p"
  by (induction ps arbitrary: r) (auto split: sum.splits)

lemma convert_loop_member:
  "convert_loop k ps r = Inr r' \<Longrightarrow> p \<in> set ps \<Longrightarrow> convert_param p (k p) = Inr (r' p)"
proof (induction ps arbitrary: r)
  case Nil
  then show ?case by simp
next
  case (Cons q ps)
  from Cons.prems(1) obtain v where v: "convert_param q (k q) = Inr v"
    and rest: "convert_loop k ps (r(q := v)) = Inr r'"
    by (auto split: sum.splits)
  show ?case
  proof (cases "p \<in> set ps")
    case True
    then show ?thesis using Cons.IH [OF rest] by simp
  next
    case False
    then have "p = q" using Cons.prems(2) by simp
    moreover have "r' q = v" using convert_loop_other [OF rest, of q] False \<open>p = q\<close> by simp
    ultimately show ?thesis using v by simp
  qed
qed

lemma convertRsaKey_member:
  assumes "convertRsaKey k ps = Inr r" and "p \<in> set ps"
  shows "convert_param p (k p) = Inr (r p)"
proof -
  from assms(1) have "convert_loop k ps
            ((Map.empty :: rsa_key)(''kty'' \<mapsto> KStr ''RSA'', ''alg'' \<mapsto> KStr ''RSA-OAEP'')) = Inr r"
    unfolding convertRsaKey_def Let_def by (simp split: if_splits)
  then show ?thesis using assms(2) by (rule convert_loop_member)
qed

lemma convertRsaKey_cong:
  assumes "\<And>p. p \<noteq> ''e'' \<Longrightarrow> k1 p = k2 p"
    and "k1 ''e'' \<noteq> None" and "k2 ''e'' \<noteq> None"
    and "convert_param ''e'' (k1 ''e'') = convert_param ''e'' (k2 ''e'')"
  shows "convertRsaKey k1 ps = convertRsaKey k2 ps"
proof -
  have none: "(k1 p = None) = (k2 p = None)" for p
  proof (cases "p = ''e''")
    case True
    have "k1 ''e'' \<noteq> None" "k2 ''e'' \<noteq> None" by (rule assms(2), rule assms(3))
    then show ?thesis unfolding True by (simp only: simp_thms)
  next
    case False
    then have "k1 p = k2 p" by (rule assms(1))
    then show ?thesis by (simp only:)
  qed
  have m: "filter (\<lambda>p. k1 p = None) ps = filter (\<lambda>p. k2 p = None) ps"
    by (simp only: none)
  have kty: "k1 ''kty'' = k2 ''kty''" by (rule assms(1)) simp
  have alg: "k1 ''alg'' = k2 ''alg''" by (rule assms(1)) simp
  have param: "convert_param p (k1 p) = convert_param p (k2 p)" for p
  proof (cases "p = ''e''")
    case True
    show ?thesis unfolding True by (rule assms(4))
  next
    case False
    then have "k1 p = k2 p" by (rule assms(1))
    then show ?thesis by (simp only:)
  qed
  have loop: "convert_loop k1 ps r = convert_loop k2 ps r" for r
    by (rule convert_loop_cong) (rule param)
  show ?thesis unfolding convertRsaKey_def by (simp only: m kty alg loop)
qed

text \<open>
  Claim C4, as amended. For every key and every list of parameters, \<open>convertRsaKey\<close>
  gives the same result (the same JWK, or the same error) whether \<open>e\<close> is the number
  65537 or the string \<open>AQAB\<close>, and the \<open>e\<close> of the JWK is then \<open>AQAB\<close>. A string
  given for \<open>e\<close> is stored as it is, whatever it holds: the conversion of the
  colon-delimited hexadecimal form is in the branch of the other parameters only.
\<close>

theorem convertRsaKey_e_shapes:
  "convertRsaKey (k(''e'' \<mapsto> KNum 65537)) ps = convertRsaKey (k(''e'' \<mapsto> KStr ''AQAB'')) ps
   \<and> (\<forall>r. convertRsaKey (k(''e'' \<mapsto> KNum 65537)) ps = Inr r \<and> ''e'' \<in> set ps
          \<longrightarrow> r ''e'' = Some (KStr ''AQAB''))
   \<and> (\<forall>r s. convertRsaKey (k(''e'' \<mapsto> KStr s)) ps = Inr r \<and> ''e'' \<in> set ps
          \<longrightarrow> r ''e'' = Some (KStr s))"
proof (intro conjI allI impI)
  show "convertRsaKey (k(''e'' \<mapsto> KNum 65537)) ps = convertRsaKey (k(''e'' \<mapsto> KStr ''AQAB'')) ps"
    by (rule convertRsaKey_cong) (simp_all add: convert_param_e_num convert_param_e_str)
next
  fix r
  assume "convertRsaKey (k(''e'' \<mapsto> KNum 65537)) ps = Inr r \<and> ''e'' \<in> set ps"
  then have "convert_param ''e'' ((k(''e'' \<mapsto> KNum 65537)) ''e'') = Inr (r ''e'')"
    using convertRsaKey_member by blast
  then show "r ''e'' = Some (KStr ''AQAB'')" by (simp add: convert_param_e_num)
next
  fix r s
  assume "convertRsaKey (k(''e'' \<mapsto> KStr s)) ps = Inr r \<and> ''e'' \<in> set ps"
  then have "convert_param ''e'' ((k(''e'' \<mapsto> KStr s)) ''e'') = Inr (r ''e'')"
    using convertRsaKey_member by blast
  then show "r ''e'' = Some (KStr s)" by (simp add: convert_param_e_str)
qed

lemma convertRsaKey_example:
  "convertRsaKey [''n'' \<mapsto> KStr ''AQAB'', ''e'' \<mapsto> KStr s] [''n'', ''e''] =
     Inr [''kty'' \<mapsto> KStr ''RSA'', ''alg'' \<mapsto> KStr ''RSA-OAEP'', ''n'' \<mapsto> KStr ''AQAB'',
          ''e'' \<mapsto> KStr s]"
  by (simp add: convertRsaKey_def convert_param_def colon_hex_def is_hex_def)

theorem convertRsaKey_e_shapes_witness:
  "convertRsaKey [''n'' \<mapsto> KStr ''AQAB'', ''e'' \<mapsto> KNum 65537] [''n'', ''e''] =
     Inr [''kty'' \<mapsto> KStr ''RSA'', ''alg'' \<mapsto> KStr ''RSA-OAEP'', ''n'' \<mapsto> KStr ''AQAB'',
          ''e'' \<mapsto> KStr ''AQAB'']"
  using convertRsaKey_e_shapes [of "[''n'' \<mapsto> KStr ''AQAB'']" "[''n'', ''e'']"]
        convertRsaKey_example [of "''AQAB''"]
  by simp

text \<open>
  The claim C4 as stated fails: with \<open>e = "01:00:01"\<close> the JWK keeps \<open>01:00:01\<close> as
  its \<open>e\<close>, where \<open>e = "AQAB"\<close> gives \<open>AQAB\<close>; the same text given for \<open>n\<close> is
  converted to \<open>AQAB\<close>.
\<close>

theorem convertRsaKey_colon_hex_e_counterexample:
  "map_sum id (\<lambda>r. r ''e'')
     (convertRsaKey [''n'' \<mapsto> KStr ''AQAB'', ''e'' \<mapsto> KStr ''01:00:01''] [''n'', ''e''])
     = Inr (Some (KStr ''01:00:01''))
   \<and> map_sum id (\<lambda>r. r ''e'')
     (convertRsaKey [''n'' \<mapsto> KStr ''AQAB'', ''e'' \<mapsto> KStr ''AQAB''] [''n'', ''e''])
     = Inr (Some (KStr ''AQAB''))
   \<and> map_sum id (\<lambda>r. r ''n'')
     (convertRsaKey [''n'' \<mapsto> KStr ''01:00:01'', ''e'' \<mapsto> KStr ''AQAB''] [''n'', ''e''])
     = Inr (Some (KStr ''AQAB''))"
proof -
  have "split_on CHR '':'' ''01:00:01'' = [''01'', ''00'', ''01'']" by simp
  then have "map intFromHex (split_on CHR '':'' ''01:00:01'') = [1, 0, 1]"
    by (simp add: intFromHex_def hex_digit_def)
  then have "convert_param ''n'' (Some (KStr ''01:00:01'')) = Inr (Some (KStr ''AQAB''))"
    by (simp add: convert_param_def colon_hex_def is_hex_def stripLeadingZeros_def encodeArray_101)
  moreover have "convert_param ''n'' (Some (KStr ''AQAB'')) = Inr (Some (KStr ''AQAB''))"
    by (simp add: convert_param_def colon_hex_def is_hex_def)
  ultimately show ?thesis
    by (simp add: convertRsaKey_def convert_param_e_str)
qed

section \<open>The structure of a decryption\<close>

lemma decryptCiphertext_composite:
  assumes "auth (content_encryption this) = Some (Mac kb aid tb)"
  shows "decryptCiphertext P this cekp aad iv ct tag =
    (if iv_bytes (content_encryption this) \<noteq> Some (length iv) then
       (Inl (Reject ''decryptCiphertext: invalid IV''), [])
     else
       (case keys_and_mac P (content_encryption this) cekp aad iv ct of
          (Inl e, calls) \<Rightarrow> (Inl e, calls)
        | (Inr (ek, mac), calls) \<Rightarrow>
            if mac \<noteq> tag then (Inl (Reject ''decryptCiphertext: MAC failed.''), calls)
            else (settle (subtle_decrypt P (cbc_params (content_encryption this) iv) ek ct),
                  calls @ [Decrypt (cbc_params (content_encryption this) iv) ek ct])))"
  unfolding decryptCiphertext_def keys_and_mac_def Let_def cbc_params_def
  by (simp add: assms compare_eq split: prod.split sum.split)

lemma truncatedMac_eq:
  "truncatedMac P config mkp aad iv ct =
    (case mkp of
       Inl e \<Rightarrow> (Inl e, [])
     | Inr mk \<Rightarrow>
        (case auth config of
           Some (Mac kb aid tb) \<Rightarrow>
             (map_sum id (take tb) (settle (subtle_sign P aid mk (aad @ iv @ ct @ AL aad))),
              [Sign aid mk (aad @ iv @ ct @ AL aad)])
         | _ \<Rightarrow> (Inl TypeError, [])))"
  unfolding truncatedMac_def mac_input_eq AL_def settle_def
  by (simp split: sum.split option.split auth.split)

lemma keys_and_mac_no_Decrypt:
  "list_all (\<lambda>c. \<not> is_Decrypt c) (snd (keys_and_mac P config cekp aad iv ct))"
  unfolding keys_and_mac_def splitKey_def truncatedMac_eq
  by (simp split: sum.split option.split auth.split prod.split)

lemma keys_and_mac_Inr:
  assumes "keys_and_mac P config cekp aad iv ct = (Inr (ek, mac), calls)"
    and "auth config = Some (Mac kb aid tb)"
  shows "\<exists>cek cek_bytes mk m.
           cekp = Inr cek \<and> subtle_exportKey P cek = Some cek_bytes
         \<and> subtle_importKey P (take kb cek_bytes) aid False [''sign''] = Some mk
         \<and> subtle_importKey P (drop kb cek_bytes) (cfg_id config) False [''decrypt''] = Some ek
         \<and> subtle_sign P aid mk (aad @ iv @ ct @ AL aad) = Some m
         \<and> mac = take tb m
         \<and> calls = [ExportKey cek,
                     ImportKey (take kb cek_bytes) aid False [''sign''],
                     ImportKey (drop kb cek_bytes) (cfg_id config) False [''decrypt''],
                     Sign aid mk (aad @ iv @ ct @ AL aad)]"
  using assms unfolding keys_and_mac_def splitKey_def truncatedMac_eq promise_all_def settle_def
  by (auto split: sum.splits option.splits if_splits)


lemma decryptCek_no_Decrypt:
  "decryptCek P st key ecek = Inr (cekp, calls1) \<Longrightarrow> list_all (\<lambda>c. \<not> is_Decrypt c) calls1"
  unfolding decryptCek_def Let_def by (auto split: sum.splits)

lemma decrypt_segments_cases:
  obtains (early) e calls where
      "decrypt_segments P st key parts = (Inl e, st, calls)"
      "list_all (\<lambda>c. \<not> is_Decrypt c) calls"
  | (reached) ecek cekp calls1 iv ct tag r calls2 where
      "Base64Url_decodeArray (parts ! 1) = Inr ecek"
      "decryptCek P st key ecek = Inr (cekp, calls1)"
      "Base64Url_decodeArray (parts ! 2) = Inr iv"
      "Base64Url_decodeArray (parts ! 3) = Inr ct"
      "Base64Url_decodeArray (parts ! 4) = Inr tag"
      "decryptCiphertext P st cekp (arrayFromString (parts ! 0)) iv ct tag = (r, calls2)"
      "decrypt_segments P st key parts = (map_sum id stringFromArray r, st, calls1 @ calls2)"
      "list_all (\<lambda>c. \<not> is_Decrypt c) calls1"
proof (cases "Base64Url_decodeArray (parts ! 1)")
  case (Inl e)
  then have "decrypt_segments P st key parts = (Inl e, st, [])"
    by (simp add: decrypt_segments_def del: One_nat_def)
  then show ?thesis by (rule early) simp
next
  case ecek: (Inr ecek)
  show ?thesis
  proof (cases "decryptCek P st key ecek")
    case (Inl e)
    then have "decrypt_segments P st key parts = (Inl e, st, [])"
      by (simp add: decrypt_segments_def ecek del: One_nat_def)
    then show ?thesis by (rule early) simp
  next
    case (Inr pc)
    obtain cekp calls1 where pc: "pc = (cekp, calls1)" by (cases pc)
    have cek: "decryptCek P st key ecek = Inr (cekp, calls1)" using Inr pc by simp
    have nd: "list_all (\<lambda>c. \<not> is_Decrypt c) calls1" by (rule decryptCek_no_Decrypt [OF cek])
    show ?thesis
    proof (cases "Base64Url_decodeArray (parts ! 2)")
      case (Inl e)
      then have "decrypt_segments P st key parts = (Inl e, st, calls1)"
        by (simp add: decrypt_segments_def ecek cek del: One_nat_def)
      then show ?thesis using nd by (rule early)
    next
      case iv: (Inr iv)
      show ?thesis
      proof (cases "Base64Url_decodeArray (parts ! 3)")
        case (Inl e)
        then have "decrypt_segments P st key parts = (Inl e, st, calls1)"
          by (simp add: decrypt_segments_def ecek cek iv del: One_nat_def)
        then show ?thesis using nd by (rule early)
      next
        case ct: (Inr ct)
        show ?thesis
        proof (cases "Base64Url_decodeArray (parts ! 4)")
          case (Inl e)
          then have "decrypt_segments P st key parts = (Inl e, st, calls1)"
            by (simp add: decrypt_segments_def ecek cek iv ct del: One_nat_def)
          then show ?thesis using nd by (rule early)
        next
          case tag: (Inr tag)
          obtain r calls2 where
            dc: "decryptCiphertext P st cekp (arrayFromString (parts ! 0)) iv ct tag = (r, calls2)"
            by (cases "decryptCiphertext P st cekp (arrayFromString (parts ! 0)) iv ct tag")
          have "decrypt_segments P st key parts = (map_sum id stringFromArray r, st, calls1 @ calls2)"
            by (simp add: decrypt_segments_def ecek cek iv ct tag dc del: One_nat_def)
          then show ?thesis using ecek cek iv ct tag dc nd by (intro reached)
        qed
      qed
    qed
  qed
qed


lemma truthy_Some: "truthy v \<Longrightarrow> \<exists>x. v = Some x"
  by (cases v) (simp_all add: truthy_def)

lemma recognized_truthy:
  assumes "getCryptoConfig a = Inr c"
  shows "truthy (Some a)"
  using assms by (cases rule: getCryptoConfig_cases) (simp_all add: truthy_def)

lemma get_member_again:
  "get_member header k = Inr v \<Longrightarrow> get_member header k' \<noteq> Inl e"
  by (cases header) (simp_all add: get_member_def)

lemma decrypt_header_cases:
  obtains (early) e st calls where
      "decrypt_header P this key parts header = (Inl e, st, calls)"
      "list_all (\<lambda>c. \<not> is_Decrypt c) calls"
  | (accepted) alg enc ka ca where
      "get_member header ''alg'' = Inr (Some alg)" "getCryptoConfig alg = Inr ka"
      "get_member header ''enc'' = Inr (Some enc)" "getCryptoConfig enc = Inr ca"
      "decrypt_header P this key parts header =
         decrypt_segments P (this\<lparr>key_encryption := ka, content_encryption := ca\<rparr>) key parts"
proof (cases "get_member header ''alg''")
  case (Inl e)
  then have "decrypt_header P this key parts header = (Inl e, this, [])"
    by (simp add: decrypt_header_def)
  then show ?thesis by (rule early) simp
next
  case alg: (Inr alg)
  show ?thesis
  proof (cases "truthy alg")
    case False
    then have "decrypt_header P this key parts header = (Inl (Reject ''decrypt: missing alg''), this, [])"
      by (simp add: decrypt_header_def alg)
    then show ?thesis by (rule early) simp
  next
    case ta: True
    then obtain a where a: "alg = Some a" using truthy_Some by blast
    show ?thesis
    proof (cases "getCryptoConfig a")
      case (Inl e)
      then have "decrypt_header P this key parts header = (Inl e, this, [])"
        using ta by (simp add: decrypt_header_def alg a)
      then show ?thesis by (rule early) simp
    next
      case ka: (Inr ka)
      show ?thesis
      proof (cases "get_member header ''enc''")
        case (Inl e)
        then show ?thesis using get_member_again [OF alg] by blast
      next
        case enc: (Inr enc)
        show ?thesis
        proof (cases "truthy enc")
          case False
          then have "decrypt_header P this key parts header =
              (Inl (Reject ''decrypt: missing enc''), this\<lparr>key_encryption := ka\<rparr>, [])"
            using ta by (simp add: decrypt_header_def alg a ka enc)
          then show ?thesis by (rule early) simp
        next
          case te: True
          then obtain b where b: "enc = Some b" using truthy_Some by blast
          show ?thesis
          proof (cases "getCryptoConfig b")
            case (Inl e)
            then have "decrypt_header P this key parts header =
                (Inl e, this\<lparr>key_encryption := ka\<rparr>, [])"
              using ta te by (simp add: decrypt_header_def alg a ka enc b)
            then show ?thesis by (rule early) simp
          next
            case ca: (Inr ca)
            show ?thesis
            proof (cases "get_member header ''crit''")
              case (Inl e)
              then show ?thesis using get_member_again [OF alg] by blast
            next
              case crit: (Inr crit)
              show ?thesis
              proof (cases "truthy crit")
                case True
                then have "decrypt_header P this key parts header =
                    (Inl (Reject ''decrypt: crit is not supported''),
                     this\<lparr>key_encryption := ka, content_encryption := ca\<rparr>, [])"
                  using ta te by (simp add: decrypt_header_def alg a ka enc b ca crit)
                then show ?thesis by (rule early) simp
              next
                case False
                then have "decrypt_header P this key parts header =
                    decrypt_segments P (this\<lparr>key_encryption := ka, content_encryption := ca\<rparr>) key parts"
                  using ta te by (simp add: decrypt_header_def alg a ka enc b ca crit)
                then show ?thesis using alg a ka enc b ca by (intro accepted) simp_all
              qed
            qed
          qed
        qed
      qed
    qed
  qed
qed

lemma decrypt_cases:
  obtains (early) e st calls where
      "decrypt P this key s = (Inl e, st, calls)"
      "list_all (\<lambda>c. \<not> is_Decrypt c) calls"
  | (reached) jtext header alg enc ka ca ecek cekp calls1 iv ct tag r calls2 where
      "length (split_on CHR ''.'' s) = 5"
      "Base64Url_decode (split_on CHR ''.'' s ! 0) = Inr jtext"
      "JSON_parse P jtext = Some header"
      "get_member header ''alg'' = Inr (Some alg)" "getCryptoConfig alg = Inr ka"
      "get_member header ''enc'' = Inr (Some enc)" "getCryptoConfig enc = Inr ca"
      "Base64Url_decodeArray (split_on CHR ''.'' s ! 1) = Inr ecek"
      "decryptCek P (this\<lparr>key_encryption := ka, content_encryption := ca\<rparr>) key ecek
         = Inr (cekp, calls1)"
      "Base64Url_decodeArray (split_on CHR ''.'' s ! 2) = Inr iv"
      "Base64Url_decodeArray (split_on CHR ''.'' s ! 3) = Inr ct"
      "Base64Url_decodeArray (split_on CHR ''.'' s ! 4) = Inr tag"
      "decryptCiphertext P (this\<lparr>key_encryption := ka, content_encryption := ca\<rparr>) cekp
         (arrayFromString (split_on CHR ''.'' s ! 0)) iv ct tag = (r, calls2)"
      "decrypt P this key s =
         (map_sum id stringFromArray r, this\<lparr>key_encryption := ka, content_encryption := ca\<rparr>,
          calls1 @ calls2)"
      "list_all (\<lambda>c. \<not> is_Decrypt c) calls1"
proof (cases "length (split_on CHR ''.'' s) = 5")
  case False
  then have "decrypt P this key s = (Inl (Reject ''decrypt: invalid input''), this, [])"
    by (simp add: decrypt_def)
  then show ?thesis by (rule early) simp
next
  case len: True
  show ?thesis
  proof (cases "Base64Url_decode (split_on CHR ''.'' s ! 0)")
    case (Inl e)
    then have "decrypt P this key s = (Inl e, this, [])"
      using len by (simp add: decrypt_def)
    then show ?thesis by (rule early) simp
  next
    case jtext: (Inr jtext)
    show ?thesis
    proof (cases "JSON_parse P jtext")
      case None
      then have "decrypt P this key s = (Inl SyntaxError, this, [])"
        using len by (simp add: decrypt_def jtext)
      then show ?thesis by (rule early) simp
    next
      case header: (Some header)
      have d: "decrypt P this key s = decrypt_header P this key (split_on CHR ''.'' s) header"
        using len by (simp add: decrypt_def jtext header)
      show ?thesis
      proof (cases rule: decrypt_header_cases [of P this key "split_on CHR ''.'' s" header])
        case (early e st calls)
        then show ?thesis using d that(1) by simp
      next
        case (accepted alg enc ka ca)
        let ?st = "this\<lparr>key_encryption := ka, content_encryption := ca\<rparr>"
        show ?thesis
        proof (cases rule: decrypt_segments_cases [of P ?st key "split_on CHR ''.'' s"])
          case (early e calls)
          then show ?thesis using d accepted(5) that(1) by simp
        next
          case (reached ecek cekp calls1 iv ct tag r calls2)
          show ?thesis
            using len jtext header accepted(1-4) reached(1-6) _ reached(8)
          proof (rule that(2))
            show "decrypt P this key s = (map_sum id stringFromArray r, ?st, calls1 @ calls2)"
              using d accepted(5) reached(7) by simp
          qed
        qed
      qed
    qed
  qed
qed

section \<open>The compact codec: segments and header\<close>

lemma decrypt_segments_state: "fst (snd (decrypt_segments P st key parts)) = st"
  by (cases rule: decrypt_segments_cases [of P st key parts]) simp_all

text \<open>
  Claim C10. When the input has five segments and its header segment decodes to a JSON
  object whose \<open>alg\<close> and \<open>enc\<close> are identifiers of the registry, \<open>decrypt\<close> leaves
  the codec instance with the key-encryption and content-encryption records of the
  header, whatever the instance held before and however the call ends; in particular a
  call rejected for a \<open>crit\<close> member leaves the instance overwritten.
\<close>

theorem decrypt_overwrites_algorithms:
  assumes "length (split_on CHR ''.'' cipher_text) = 5"
    and "Base64Url_decode (split_on CHR ''.'' cipher_text ! 0) = Inr jtext"
    and "JSON_parse P jtext = Some header"
    and "get_member header ''alg'' = Inr (Some alg)" and "getCryptoConfig alg = Inr ka"
    and "get_member header ''enc'' = Inr (Some enc)" and "getCryptoConfig enc = Inr ca"
  shows "fst (snd (decrypt P this key_promise cipher_text))
           = this\<lparr>key_encryption := ka, content_encryption := ca\<rparr>
       \<and> (\<forall>crit. get_member header ''crit'' = Inr crit \<and> truthy crit \<longrightarrow>
              decrypt P this key_promise cipher_text =
                (Inl (Reject ''decrypt: crit is not supported''),
                 this\<lparr>key_encryption := ka, content_encryption := ca\<rparr>, []))"
proof -
  let ?parts = "split_on CHR ''.'' cipher_text"
  let ?st = "this\<lparr>key_encryption := ka, content_encryption := ca\<rparr>"
  have d: "decrypt P this key_promise cipher_text = decrypt_header P this key_promise ?parts header"
    using assms(1) by (simp add: decrypt_def assms(2,3))
  have ta: "truthy (Some alg)" by (rule recognized_truthy [OF assms(5)])
  have te: "truthy (Some enc)" by (rule recognized_truthy [OF assms(7)])
  obtain crit where crit: "get_member header ''crit'' = Inr crit"
    using get_member_again [OF assms(4), of "''crit''"] by (cases "get_member header ''crit''") auto
  have h: "decrypt_header P this key_promise ?parts header =
      (if truthy crit then (Inl (Reject ''decrypt: crit is not supported''), ?st, [])
       else decrypt_segments P ?st key_promise ?parts)"
    using ta te by (simp add: decrypt_header_def assms(4-7) crit)
  have "fst (snd (decrypt P this key_promise cipher_text)) = ?st"
    unfolding d h by (simp add: decrypt_segments_state)
  moreover have "\<forall>c. get_member header ''crit'' = Inr c \<and> truthy c \<longrightarrow>
              decrypt P this key_promise cipher_text =
                (Inl (Reject ''decrypt: crit is not supported''), ?st, [])"
    unfolding d h using crit by simp
  ultimately show ?thesis by blast
qed

lemma length_split_on: "length (split_on d s) = Suc (count_list s d)"
  by (induction s) (auto split: list.split)

lemma decodeArray_empty: "Base64Url_decodeArray [] = Inr []"
  by (simp add: Base64Url_decodeArray_def Base64Url_decode_def atob_def replace_all_def
      remove_padding_def arrayFromString_def)

lemma registry_iv_bytes:
  assumes "getCryptoConfig enc = Inr ca"
  shows "iv_bytes ca \<noteq> Some 0"
  using assms by (cases rule: getCryptoConfig_cases [OF assms]) (auto simp: getCryptoConfig_def)

text \<open>
  Claim C3, as amended. \<open>decrypt\<close> splits its input at every \<open>.\<close> (one segment more
  than there are dots) and, when that does not give exactly five segments, rejects with
  "decrypt: invalid input", a malformed input, leaving the instance as it was and
  calling no operation of the provider. It has no check of its own for empty segments;
  an input with five segments whose IV segment is empty always fails, and no content
  decryption is called for it.
\<close>

theorem decrypt_segment_count:
  "(length (split_on CHR ''.'' s) \<noteq> 5 \<longrightarrow>
      decrypt P this key s = (Inl (Reject ''decrypt: invalid input''), this, [])
      \<and> error_kind_of (Reject ''decrypt: invalid input'') = MalformedInput)
   \<and> length (split_on CHR ''.'' s) = Suc (count_list s CHR ''.'')
   \<and> (length (split_on CHR ''.'' s) = 5 \<and> split_on CHR ''.'' s ! 2 = [] \<longrightarrow>
      isl (fst (decrypt P this key s))
      \<and> list_all (\<lambda>c. \<not> is_Decrypt c) (snd (snd (decrypt P this key s))))"
proof (intro conjI impI)
  assume "length (split_on CHR ''.'' s) \<noteq> 5"
  then show "decrypt P this key s = (Inl (Reject ''decrypt: invalid input''), this, [])"
    by (simp add: decrypt_def)
next
  show "error_kind_of (Reject ''decrypt: invalid input'') = MalformedInput"
    by (simp add: error_kind_of_def)
next
  show "length (split_on CHR ''.'' s) = Suc (count_list s CHR ''.'')"
    by (rule length_split_on)
next
  assume a: "length (split_on CHR ''.'' s) = 5 \<and> split_on CHR ''.'' s ! 2 = []"
  have "isl (fst (decrypt P this key s))
      \<and> list_all (\<lambda>c. \<not> is_Decrypt c) (snd (snd (decrypt P this key s)))"
  proof (cases rule: decrypt_cases [of P this key s])
    case (early e st calls)
    then show ?thesis by simp
  next
    case (reached jtext header alg enc ka ca ecek cekp calls1 iv ct tag r calls2)
    have "iv = []" using reached(10) a by (simp add: decodeArray_empty)
    moreover have "iv_bytes ca \<noteq> Some 0" by (rule registry_iv_bytes [OF reached(7)])
    ultimately have "(r, calls2) = (Inl (Reject ''decryptCiphertext: invalid IV''), [])"
      using reached(13) by (simp add: decryptCiphertext_def)
    then show ?thesis using reached(14,15) by simp
  qed
  then show "isl (fst (decrypt P this key s))"
    and "list_all (\<lambda>c. \<not> is_Decrypt c) (snd (snd (decrypt P this key s)))" by simp_all
qed


lemmas b64_eval =
  Base64Url_decodeArray_def Base64Url_decode_def atob_def replace_all_def remove_padding_def
  ascii_whitespace_def b64_index_def b64_alphabet_def Let_def char_of_eq_iff arrayFromString_def

lemma ex_header_gcm:
  "Base64Url_decode ''eyJhbGciOiJSU0EtT0FFUCIsImVuYyI6IkEyNTZHQ00ifQ''
     = Inr ''{\"alg\":\"RSA-OAEP\",\"enc\":\"A256GCM\"}''"
  by (simp add: b64_eval)

lemma ex_header_cbc:
  "Base64Url_decode ''eyJhbGciOiJBMTI4S1ciLCJlbmMiOiJBMTI4Q0JDLUhTMjU2In0''
     = Inr ''{\"alg\":\"A128KW\",\"enc\":\"A128CBC-HS256\"}''"
  by (simp add: b64_eval)

lemma ex_header_crit:
  "Base64Url_decode ''eyJhbGciOiJSU0EtT0FFUCIsImVuYyI6IkEyNTZHQ00iLCJjcml0IjpbImV4cCJdfQ''
     = Inr ''{\"alg\":\"RSA-OAEP\",\"enc\":\"A256GCM\",\"crit\":[\"exp\"]}''"
  by (simp add: b64_eval)

lemma ex_segments:
  "Base64Url_decodeArray ''AQID'' = Inr [1, 2, 3]"
  "Base64Url_decodeArray ''BwcHBwcHBwcHBwcH'' = Inr [7, 7, 7, 7, 7, 7, 7, 7, 7, 7, 7, 7]"
  "Base64Url_decodeArray ''r6-vr6-vr6-vr6-vr6-vrw''
     = Inr [175, 175, 175, 175, 175, 175, 175, 175, 175, 175, 175, 175, 175, 175, 175, 175]"
  "Base64Url_decodeArray ''AQEBAQEBAQEBAQEBAQEBAQICAgICAgICAgICAgICAgI''
     = Inr [1, 1, 1, 1, 1, 1, 1, 1, 1, 1, 1, 1, 1, 1, 1, 1, 2, 2, 2, 2, 2, 2, 2, 2, 2, 2, 2, 2, 2, 2, 2, 2]"
  "Base64Url_decodeArray ''BwcHBwcHBwcHBwcHBwcHBw''
     = Inr [7, 7, 7, 7, 7, 7, 7, 7, 7, 7, 7, 7, 7, 7, 7, 7]"
  "Base64Url_decodeArray ''aGVsbG8'' = Inr [104, 101, 108, 108, 111]"
  "Base64Url_decodeArray ''oaGhoaGhoaGhoaGhoaGhoQ''
     = Inr [161, 161, 161, 161, 161, 161, 161, 161, 161, 161, 161, 161, 161, 161, 161, 161]"
  "Base64Url_decodeArray ''oaGhoaGhoaGhoaGhoaGhoA''
     = Inr [161, 161, 161, 161, 161, 161, 161, 161, 161, 161, 161, 161, 161, 161, 161, 160]"
  by (simp_all add: b64_eval)

lemma ex_configs:
  "getCryptoConfig (JStr ''RSA-OAEP'') = Inr rsa_oaep_config"
  "getCryptoConfig (JStr ''A256GCM'') = Inr a256gcm_config"
  "getCryptoConfig (JStr ''A128KW'') = Inr a128kw_config"
  "getCryptoConfig (JStr ''A128CBC-HS256'') = Inr a128cbc_config"
  by (simp_all add: getCryptoConfig_def rsa_oaep_config_def a256gcm_config_def a128kw_config_def
      a128cbc_config_def)

lemma ex_parse:
  "JSON_parse toy_platform ''{\"alg\":\"RSA-OAEP\",\"enc\":\"A256GCM\"}''
     = Some (JObj [(''alg'', JStr ''RSA-OAEP''), (''enc'', JStr ''A256GCM'')])"
  "JSON_parse toy_platform ''{\"alg\":\"A128KW\",\"enc\":\"A128CBC-HS256\"}''
     = Some (JObj [(''alg'', JStr ''A128KW''), (''enc'', JStr ''A128CBC-HS256'')])"
  "JSON_parse toy_platform ''{\"alg\":\"RSA-OAEP\",\"enc\":\"A256GCM\",\"crit\":[\"exp\"]}''
     = Some (JObj [(''alg'', JStr ''RSA-OAEP''), (''enc'', JStr ''A256GCM''),
                   (''crit'', JArr [JStr ''exp''])])"
  by (simp_all add: toy_platform_def toy_JSON_parse_def)

lemma replicate_16: "replicate 16 x = [x, x, x, x, x, x, x, x, x, x, x, x, x, x, x, x]"
  by (simp add: numeral_eq_Suc)

lemma ex_split_gcm_empty:
  "split_on CHR ''.''
     ''eyJhbGciOiJSU0EtT0FFUCIsImVuYyI6IkEyNTZHQ00ifQ.AQID.BwcHBwcHBwcHBwcH..r6-vr6-vr6-vr6-vr6-vrw''
   = [''eyJhbGciOiJSU0EtT0FFUCIsImVuYyI6IkEyNTZHQ00ifQ'', ''AQID'', ''BwcHBwcHBwcHBwcH'', [],
      ''r6-vr6-vr6-vr6-vr6-vrw'']"
  by simp

text \<open>
  The claim C3 as stated fails for an empty segment: the input below has five
  segments, the fourth (the cipher text) empty, as \<open>encrypt\<close> produces for the empty
  plain text under \<open>A256GCM\<close>; with a provider that accepts the tag, \<open>decrypt\<close>
  returns the empty plain text.
\<close>

theorem decrypt_empty_segment_counterexample:
  "split_on CHR ''.''
     ''eyJhbGciOiJSU0EtT0FFUCIsImVuYyI6IkEyNTZHQ00ifQ.AQID.BwcHBwcHBwcHBwcH..r6-vr6-vr6-vr6-vr6-vrw''
   = [''eyJhbGciOiJSU0EtT0FFUCIsImVuYyI6IkEyNTZHQ00ifQ'', ''AQID'', ''BwcHBwcHBwcHBwcH'', [],
      ''r6-vr6-vr6-vr6-vr6-vrw'']
   \<and> fst (decrypt toy_platform new_jose (Inr [9])
     ''eyJhbGciOiJSU0EtT0FFUCIsImVuYyI6IkEyNTZHQ00ifQ.AQID.BwcHBwcHBwcHBwcH..r6-vr6-vr6-vr6-vr6-vrw'')
     = Inr []"
proof -
  have "sum_list (arrayFromString ''eyJhbGciOiJSU0EtT0FFUCIsImVuYyI6IkEyNTZHQ00ifQ'') = 85"
    by (simp add: arrayFromString_def)
  then have "fst (decrypt toy_platform new_jose (Inr [9])
     ''eyJhbGciOiJSU0EtT0FFUCIsImVuYyI6IkEyNTZHQ00ifQ.AQID.BwcHBwcHBwcHBwcH..r6-vr6-vr6-vr6-vr6-vrw'')
     = Inr []"
    unfolding decrypt_def ex_split_gcm_empty Let_def
    by (simp add: ex_header_gcm ex_parse decrypt_header_def get_member_def truthy_def ex_configs
        decrypt_segments_def ex_segments decodeArray_empty decryptCek_def getCekWorkaround_def
        new_jose_def a256gcm_config_def rsa_oaep_config_def decryptCiphertext_def
        arrayBufferConcat_eq settle_def stringFromArray_def toy_platform_def toy_decrypt_def
        toy_JSON_parse_def replicate_16
        del: One_nat_def)
  then show ?thesis using ex_split_gcm_empty by simp
qed


theorem decrypt_segment_count_witness:
  "decrypt toy_platform new_jose (Inr [9]) ''a.b.c.d'' =
     (Inl (Reject ''decrypt: invalid input''), new_jose, [])
   \<and> decrypt toy_platform new_jose (Inr [9]) ''a.b.c.d.e.f'' =
     (Inl (Reject ''decrypt: invalid input''), new_jose, [])
   \<and> isl (fst (decrypt toy_platform new_jose (Inr [9])
       ''eyJhbGciOiJSU0EtT0FFUCIsImVuYyI6IkEyNTZHQ00ifQ.AQID..aGVsbG8.r6-vr6-vr6-vr6-vr6-vrw''))"
  using decrypt_segment_count [of "''a.b.c.d''" toy_platform new_jose "Inr [9]"]
        decrypt_segment_count [of "''a.b.c.d.e.f''" toy_platform new_jose "Inr [9]"]
        decrypt_segment_count [of
          "''eyJhbGciOiJSU0EtT0FFUCIsImVuYyI6IkEyNTZHQ00ifQ.AQID..aGVsbG8.r6-vr6-vr6-vr6-vr6-vrw''"
          toy_platform new_jose "Inr [9]"]
  by simp

lemma sum_header_cbc:
  "sum_list (arrayFromString ''eyJhbGciOiJBMTI4S1ciLCJlbmMiOiJBMTI4Q0JDLUhTMjU2In0'') = 116"
  by (simp add: arrayFromString_def)

lemma length_header_cbc:
  "length (arrayFromString ''eyJhbGciOiJBMTI4S1ciLCJlbmMiOiJBMTI4Q0JDLUhTMjU2In0'') = 51"
  by (simp add: arrayFromString_def)

lemma ex_keys_and_mac:
  "keys_and_mac toy_platform a128cbc_config
     (Inr [1, 1, 1, 1, 1, 1, 1, 1, 1, 1, 1, 1, 1, 1, 1, 1, 2, 2, 2, 2, 2, 2, 2, 2, 2, 2, 2, 2, 2, 2, 2, 2])
     (arrayFromString ''eyJhbGciOiJBMTI4S1ciLCJlbmMiOiJBMTI4Q0JDLUhTMjU2In0'')
     [7, 7, 7, 7, 7, 7, 7, 7, 7, 7, 7, 7, 7, 7, 7, 7] [104, 101, 108, 108, 111]
   = (Inr ([2, 2, 2, 2, 2, 2, 2, 2, 2, 2, 2, 2, 2, 2, 2, 2],
           [161, 161, 161, 161, 161, 161, 161, 161, 161, 161, 161, 161, 161, 161, 161, 161]),
      [ExportKey [1, 1, 1, 1, 1, 1, 1, 1, 1, 1, 1, 1, 1, 1, 1, 1, 2, 2, 2, 2, 2, 2, 2, 2, 2, 2, 2, 2, 2, 2, 2, 2],
       ImportKey [1, 1, 1, 1, 1, 1, 1, 1, 1, 1, 1, 1, 1, 1, 1, 1] (hash_id ''HMAC'' ''SHA-256'') False [''sign''],
       ImportKey [2, 2, 2, 2, 2, 2, 2, 2, 2, 2, 2, 2, 2, 2, 2, 2] (length_id ''AES-CBC'' 128) False [''decrypt''],
       Sign (hash_id ''HMAC'' ''SHA-256'') [1, 1, 1, 1, 1, 1, 1, 1, 1, 1, 1, 1, 1, 1, 1, 1]
         (arrayFromString ''eyJhbGciOiJBMTI4S1ciLCJlbmMiOiJBMTI4Q0JDLUhTMjU2In0''
          @ [7, 7, 7, 7, 7, 7, 7, 7, 7, 7, 7, 7, 7, 7, 7, 7] @ [104, 101, 108, 108, 111]
          @ AL (arrayFromString ''eyJhbGciOiJBMTI4S1ciLCJlbmMiOiJBMTI4Q0JDLUhTMjU2In0''))])"
proof -
  have al: "AL (arrayFromString ''eyJhbGciOiJBMTI4S1ciLCJlbmMiOiJBMTI4Q0JDLUhTMjU2In0'')
              = [0, 0, 0, 0, 0, 0, 1, 152]"
    unfolding AL_def length_header_cbc by simp
  have sg: "toy_sign [1, 1, 1, 1, 1, 1, 1, 1, 1, 1, 1, 1, 1, 1, 1, 1]
         (arrayFromString ''eyJhbGciOiJBMTI4S1ciLCJlbmMiOiJBMTI4Q0JDLUhTMjU2In0''
          @ [7, 7, 7, 7, 7, 7, 7, 7, 7, 7, 7, 7, 7, 7, 7, 7] @ [104, 101, 108, 108, 111]
          @ [0, 0, 0, 0, 0, 0, 1, 152]) = replicate 64 161"
    by (simp add: toy_sign_def sum_header_cbc)
  show ?thesis
    unfolding keys_and_mac_def splitKey_def truncatedMac_eq al
    by (simp add: toy_platform_def a128cbc_config_def length_id_def hash_id_def settle_def
        promise_all_def toy_sign_def sum_header_cbc replicate_16)
qed


lemma decrypt_reached:
  assumes "split_on CHR ''.'' s = [h, e, i, c, t]"
    and "Base64Url_decode h = Inr jtext" and "JSON_parse P jtext = Some header"
    and "get_member header ''alg'' = Inr (Some alg)" and "getCryptoConfig alg = Inr ka"
    and "get_member header ''enc'' = Inr (Some enc)" and "getCryptoConfig enc = Inr ca"
    and "get_member header ''crit'' = Inr crit" and "\<not> truthy crit"
    and "Base64Url_decodeArray e = Inr ecek"
    and "decryptCek P (this\<lparr>key_encryption := ka, content_encryption := ca\<rparr>) key ecek
           = Inr (cekp, calls1)"
    and "Base64Url_decodeArray i = Inr iv" and "Base64Url_decodeArray c = Inr ct"
    and "Base64Url_decodeArray t = Inr tag"
    and "decryptCiphertext P (this\<lparr>key_encryption := ka, content_encryption := ca\<rparr>) cekp
           (arrayFromString h) iv ct tag = (r, calls2)"
  shows "decrypt P this key s =
           (map_sum id stringFromArray r, this\<lparr>key_encryption := ka, content_encryption := ca\<rparr>,
            calls1 @ calls2)"
proof -
  let ?st = "this\<lparr>key_encryption := ka, content_encryption := ca\<rparr>"
  have ta: "truthy (Some alg)" by (rule recognized_truthy [OF assms(5)])
  have te: "truthy (Some enc)" by (rule recognized_truthy [OF assms(7)])
  have "decrypt P this key s = decrypt_header P this key [h, e, i, c, t] header"
    by (simp add: decrypt_def assms(1,2,3))
  also have "\<dots> = decrypt_segments P ?st key [h, e, i, c, t]"
    using ta te assms(9) by (simp add: decrypt_header_def assms(4-8))
  also have "\<dots> = (map_sum id stringFromArray r, ?st, calls1 @ calls2)"
    by (simp add: decrypt_segments_def assms(10-15))
  finally show ?thesis .
qed


lemma ex_auth_cbc:
  "auth (content_encryption kw_cbc_jose) = Some (Mac 16 (hash_id ''HMAC'' ''SHA-256'') 16)"
  by (simp add: kw_cbc_jose_def a128cbc_config_def)

lemma ex_ciphertext_valid:
  "decryptCiphertext toy_platform kw_cbc_jose (Inr [1, 1, 1, 1, 1, 1, 1, 1, 1, 1, 1, 1, 1, 1, 1, 1, 2, 2, 2, 2, 2, 2, 2, 2, 2, 2, 2, 2, 2, 2, 2, 2])
     (arrayFromString ''eyJhbGciOiJBMTI4S1ciLCJlbmMiOiJBMTI4Q0JDLUhTMjU2In0'') [7, 7, 7, 7, 7, 7, 7, 7, 7, 7, 7, 7, 7, 7, 7, 7] [104, 101, 108, 108, 111] [161, 161, 161, 161, 161, 161, 161, 161, 161, 161, 161, 161, 161, 161, 161, 161]
   = (Inr [104, 101, 108, 108, 111],
      [ExportKey [1, 1, 1, 1, 1, 1, 1, 1, 1, 1, 1, 1, 1, 1, 1, 1, 2, 2, 2, 2, 2, 2, 2, 2, 2, 2, 2, 2, 2, 2, 2, 2],
       ImportKey [1, 1, 1, 1, 1, 1, 1, 1, 1, 1, 1, 1, 1, 1, 1, 1] (hash_id ''HMAC'' ''SHA-256'') False [''sign''],
       ImportKey [2, 2, 2, 2, 2, 2, 2, 2, 2, 2, 2, 2, 2, 2, 2, 2] (length_id ''AES-CBC'' 128) False [''decrypt''],
       Sign (hash_id ''HMAC'' ''SHA-256'') [1, 1, 1, 1, 1, 1, 1, 1, 1, 1, 1, 1, 1, 1, 1, 1]
         (arrayFromString ''eyJhbGciOiJBMTI4S1ciLCJlbmMiOiJBMTI4Q0JDLUhTMjU2In0'' @ [7, 7, 7, 7, 7, 7, 7, 7, 7, 7, 7, 7, 7, 7, 7, 7] @ [104, 101, 108, 108, 111] @ AL (arrayFromString ''eyJhbGciOiJBMTI4S1ciLCJlbmMiOiJBMTI4Q0JDLUhTMjU2In0''))]
      @ [Decrypt (cbc_params a128cbc_config [7, 7, 7, 7, 7, 7, 7, 7, 7, 7, 7, 7, 7, 7, 7, 7]) [2, 2, 2, 2, 2, 2, 2, 2, 2, 2, 2, 2, 2, 2, 2, 2] [104, 101, 108, 108, 111]])"
  unfolding decryptCiphertext_composite [OF ex_auth_cbc]
  by (simp add: kw_cbc_jose_def ex_keys_and_mac)
     (simp add: a128cbc_config_def toy_platform_def toy_decrypt_def cbc_params_def settle_def)

lemma ex_ciphertext_tampered:
  "decryptCiphertext toy_platform kw_cbc_jose (Inr [1, 1, 1, 1, 1, 1, 1, 1, 1, 1, 1, 1, 1, 1, 1, 1, 2, 2, 2, 2, 2, 2, 2, 2, 2, 2, 2, 2, 2, 2, 2, 2])
     (arrayFromString ''eyJhbGciOiJBMTI4S1ciLCJlbmMiOiJBMTI4Q0JDLUhTMjU2In0'') [7, 7, 7, 7, 7, 7, 7, 7, 7, 7, 7, 7, 7, 7, 7, 7] [104, 101, 108, 108, 111] [161, 161, 161, 161, 161, 161, 161, 161, 161, 161, 161, 161, 161, 161, 161, 160]
   = (Inl (Reject ''decryptCiphertext: MAC failed.''),
      [ExportKey [1, 1, 1, 1, 1, 1, 1, 1, 1, 1, 1, 1, 1, 1, 1, 1, 2, 2, 2, 2, 2, 2, 2, 2, 2, 2, 2, 2, 2, 2, 2, 2],
       ImportKey [1, 1, 1, 1, 1, 1, 1, 1, 1, 1, 1, 1, 1, 1, 1, 1] (hash_id ''HMAC'' ''SHA-256'') False [''sign''],
       ImportKey [2, 2, 2, 2, 2, 2, 2, 2, 2, 2, 2, 2, 2, 2, 2, 2] (length_id ''AES-CBC'' 128) False [''decrypt''],
       Sign (hash_id ''HMAC'' ''SHA-256'') [1, 1, 1, 1, 1, 1, 1, 1, 1, 1, 1, 1, 1, 1, 1, 1]
         (arrayFromString ''eyJhbGciOiJBMTI4S1ciLCJlbmMiOiJBMTI4Q0JDLUhTMjU2In0'' @ [7, 7, 7, 7, 7, 7, 7, 7, 7, 7, 7, 7, 7, 7, 7, 7] @ [104, 101, 108, 108, 111] @ AL (arrayFromString ''eyJhbGciOiJBMTI4S1ciLCJlbmMiOiJBMTI4Q0JDLUhTMjU2In0''))])"
  unfolding decryptCiphertext_composite [OF ex_auth_cbc]
  by (simp add: kw_cbc_jose_def ex_keys_and_mac) (simp add: a128cbc_config_def)

lemma ex_decryptCek:
  "decryptCek toy_platform kw_cbc_jose (Inr [9]) [1, 1, 1, 1, 1, 1, 1, 1, 1, 1, 1, 1, 1, 1, 1, 1, 2, 2, 2, 2, 2, 2, 2, 2, 2, 2, 2, 2, 2, 2, 2, 2]
   = Inr (Inr [1, 1, 1, 1, 1, 1, 1, 1, 1, 1, 1, 1, 1, 1, 1, 1, 2, 2, 2, 2, 2, 2, 2, 2, 2, 2, 2, 2, 2, 2, 2, 2], [UnwrapKey [1, 1, 1, 1, 1, 1, 1, 1, 1, 1, 1, 1, 1, 1, 1, 1, 2, 2, 2, 2, 2, 2, 2, 2, 2, 2, 2, 2, 2, 2, 2, 2] [9] (length_id ''AES-KW'' 128) (length_id ''AES-CBC'' 256) True [''decrypt'']])"
  by (simp add: decryptCek_def getCekWorkaround_def kw_cbc_jose_def a128cbc_config_def
      a128kw_config_def toy_platform_def settle_def)

lemma ex_members:
  "get_member (JObj [(''alg'', JStr ''A128KW''), (''enc'', JStr ''A128CBC-HS256'')]) ''alg''
     = Inr (Some (JStr ''A128KW''))"
  "get_member (JObj [(''alg'', JStr ''A128KW''), (''enc'', JStr ''A128CBC-HS256'')]) ''enc''
     = Inr (Some (JStr ''A128CBC-HS256''))"
  "get_member (JObj [(''alg'', JStr ''A128KW''), (''enc'', JStr ''A128CBC-HS256'')]) ''crit''
     = Inr None"
  "get_member (JObj [(''alg'', JStr ''RSA-OAEP''), (''enc'', JStr ''A256GCM''),
                     (''crit'', JArr [JStr ''exp''])]) ''alg'' = Inr (Some (JStr ''RSA-OAEP''))"
  "get_member (JObj [(''alg'', JStr ''RSA-OAEP''), (''enc'', JStr ''A256GCM''),
                     (''crit'', JArr [JStr ''exp''])]) ''enc'' = Inr (Some (JStr ''A256GCM''))"
  "get_member (JObj [(''alg'', JStr ''RSA-OAEP''), (''enc'', JStr ''A256GCM''),
                     (''crit'', JArr [JStr ''exp''])]) ''crit'' = Inr (Some (JArr [JStr ''exp'']))"
  by (simp_all add: get_member_def)

lemma ex_states:
  "new_jose\<lparr>key_encryption := a128kw_config, content_encryption := a128cbc_config\<rparr> = kw_cbc_jose"
  "kw_cbc_jose\<lparr>key_encryption := rsa_oaep_config, content_encryption := a256gcm_config\<rparr> = new_jose"
  by (simp_all add: new_jose_def kw_cbc_jose_def)

lemma ex_split_cbc:
  "split_on CHR ''.'' ''eyJhbGciOiJBMTI4S1ciLCJlbmMiOiJBMTI4Q0JDLUhTMjU2In0.AQEBAQEBAQEBAQEBAQEBAQICAgICAgICAgICAgICAgI.BwcHBwcHBwcHBwcHBwcHBw.aGVsbG8.oaGhoaGhoaGhoaGhoaGhoQ''
   = [''eyJhbGciOiJBMTI4S1ciLCJlbmMiOiJBMTI4Q0JDLUhTMjU2In0'', ''AQEBAQEBAQEBAQEBAQEBAQICAgICAgICAgICAgICAgI'', ''BwcHBwcHBwcHBwcHBwcHBw'', ''aGVsbG8'',
      ''oaGhoaGhoaGhoaGhoaGhoQ'']"
  "split_on CHR ''.'' ''eyJhbGciOiJBMTI4S1ciLCJlbmMiOiJBMTI4Q0JDLUhTMjU2In0.AQEBAQEBAQEBAQEBAQEBAQICAgICAgICAgICAgICAgI.BwcHBwcHBwcHBwcHBwcHBw.aGVsbG8.oaGhoaGhoaGhoaGhoaGhoA''
   = [''eyJhbGciOiJBMTI4S1ciLCJlbmMiOiJBMTI4Q0JDLUhTMjU2In0'', ''AQEBAQEBAQEBAQEBAQEBAQICAgICAgICAgICAgICAgI'', ''BwcHBwcHBwcHBwcHBwcHBw'', ''aGVsbG8'',
      ''oaGhoaGhoaGhoaGhoaGhoA'']"
  by simp_all

lemma ex_decrypt_valid:
  "decrypt toy_platform new_jose (Inr [9]) ''eyJhbGciOiJBMTI4S1ciLCJlbmMiOiJBMTI4Q0JDLUhTMjU2In0.AQEBAQEBAQEBAQEBAQEBAQICAgICAgICAgICAgICAgI.BwcHBwcHBwcHBwcHBwcHBw.aGVsbG8.oaGhoaGhoaGhoaGhoaGhoQ''
   = (Inr ''hello'', kw_cbc_jose,
      UnwrapKey [1, 1, 1, 1, 1, 1, 1, 1, 1, 1, 1, 1, 1, 1, 1, 1, 2, 2, 2, 2, 2, 2, 2, 2, 2, 2, 2, 2, 2, 2, 2, 2] [9] (length_id ''AES-KW'' 128) (length_id ''AES-CBC'' 256) True [''decrypt''] #
      [ExportKey [1, 1, 1, 1, 1, 1, 1, 1, 1, 1, 1, 1, 1, 1, 1, 1, 2, 2, 2, 2, 2, 2, 2, 2, 2, 2, 2, 2, 2, 2, 2, 2],
       ImportKey [1, 1, 1, 1, 1, 1, 1, 1, 1, 1, 1, 1, 1, 1, 1, 1] (hash_id ''HMAC'' ''SHA-256'') False [''sign''],
       ImportKey [2, 2, 2, 2, 2, 2, 2, 2, 2, 2, 2, 2, 2, 2, 2, 2] (length_id ''AES-CBC'' 128) False [''decrypt''],
       Sign (hash_id ''HMAC'' ''SHA-256'') [1, 1, 1, 1, 1, 1, 1, 1, 1, 1, 1, 1, 1, 1, 1, 1]
         (arrayFromString ''eyJhbGciOiJBMTI4S1ciLCJlbmMiOiJBMTI4Q0JDLUhTMjU2In0'' @ [7, 7, 7, 7, 7, 7, 7, 7, 7, 7, 7, 7, 7, 7, 7, 7] @ [104, 101, 108, 108, 111] @ AL (arrayFromString ''eyJhbGciOiJBMTI4S1ciLCJlbmMiOiJBMTI4Q0JDLUhTMjU2In0''))]
      @ [Decrypt (cbc_params a128cbc_config [7, 7, 7, 7, 7, 7, 7, 7, 7, 7, 7, 7, 7, 7, 7, 7]) [2, 2, 2, 2, 2, 2, 2, 2, 2, 2, 2, 2, 2, 2, 2, 2] [104, 101, 108, 108, 111]])"
proof -
  have nt: "\<not> truthy None" by (simp add: truthy_def)
  have "stringFromArray [104, 101, 108, 108, 111] = ''hello''"
    by (simp add: stringFromArray_def char_of_eq_iff)
  then show ?thesis
    using decrypt_reached [where this = new_jose and key = "Inr [9]", OF ex_split_cbc(1) ex_header_cbc
        ex_parse(2) ex_members(1) ex_configs(3) ex_members(2) ex_configs(4) ex_members(3) nt
        ex_segments(4) _ ex_segments(5) ex_segments(6) ex_segments(7)]
        ex_decryptCek ex_ciphertext_valid
    by (simp add: ex_states)
qed

lemma ex_decrypt_tampered:
  "decrypt toy_platform new_jose (Inr [9]) ''eyJhbGciOiJBMTI4S1ciLCJlbmMiOiJBMTI4Q0JDLUhTMjU2In0.AQEBAQEBAQEBAQEBAQEBAQICAgICAgICAgICAgICAgI.BwcHBwcHBwcHBwcHBwcHBw.aGVsbG8.oaGhoaGhoaGhoaGhoaGhoA''
   = (Inl (Reject ''decryptCiphertext: MAC failed.''), kw_cbc_jose,
      UnwrapKey [1, 1, 1, 1, 1, 1, 1, 1, 1, 1, 1, 1, 1, 1, 1, 1, 2, 2, 2, 2, 2, 2, 2, 2, 2, 2, 2, 2, 2, 2, 2, 2] [9] (length_id ''AES-KW'' 128) (length_id ''AES-CBC'' 256) True [''decrypt''] #
      [ExportKey [1, 1, 1, 1, 1, 1, 1, 1, 1, 1, 1, 1, 1, 1, 1, 1, 2, 2, 2, 2, 2, 2, 2, 2, 2, 2, 2, 2, 2, 2, 2, 2],
       ImportKey [1, 1, 1, 1, 1, 1, 1, 1, 1, 1, 1, 1, 1, 1, 1, 1] (hash_id ''HMAC'' ''SHA-256'') False [''sign''],
       ImportKey [2, 2, 2, 2, 2, 2, 2, 2, 2, 2, 2, 2, 2, 2, 2, 2] (length_id ''AES-CBC'' 128) False [''decrypt''],
       Sign (hash_id ''HMAC'' ''SHA-256'') [1, 1, 1, 1, 1, 1, 1, 1, 1, 1, 1, 1, 1, 1, 1, 1]
         (arrayFromString ''eyJhbGciOiJBMTI4S1ciLCJlbmMiOiJBMTI4Q0JDLUhTMjU2In0'' @ [7, 7, 7, 7, 7, 7, 7, 7, 7, 7, 7, 7, 7, 7, 7, 7] @ [104, 101, 108, 108, 111] @ AL (arrayFromString ''eyJhbGciOiJBMTI4S1ciLCJlbmMiOiJBMTI4Q0JDLUhTMjU2In0''))])"
proof -
  have nt: "\<not> truthy None" by (simp add: truthy_def)
  show ?thesis
    using decrypt_reached [where this = new_jose and key = "Inr [9]", OF ex_split_cbc(2) ex_header_cbc
        ex_parse(2) ex_members(1) ex_configs(3) ex_members(2) ex_configs(4) ex_members(3) nt
        ex_segments(4) _ ex_segments(5) ex_segments(6) ex_segments(8)]
        ex_decryptCek ex_ciphertext_tampered
    by (simp add: ex_states)
qed

theorem decrypt_overwrites_algorithms_witness:
  "decrypt toy_platform kw_cbc_jose (Inr [9]) ''eyJhbGciOiJSU0EtT0FFUCIsImVuYyI6IkEyNTZHQ00iLCJjcml0IjpbImV4cCJdfQ.AQID.BwcHBwcHBwcHBwcH.aGVsbG8.r6-vr6-vr6-vr6-vr6-vrw''
     = (Inl (Reject ''decrypt: crit is not supported''), new_jose, [])
   \<and> decrypt toy_platform new_jose (Inr [9]) ''eyJhbGciOiJBMTI4S1ciLCJlbmMiOiJBMTI4Q0JDLUhTMjU2In0.AQEBAQEBAQEBAQEBAQEBAQICAgICAgICAgICAgICAgI.BwcHBwcHBwcHBwcHBwcHBw.aGVsbG8.oaGhoaGhoaGhoaGhoaGhoA''
     = (Inl (Reject ''decryptCiphertext: MAC failed.''), kw_cbc_jose,
      UnwrapKey [1, 1, 1, 1, 1, 1, 1, 1, 1, 1, 1, 1, 1, 1, 1, 1, 2, 2, 2, 2, 2, 2, 2, 2, 2, 2, 2, 2, 2, 2, 2, 2] [9] (length_id ''AES-KW'' 128) (length_id ''AES-CBC'' 256) True [''decrypt''] #
      [ExportKey [1, 1, 1, 1, 1, 1, 1, 1, 1, 1, 1, 1, 1, 1, 1, 1, 2, 2, 2, 2, 2, 2, 2, 2, 2, 2, 2, 2, 2, 2, 2, 2],
       ImportKey [1, 1, 1, 1, 1, 1, 1, 1, 1, 1, 1, 1, 1, 1, 1, 1] (hash_id ''HMAC'' ''SHA-256'') False [''sign''],
       ImportKey [2, 2, 2, 2, 2, 2, 2, 2, 2, 2, 2, 2, 2, 2, 2, 2] (length_id ''AES-CBC'' 128) False [''decrypt''],
       Sign (hash_id ''HMAC'' ''SHA-256'') [1, 1, 1, 1, 1, 1, 1, 1, 1, 1, 1, 1, 1, 1, 1, 1]
         (arrayFromString ''eyJhbGciOiJBMTI4S1ciLCJlbmMiOiJBMTI4Q0JDLUhTMjU2In0'' @ [7, 7, 7, 7, 7, 7, 7, 7, 7, 7, 7, 7, 7, 7, 7, 7] @ [104, 101, 108, 108, 111] @ AL (arrayFromString ''eyJhbGciOiJBMTI4S1ciLCJlbmMiOiJBMTI4Q0JDLUhTMjU2In0''))])
   \<and> new_jose \<noteq> kw_cbc_jose"
proof -
  have 1: "length (split_on CHR ''.'' ''eyJhbGciOiJSU0EtT0FFUCIsImVuYyI6IkEyNTZHQ00iLCJjcml0IjpbImV4cCJdfQ.AQID.BwcHBwcHBwcHBwcH.aGVsbG8.r6-vr6-vr6-vr6-vr6-vrw'') = 5" by simp
  have 2: "Base64Url_decode (split_on CHR ''.'' ''eyJhbGciOiJSU0EtT0FFUCIsImVuYyI6IkEyNTZHQ00iLCJjcml0IjpbImV4cCJdfQ.AQID.BwcHBwcHBwcHBwcH.aGVsbG8.r6-vr6-vr6-vr6-vr6-vrw'' ! 0)
     = Inr ''{\"alg\":\"RSA-OAEP\",\"enc\":\"A256GCM\",\"crit\":[\"exp\"]}''"
    by (simp add: ex_header_crit)
  have t: "truthy (Some (JArr [JStr ''exp'']))" by (simp add: truthy_def)
  have a: "decrypt toy_platform kw_cbc_jose (Inr [9]) ''eyJhbGciOiJSU0EtT0FFUCIsImVuYyI6IkEyNTZHQ00iLCJjcml0IjpbImV4cCJdfQ.AQID.BwcHBwcHBwcHBwcH.aGVsbG8.r6-vr6-vr6-vr6-vr6-vrw''
     = (Inl (Reject ''decrypt: crit is not supported''), new_jose, [])"
    using decrypt_overwrites_algorithms [where this = kw_cbc_jose and key_promise = "Inr [9]",
        OF 1 2 ex_parse(3) ex_members(4) ex_configs(1) ex_members(5) ex_configs(2)]
        ex_members(6) t
    by (simp add: ex_states)
  have 3: "length (split_on CHR ''.'' ''eyJhbGciOiJBMTI4S1ciLCJlbmMiOiJBMTI4Q0JDLUhTMjU2In0.AQEBAQEBAQEBAQEBAQEBAQICAgICAgICAgICAgICAgI.BwcHBwcHBwcHBwcHBwcHBw.aGVsbG8.oaGhoaGhoaGhoaGhoaGhoA'') = 5" by simp
  have 4: "Base64Url_decode (split_on CHR ''.'' ''eyJhbGciOiJBMTI4S1ciLCJlbmMiOiJBMTI4Q0JDLUhTMjU2In0.AQEBAQEBAQEBAQEBAQEBAQICAgICAgICAgICAgICAgI.BwcHBwcHBwcHBwcHBwcHBw.aGVsbG8.oaGhoaGhoaGhoaGhoaGhoA'' ! 0)
     = Inr ''{\"alg\":\"A128KW\",\"enc\":\"A128CBC-HS256\"}''"
    by (simp add: ex_header_cbc)
  have b: "fst (snd (decrypt toy_platform new_jose (Inr [9]) ''eyJhbGciOiJBMTI4S1ciLCJlbmMiOiJBMTI4Q0JDLUhTMjU2In0.AQEBAQEBAQEBAQEBAQEBAQICAgICAgICAgICAgICAgI.BwcHBwcHBwcHBwcHBwcHBw.aGVsbG8.oaGhoaGhoaGhoaGhoaGhoA'')) = kw_cbc_jose"
    using decrypt_overwrites_algorithms [where this = new_jose and key_promise = "Inr [9]",
        OF 3 4 ex_parse(2) ex_members(1) ex_configs(3) ex_members(2) ex_configs(4)]
    by (simp add: ex_states)
  have "new_jose \<noteq> kw_cbc_jose"
    by (simp add: new_jose_def kw_cbc_jose_def a128kw_config_def rsa_oaep_config_def)
  then show ?thesis using a b ex_decrypt_tampered by simp
qed

section \<open>Integrity before decryption, and the length checks\<close>


lemma decryptCiphertext_invalid_iv:
  "iv_bytes (content_encryption this) \<noteq> Some (length iv) \<Longrightarrow>
   decryptCiphertext P this cekp aad iv ct tag = (Inl (Reject ''decryptCiphertext: invalid IV''), [])"
  by (simp add: decryptCiphertext_def)

lemma decryptCiphertext_mac_mismatch:
  assumes "auth (content_encryption this) = Some (Mac kb aid tb)"
    and "iv_bytes (content_encryption this) = Some (length iv)"
    and "keys_and_mac P (content_encryption this) cekp aad iv ct = (Inr (ek, mac), calls)"
    and "mac \<noteq> tag"
  shows "decryptCiphertext P this cekp aad iv ct tag
           = (Inl (Reject ''decryptCiphertext: MAC failed.''), calls)"
  unfolding decryptCiphertext_composite [OF assms(1)] using assms(2,3,4) by simp

lemma decryptCiphertext_keys_failed:
  assumes "auth (content_encryption this) = Some (Mac kb aid tb)"
    and "iv_bytes (content_encryption this) = Some (length iv)"
    and "keys_and_mac P (content_encryption this) cekp aad iv ct = (Inl e, calls)"
  shows "decryptCiphertext P this cekp aad iv ct tag = (Inl e, calls)"
  unfolding decryptCiphertext_composite [OF assms(1)] using assms(2,3) by simp

lemma decryptCiphertext_mac_match:
  assumes "auth (content_encryption this) = Some (Mac kb aid tb)"
    and "iv_bytes (content_encryption this) = Some (length iv)"
    and "keys_and_mac P (content_encryption this) cekp aad iv ct = (Inr (ek, tag), calls)"
  shows "decryptCiphertext P this cekp aad iv ct tag
           = (settle (subtle_decrypt P (cbc_params (content_encryption this) iv) ek ct),
              calls @ [Decrypt (cbc_params (content_encryption this) iv) ek ct])"
  unfolding decryptCiphertext_composite [OF assms(1)] using assms(2,3) by simp

lemma keys_and_mac_cases:
  obtains (failed) e calls where "keys_and_mac P config cekp aad iv ct = (Inl e, calls)"
  | (computed) ek mac calls where "keys_and_mac P config cekp aad iv ct = (Inr (ek, mac), calls)"
proof (cases "keys_and_mac P config cekp aad iv ct")
  case (Pair r calls)
  show ?thesis
  proof (cases r)
    case (Inl e)
    then show ?thesis using Pair failed by simp
  next
    case (Inr km)
    then show ?thesis using Pair computed by (cases km) simp
  qed
qed

lemma keys_and_mac_calls:
  "keys_and_mac P config cekp aad iv ct = (r, calls) \<Longrightarrow> list_all (\<lambda>c. \<not> is_Decrypt c) calls"
  using keys_and_mac_no_Decrypt [of P config cekp aad iv ct] by simp

lemma decryptCiphertext_success:
  assumes "auth (content_encryption this) = Some (Mac kb aid tb)"
    and "decryptCiphertext P this cekp aad iv ct tag = (Inr plain, calls)"
  obtains ek calls0 where
    "iv_bytes (content_encryption this) = Some (length iv)"
    "keys_and_mac P (content_encryption this) cekp aad iv ct = (Inr (ek, tag), calls0)"
    "calls = calls0 @ [Decrypt (cbc_params (content_encryption this) iv) ek ct]"
    "subtle_decrypt P (cbc_params (content_encryption this) iv) ek ct = Some plain"
proof -
  have iv: "iv_bytes (content_encryption this) = Some (length iv)"
    using assms(2) decryptCiphertext_invalid_iv [of this iv P cekp aad ct tag] by auto
  show ?thesis
  proof (cases rule: keys_and_mac_cases [of P "content_encryption this" cekp aad iv ct])
    case (failed e calls0)
    then show ?thesis
      using assms(2) decryptCiphertext_keys_failed [OF assms(1) iv failed, of tag] by simp
  next
    case (computed ek mac calls0)
    show ?thesis
    proof (cases "mac = tag")
      case False
      then show ?thesis
        using assms(2) decryptCiphertext_mac_mismatch [OF assms(1) iv computed] by simp
    next
      case True
      have r: "decryptCiphertext P this cekp aad iv ct tag
           = (settle (subtle_decrypt P (cbc_params (content_encryption this) iv) ek ct),
              calls0 @ [Decrypt (cbc_params (content_encryption this) iv) ek ct])"
        using decryptCiphertext_mac_match [OF assms(1) iv] computed True by simp
      then have "settle (subtle_decrypt P (cbc_params (content_encryption this) iv) ek ct) = Inr plain"
        and c: "calls = calls0 @ [Decrypt (cbc_params (content_encryption this) iv) ek ct]"
        using assms(2) by simp_all
      then have "subtle_decrypt P (cbc_params (content_encryption this) iv) ek ct = Some plain"
        by (simp add: settle_def split: option.splits)
      then show ?thesis using iv computed True c that by simp
    qed
  qed
qed

lemma decryptCiphertext_tampered:
  assumes "auth (content_encryption this) = Some (Mac kb aid tb)"
    and "decryptCiphertext P this cekp aad iv ct tag = (Inr plain, calls)"
    and "tag' \<noteq> tag"
  shows "decryptCiphertext P this cekp aad iv ct tag'
           = (Inl (Reject ''decryptCiphertext: MAC failed.''), butlast calls)
         \<and> list_all (\<lambda>c. \<not> is_Decrypt c) (butlast calls)"
proof -
  from assms(1,2) obtain ek calls0 where
    iv: "iv_bytes (content_encryption this) = Some (length iv)"
    and km: "keys_and_mac P (content_encryption this) cekp aad iv ct = (Inr (ek, tag), calls0)"
    and c: "calls = calls0 @ [Decrypt (cbc_params (content_encryption this) iv) ek ct]"
    by (rule decryptCiphertext_success)
  have "decryptCiphertext P this cekp aad iv ct tag'
           = (Inl (Reject ''decryptCiphertext: MAC failed.''), calls0)"
    using assms(3) by (intro decryptCiphertext_mac_mismatch [OF assms(1) iv km]) simp
  moreover have "list_all (\<lambda>c. \<not> is_Decrypt c) calls0" by (rule keys_and_mac_calls [OF km])
  ultimately show ?thesis using c by simp
qed

lemma keys_and_mac_length:
  assumes "keys_and_mac P config cekp aad iv ct = (Inr (ek, mac), calls)"
    and "auth config = Some (Mac kb aid tb)"
    and "\<forall>k d m. subtle_sign P aid k d = Some m \<longrightarrow> tb \<le> length m"
  shows "length mac = tb"
proof -
  from keys_and_mac_Inr [OF assms(1,2)] obtain mk m where
    "subtle_sign P aid mk (aad @ iv @ ct @ AL aad) = Some m" and "mac = take tb m" by blast
  moreover from this assms(3) have "tb \<le> length m" by blast
  ultimately show ?thesis by simp
qed

lemma decryptCiphertext_no_plaintext:
  assumes "iv_bytes (content_encryption this) \<noteq> Some (length iv)
           \<or> (\<exists>kb aid tb. auth (content_encryption this) = Some (Mac kb aid tb) \<and> length tag \<noteq> tb
                \<and> (\<forall>k d m. subtle_sign P aid k d = Some m \<longrightarrow> tb \<le> length m))"
  shows "isl (fst (decryptCiphertext P this cekp aad iv ct tag))
         \<and> list_all (\<lambda>c. \<not> is_Decrypt c) (snd (decryptCiphertext P this cekp aad iv ct tag))"
proof (cases "iv_bytes (content_encryption this) = Some (length iv)")
  case False
  then show ?thesis by (simp add: decryptCiphertext_invalid_iv)
next
  case iv: True
  then obtain kb aid tb where a: "auth (content_encryption this) = Some (Mac kb aid tb)"
    and l: "length tag \<noteq> tb"
    and sg: "\<forall>k d m. subtle_sign P aid k d = Some m \<longrightarrow> tb \<le> length m"
    using assms by blast
  show ?thesis
  proof (cases rule: keys_and_mac_cases [of P "content_encryption this" cekp aad iv ct])
    case (failed e calls)
    then show ?thesis
      using decryptCiphertext_keys_failed [OF a iv failed, of tag] keys_and_mac_calls [OF failed]
      by simp
  next
    case (computed ek mac calls)
    have "length mac = tb" by (rule keys_and_mac_length [OF computed a sg])
    then have "mac \<noteq> tag" using l by auto
    then show ?thesis
      using decryptCiphertext_mac_mismatch [OF a iv computed] keys_and_mac_calls [OF computed]
      by simp
  qed
qed


lemma decrypt_no_plaintext:
  assumes "Base64Url_decodeArray (split_on CHR ''.'' s ! 2) = Inr iv"
    and "Base64Url_decodeArray (split_on CHR ''.'' s ! 4) = Inr tag"
    and "iv_bytes (content_encryption (fst (snd (decrypt P this key s)))) \<noteq> Some (length iv)
           \<or> (\<exists>kb aid tb. auth (content_encryption (fst (snd (decrypt P this key s))))
                              = Some (Mac kb aid tb) \<and> length tag \<noteq> tb
                \<and> (\<forall>k d m. subtle_sign P aid k d = Some m \<longrightarrow> tb \<le> length m))"
  shows "isl (fst (decrypt P this key s))
         \<and> list_all (\<lambda>c. \<not> is_Decrypt c) (snd (snd (decrypt P this key s)))"
proof (cases rule: decrypt_cases [of P this key s])
  case (early e st calls)
  then show ?thesis by simp
next
  case (reached jtext header alg enc ka ca ecek cekp calls1 iv' ct tag' r calls2)
  let ?st = "this\<lparr>key_encryption := ka, content_encryption := ca\<rparr>"
  have iv: "iv' = iv" and tag: "tag' = tag" using reached(10,12) assms(1,2) by simp_all
  have st: "fst (snd (decrypt P this key s)) = ?st" using reached(14) by simp
  have "isl (fst (decryptCiphertext P ?st cekp (arrayFromString (split_on CHR ''.'' s ! 0)) iv ct tag))
      \<and> list_all (\<lambda>c. \<not> is_Decrypt c)
          (snd (decryptCiphertext P ?st cekp (arrayFromString (split_on CHR ''.'' s ! 0)) iv ct tag))"
    using assms(3) unfolding st by (rule decryptCiphertext_no_plaintext)
  then have "isl r" and "list_all (\<lambda>c. \<not> is_Decrypt c) calls2"
    using reached(13) iv tag by simp_all
  then show ?thesis using reached(14,15) by (cases r) simp_all
qed

lemma decrypt_tampered:
  assumes "split_on CHR ''.'' s = [h, e, i, c, t]"
    and "split_on CHR ''.'' s' = [h, e, i, c, t']"
    and "decrypt P this key s = (Inr plain, st, calls)"
    and "auth (content_encryption st) = Some (Mac kb aid tb)"
    and "Base64Url_decodeArray t' \<noteq> Base64Url_decodeArray t"
  shows "isl (fst (decrypt P this key s'))
         \<and> list_all (\<lambda>c. \<not> is_Decrypt c) (snd (snd (decrypt P this key s')))"
proof (cases rule: decrypt_cases [of P this key s'])
  case (early e st calls)
  then show ?thesis by simp
next
  case new: (reached jtext' header' alg' enc' ka' ca' ecek' cekp' calls1' iv' ct' tag' r' calls2')
  show ?thesis
  proof (cases rule: decrypt_cases [of P this key s])
    case (early e st calls)
    then show ?thesis using assms(3) by simp
  next
    case old: (reached jtext header alg enc ka ca ecek cekp calls1 iv ct tag r calls2)
    let ?st = "this\<lparr>key_encryption := ka, content_encryption := ca\<rparr>"
    have "jtext' = jtext" using new(2) old(2) assms(1,2) by simp
    then have "header' = header" using new(3) old(3) by simp
    then have "alg' = alg" and "enc' = enc" using new(4,6) old(4,6) by simp_all
    then have k: "ka' = ka" "ca' = ca" using new(5,7) old(5,7) by simp_all
    have "ecek' = ecek" using new(8) old(8) assms(1,2) by simp
    then have ck: "cekp' = cekp" "calls1' = calls1" using new(9) old(9) k by simp_all
    have seg: "iv' = iv" "ct' = ct" using new(10,11) old(10,11) assms(1,2) by simp_all
    have hd: "split_on CHR ''.'' s' ! 0 = split_on CHR ''.'' s ! 0" using assms(1,2) by simp
    have "Inr tag' \<noteq> (Inr tag :: error + bytes)" using new(12) old(12) assms(1,2,5) by simp
    then have tg: "tag' \<noteq> tag" by simp
    have st: "st = ?st" and "map_sum id stringFromArray r = Inr plain"
      using old(14) assms(3) by simp_all
    then obtain p where r: "r = Inr p" by (cases r) simp_all
    have a: "auth (content_encryption ?st) = Some (Mac kb aid tb)" using assms(4) st by simp
    have ok: "decryptCiphertext P ?st cekp (arrayFromString (split_on CHR ''.'' s ! 0)) iv ct tag
                = (Inr p, calls2)" using old(13) r by simp
    have "decryptCiphertext P ?st cekp (arrayFromString (split_on CHR ''.'' s ! 0)) iv ct tag'
           = (Inl (Reject ''decryptCiphertext: MAC failed.''), butlast calls2)
         \<and> list_all (\<lambda>c. \<not> is_Decrypt c) (butlast calls2)"
      by (rule decryptCiphertext_tampered [OF a ok tg])
    moreover have "decryptCiphertext P ?st cekp (arrayFromString (split_on CHR ''.'' s ! 0)) iv ct tag'
           = (r', calls2')"
      using new(13) unfolding k ck seg hd .
    ultimately have "isl r'" and "list_all (\<lambda>c. \<not> is_Decrypt c) calls2'"
      by simp_all
    then show ?thesis using new(14,15) by (cases r') simp_all
  qed
qed


lemma decrypt_same_tag_bytes:
  assumes "split_on CHR ''.'' s = [h, e, i, c, t]"
    and "split_on CHR ''.'' s' = [h, e, i, c, t']"
    and "Base64Url_decodeArray t' = Base64Url_decodeArray t"
  shows "decrypt P this key s' = decrypt P this key s"
proof -
  have "decrypt_segments P st key [h, e, i, c, t'] = decrypt_segments P st key [h, e, i, c, t]" for st
    by (simp add: decrypt_segments_def assms(3) split: sum.splits prod.splits)
  then have "decrypt_header P this key [h, e, i, c, t'] hd = decrypt_header P this key [h, e, i, c, t] hd"
    for hd
    by (simp add: decrypt_header_def Let_def split: sum.splits)
  then show ?thesis by (simp add: decrypt_def assms(1,2) split: sum.splits option.splits)
qed

lemma decryptCiphertext_order:
  assumes "auth (content_encryption this) = Some (Mac kb aid tb)"
  shows "(isl (fst (decryptCiphertext P this cekp aad iv ct tag))
          \<and> list_all (\<lambda>c. \<not> is_Decrypt c) (snd (decryptCiphertext P this cekp aad iv ct tag)))
       \<or> (\<exists>cek cek_bytes mk ek m.
            snd (decryptCiphertext P this cekp aad iv ct tag) =
              [ExportKey cek,
               ImportKey (take kb cek_bytes) aid False [''sign''],
               ImportKey (drop kb cek_bytes) (cfg_id (content_encryption this)) False [''decrypt''],
               Sign aid mk (aad @ iv @ ct @ AL aad),
               Decrypt (cbc_params (content_encryption this) iv) ek ct]
          \<and> subtle_sign P aid mk (aad @ iv @ ct @ AL aad) = Some m
          \<and> compare (take tb m) tag
          \<and> fst (decryptCiphertext P this cekp aad iv ct tag)
              = settle (subtle_decrypt P (cbc_params (content_encryption this) iv) ek ct))"
proof (cases "iv_bytes (content_encryption this) = Some (length iv)")
  case False
  then show ?thesis by (simp add: decryptCiphertext_invalid_iv)
next
  case iv: True
  show ?thesis
  proof (cases rule: keys_and_mac_cases [of P "content_encryption this" cekp aad iv ct])
    case (failed e calls)
    then show ?thesis
      using decryptCiphertext_keys_failed [OF assms iv failed, of tag] keys_and_mac_calls [OF failed]
      by simp
  next
    case (computed ek mac calls)
    show ?thesis
    proof (cases "mac = tag")
      case False
      then show ?thesis
        using decryptCiphertext_mac_mismatch [OF assms iv computed] keys_and_mac_calls [OF computed]
        by simp
    next
      case True
      from keys_and_mac_Inr [OF computed assms] obtain cek cek_bytes mk m where
        sg: "subtle_sign P aid mk (aad @ iv @ ct @ AL aad) = Some m" and m: "mac = take tb m"
        and c: "calls = [ExportKey cek,
                     ImportKey (take kb cek_bytes) aid False [''sign''],
                     ImportKey (drop kb cek_bytes) (cfg_id (content_encryption this)) False [''decrypt''],
                     Sign aid mk (aad @ iv @ ct @ AL aad)]"
        by blast
      have r: "decryptCiphertext P this cekp aad iv ct tag
           = (settle (subtle_decrypt P (cbc_params (content_encryption this) iv) ek ct),
              calls @ [Decrypt (cbc_params (content_encryption this) iv) ek ct])"
        using decryptCiphertext_mac_match [OF assms iv] computed True by simp
      have "compare (take tb m) tag" using True m by (simp add: compare_eq)
      then have "snd (decryptCiphertext P this cekp aad iv ct tag) =
              [ExportKey cek,
               ImportKey (take kb cek_bytes) aid False [''sign''],
               ImportKey (drop kb cek_bytes) (cfg_id (content_encryption this)) False [''decrypt''],
               Sign aid mk (aad @ iv @ ct @ AL aad),
               Decrypt (cbc_params (content_encryption this) iv) ek ct]
          \<and> subtle_sign P aid mk (aad @ iv @ ct @ AL aad) = Some m
          \<and> compare (take tb m) tag
          \<and> fst (decryptCiphertext P this cekp aad iv ct tag)
              = settle (subtle_decrypt P (cbc_params (content_encryption this) iv) ek ct)"
        using r c sg by simp
      then show ?thesis by blast
    qed
  qed
qed

lemma kind_mac_failed:
  "error_kind_of (Reject ''decryptCiphertext: MAC failed.'') = IntegrityFailure"
  by (simp add: error_kind_of_def)

lemma kind_invalid_iv:
  "error_kind_of (Reject ''decryptCiphertext: invalid IV'') = MalformedInput"
  by (simp add: error_kind_of_def)

text \<open>
  Claim C1. For a composite suite, a run of \<open>decryptCiphertext\<close> either is rejected
  without any call to the content decryption, or it made exactly the calls export,
  import of the MAC key, import of the ENC key, \<open>sign\<close> over
  \<open>aad @ iv @ cipher_text @ AL\<close>, and only then \<open>decrypt\<close>, the signature cut to the
  truncated length having passed \<open>compare\<close> against the received tag; its result then
  is that of the AES-CBC decryption. When keys and MAC are available and \<open>compare\<close>
  fails, the run is rejected with \<open>MAC failed.\<close>, an integrity failure, with no call to
  the content decryption. Hence a run that succeeded fails with any other tag, and a
  compact text whose \<open>decrypt\<close> succeeded fails, without content decryption, after any
  change of its tag segment that changes the decoded tag bytes. A change of the tag
  segment that leaves the decoded bytes as they are leaves the whole result of
  \<open>decrypt\<close> as it is.
\<close>

theorem decryptCiphertext_mac_before_decrypt:
  "(auth (content_encryption this) = Some (Mac kb aid tb) \<longrightarrow>
      (isl (fst (decryptCiphertext P this cekp aad iv ct tag))
          \<and> list_all (\<lambda>c. \<not> is_Decrypt c) (snd (decryptCiphertext P this cekp aad iv ct tag)))
       \<or> (\<exists>cek cek_bytes mk ek m.
            snd (decryptCiphertext P this cekp aad iv ct tag) =
              [ExportKey cek,
               ImportKey (take kb cek_bytes) aid False [''sign''],
               ImportKey (drop kb cek_bytes) (cfg_id (content_encryption this)) False [''decrypt''],
               Sign aid mk (aad @ iv @ ct @ AL aad),
               Decrypt (cbc_params (content_encryption this) iv) ek ct]
          \<and> subtle_sign P aid mk (aad @ iv @ ct @ AL aad) = Some m
          \<and> compare (take tb m) tag
          \<and> fst (decryptCiphertext P this cekp aad iv ct tag)
              = settle (subtle_decrypt P (cbc_params (content_encryption this) iv) ek ct)))
   \<and> (auth (content_encryption this) = Some (Mac kb aid tb)
        \<and> iv_bytes (content_encryption this) = Some (length iv)
        \<and> keys_and_mac P (content_encryption this) cekp aad iv ct = (Inr (enc_key, mac), calls0)
        \<and> \<not> compare mac tag0 \<longrightarrow>
          decryptCiphertext P this cekp aad iv ct tag0
            = (Inl (Reject ''decryptCiphertext: MAC failed.''), calls0)
        \<and> list_all (\<lambda>c. \<not> is_Decrypt c) calls0
        \<and> error_kind_of (Reject ''decryptCiphertext: MAC failed.'') = IntegrityFailure)
   \<and> (auth (content_encryption this) = Some (Mac kb aid tb)
        \<and> decryptCiphertext P this cekp aad iv ct tag = (Inr plain, calls)
        \<and> tag' \<noteq> tag \<longrightarrow>
          decryptCiphertext P this cekp aad iv ct tag'
            = (Inl (Reject ''decryptCiphertext: MAC failed.''), butlast calls)
        \<and> list_all (\<lambda>c. \<not> is_Decrypt c) (butlast calls))
   \<and> (split_on CHR ''.'' s = [h, e, i, c, t] \<and> split_on CHR ''.'' s' = [h, e, i, c, t']
        \<and> decrypt P this0 key s = (Inr plain_text, st, calls1)
        \<and> auth (content_encryption st) = Some (Mac kb1 aid1 tb1)
        \<and> Base64Url_decodeArray t' \<noteq> Base64Url_decodeArray t \<longrightarrow>
          isl (fst (decrypt P this0 key s'))
        \<and> list_all (\<lambda>c. \<not> is_Decrypt c) (snd (snd (decrypt P this0 key s'))))
   \<and> (split_on CHR ''.'' s = [h, e, i, c, t] \<and> split_on CHR ''.'' s2 = [h, e, i, c, t2]
        \<and> Base64Url_decodeArray t2 = Base64Url_decodeArray t \<longrightarrow>
          decrypt P this0 key s2 = decrypt P this0 key s)"
proof (intro conjI impI)
  assume "auth (content_encryption this) = Some (Mac kb aid tb)"
  then show "(isl (fst (decryptCiphertext P this cekp aad iv ct tag))
          \<and> list_all (\<lambda>c. \<not> is_Decrypt c) (snd (decryptCiphertext P this cekp aad iv ct tag)))
       \<or> (\<exists>cek cek_bytes mk ek m.
            snd (decryptCiphertext P this cekp aad iv ct tag) =
              [ExportKey cek,
               ImportKey (take kb cek_bytes) aid False [''sign''],
               ImportKey (drop kb cek_bytes) (cfg_id (content_encryption this)) False [''decrypt''],
               Sign aid mk (aad @ iv @ ct @ AL aad),
               Decrypt (cbc_params (content_encryption this) iv) ek ct]
          \<and> subtle_sign P aid mk (aad @ iv @ ct @ AL aad) = Some m
          \<and> compare (take tb m) tag
          \<and> fst (decryptCiphertext P this cekp aad iv ct tag)
              = settle (subtle_decrypt P (cbc_params (content_encryption this) iv) ek ct))"
    by (rule decryptCiphertext_order)
next
  assume a: "auth (content_encryption this) = Some (Mac kb aid tb)
        \<and> iv_bytes (content_encryption this) = Some (length iv)
        \<and> keys_and_mac P (content_encryption this) cekp aad iv ct = (Inr (enc_key, mac), calls0)
        \<and> \<not> compare mac tag0"
  then have ne: "mac \<noteq> tag0" by (simp add: compare_eq)
  show "decryptCiphertext P this cekp aad iv ct tag0
            = (Inl (Reject ''decryptCiphertext: MAC failed.''), calls0)"
    using a ne decryptCiphertext_mac_mismatch [of this kb aid tb iv P cekp aad ct enc_key mac calls0 tag0]
    by blast
  show "list_all (\<lambda>c. \<not> is_Decrypt c) calls0" using a keys_and_mac_calls by blast
  show "error_kind_of (Reject ''decryptCiphertext: MAC failed.'') = IntegrityFailure"
    by (rule kind_mac_failed)
next
  assume a: "auth (content_encryption this) = Some (Mac kb aid tb)
        \<and> decryptCiphertext P this cekp aad iv ct tag = (Inr plain, calls)
        \<and> tag' \<noteq> tag"
  then have "decryptCiphertext P this cekp aad iv ct tag'
            = (Inl (Reject ''decryptCiphertext: MAC failed.''), butlast calls)
        \<and> list_all (\<lambda>c. \<not> is_Decrypt c) (butlast calls)"
    using decryptCiphertext_tampered [of this kb aid tb P cekp aad iv ct tag plain calls tag'] by blast
  then show "decryptCiphertext P this cekp aad iv ct tag'
            = (Inl (Reject ''decryptCiphertext: MAC failed.''), butlast calls)"
    and "list_all (\<lambda>c. \<not> is_Decrypt c) (butlast calls)" by simp_all
next
  assume a: "split_on CHR ''.'' s = [h, e, i, c, t] \<and> split_on CHR ''.'' s' = [h, e, i, c, t']
        \<and> decrypt P this0 key s = (Inr plain_text, st, calls1)
        \<and> auth (content_encryption st) = Some (Mac kb1 aid1 tb1)
        \<and> Base64Url_decodeArray t' \<noteq> Base64Url_decodeArray t"
  then have "isl (fst (decrypt P this0 key s'))
        \<and> list_all (\<lambda>c. \<not> is_Decrypt c) (snd (snd (decrypt P this0 key s')))"
    using decrypt_tampered [of s h e i c t s' t' P this0 key plain_text st calls1 kb1 aid1 tb1]
    by blast
  then show "isl (fst (decrypt P this0 key s'))"
    and "list_all (\<lambda>c. \<not> is_Decrypt c) (snd (snd (decrypt P this0 key s')))" by simp_all
next
  assume "split_on CHR ''.'' s = [h, e, i, c, t] \<and> split_on CHR ''.'' s2 = [h, e, i, c, t2]
        \<and> Base64Url_decodeArray t2 = Base64Url_decodeArray t"
  then show "decrypt P this0 key s2 = decrypt P this0 key s"
    using decrypt_same_tag_bytes [of s h e i c t s2 t2 P this0 key] by blast
qed

text \<open>
  Claim C7. A decoded IV whose length differs from \<open>iv_bytes\<close> makes
  \<open>decryptCiphertext\<close> reject with \<open>invalid IV\<close>, a malformed input, before any call
  to the provider. The length of the tag is not checked on its own: for a composite
  suite, a tag whose length differs from the truncated length differs from the
  recomputed MAC, and the run is rejected by the MAC comparison, with \<open>MAC failed.\<close>,
  an integrity failure, and no call to the content decryption. In both cases
  \<open>decrypt\<close> fails and no content decryption is called (for the tag, with a provider
  whose signatures are at least as long as the truncated length).
\<close>

theorem decryptCiphertext_length_checks:
  "(iv_bytes (content_encryption this) \<noteq> Some (length iv) \<longrightarrow>
      decryptCiphertext P this cekp aad iv ct tag
        = (Inl (Reject ''decryptCiphertext: invalid IV''), [])
      \<and> error_kind_of (Reject ''decryptCiphertext: invalid IV'') = MalformedInput)
   \<and> (auth (content_encryption this) = Some (Mac kb aid tb)
        \<and> iv_bytes (content_encryption this) = Some (length iv0)
        \<and> keys_and_mac P (content_encryption this) cekp aad iv0 ct = (Inr (enc_key, mac), calls0)
        \<and> length mac = tb \<and> length tag0 \<noteq> tb \<longrightarrow>
          decryptCiphertext P this cekp aad iv0 ct tag0
            = (Inl (Reject ''decryptCiphertext: MAC failed.''), calls0)
        \<and> list_all (\<lambda>c. \<not> is_Decrypt c) calls0
        \<and> error_kind_of (Reject ''decryptCiphertext: MAC failed.'') = IntegrityFailure)
   \<and> (Base64Url_decodeArray (split_on CHR ''.'' s ! 2) = Inr iv1
        \<and> Base64Url_decodeArray (split_on CHR ''.'' s ! 4) = Inr tag1
        \<and> (iv_bytes (content_encryption (fst (snd (decrypt P this0 key s)))) \<noteq> Some (length iv1)
           \<or> (\<exists>kb aid tb. auth (content_encryption (fst (snd (decrypt P this0 key s))))
                              = Some (Mac kb aid tb) \<and> length tag1 \<noteq> tb
                \<and> (\<forall>k d m. subtle_sign P aid k d = Some m \<longrightarrow> tb \<le> length m))) \<longrightarrow>
          isl (fst (decrypt P this0 key s))
        \<and> list_all (\<lambda>c. \<not> is_Decrypt c) (snd (snd (decrypt P this0 key s))))"
proof (intro conjI impI)
  assume "iv_bytes (content_encryption this) \<noteq> Some (length iv)"
  then show "decryptCiphertext P this cekp aad iv ct tag
        = (Inl (Reject ''decryptCiphertext: invalid IV''), [])"
    by (rule decryptCiphertext_invalid_iv)
  show "error_kind_of (Reject ''decryptCiphertext: invalid IV'') = MalformedInput"
    by (rule kind_invalid_iv)
next
  assume a: "auth (content_encryption this) = Some (Mac kb aid tb)
        \<and> iv_bytes (content_encryption this) = Some (length iv0)
        \<and> keys_and_mac P (content_encryption this) cekp aad iv0 ct = (Inr (enc_key, mac), calls0)
        \<and> length mac = tb \<and> length tag0 \<noteq> tb"
  then have ne: "mac \<noteq> tag0" by auto
  show "decryptCiphertext P this cekp aad iv0 ct tag0
            = (Inl (Reject ''decryptCiphertext: MAC failed.''), calls0)"
    using a ne decryptCiphertext_mac_mismatch [of this kb aid tb iv0 P cekp aad ct enc_key mac calls0 tag0]
    by blast
  show "list_all (\<lambda>c. \<not> is_Decrypt c) calls0" using a keys_and_mac_calls by blast
  show "error_kind_of (Reject ''decryptCiphertext: MAC failed.'') = IntegrityFailure"
    by (rule kind_mac_failed)
next
  assume a: "Base64Url_decodeArray (split_on CHR ''.'' s ! 2) = Inr iv1
        \<and> Base64Url_decodeArray (split_on CHR ''.'' s ! 4) = Inr tag1
        \<and> (iv_bytes (content_encryption (fst (snd (decrypt P this0 key s)))) \<noteq> Some (length iv1)
           \<or> (\<exists>kb aid tb. auth (content_encryption (fst (snd (decrypt P this0 key s))))
                              = Some (Mac kb aid tb) \<and> length tag1 \<noteq> tb
                \<and> (\<forall>k d m. subtle_sign P aid k d = Some m \<longrightarrow> tb \<le> length m)))"
  have "isl (fst (decrypt P this0 key s))
        \<and> list_all (\<lambda>c. \<not> is_Decrypt c) (snd (snd (decrypt P this0 key s)))"
    by (rule decrypt_no_plaintext [of s iv1 tag1 P this0 key]) (use a in blast)+
  then show "isl (fst (decrypt P this0 key s))"
    and "list_all (\<lambda>c. \<not> is_Decrypt c) (snd (snd (decrypt P this0 key s)))" by simp_all
qed


lemma ex_segments_more:
  "Base64Url_decodeArray ''oaGhoaGhoaGhoaGhoaGhoS'' = Inr [161, 161, 161, 161, 161, 161, 161, 161, 161, 161, 161, 161, 161, 161, 161, 161]"
  "Base64Url_decodeArray ''oaGhoaGhoaGhoaGhoaGh'' = Inr [161, 161, 161, 161, 161, 161, 161, 161, 161, 161, 161, 161, 161, 161, 161]"
  by (simp_all add: b64_eval)

lemma ex_split_more:
  "split_on CHR ''.'' ''eyJhbGciOiJBMTI4S1ciLCJlbmMiOiJBMTI4Q0JDLUhTMjU2In0.AQEBAQEBAQEBAQEBAQEBAQICAgICAgICAgICAgICAgI.BwcHBwcHBwcHBwcHBwcHBw.aGVsbG8.oaGhoaGhoaGhoaGhoaGhoS''
   = [''eyJhbGciOiJBMTI4S1ciLCJlbmMiOiJBMTI4Q0JDLUhTMjU2In0'', ''AQEBAQEBAQEBAQEBAQEBAQICAgICAgICAgICAgICAgI'', ''BwcHBwcHBwcHBwcHBwcHBw'', ''aGVsbG8'', ''oaGhoaGhoaGhoaGhoaGhoS'']"
  "split_on CHR ''.'' ''eyJhbGciOiJBMTI4S1ciLCJlbmMiOiJBMTI4Q0JDLUhTMjU2In0.AQEBAQEBAQEBAQEBAQEBAQICAgICAgICAgICAgICAgI.BwcHBwcHBwcHBwcH.aGVsbG8.oaGhoaGhoaGhoaGhoaGhoQ''
   = [''eyJhbGciOiJBMTI4S1ciLCJlbmMiOiJBMTI4Q0JDLUhTMjU2In0'', ''AQEBAQEBAQEBAQEBAQEBAQICAgICAgICAgICAgICAgI'', ''BwcHBwcHBwcHBwcH'', ''aGVsbG8'', ''oaGhoaGhoaGhoaGhoaGhoQ'']"
  "split_on CHR ''.'' ''eyJhbGciOiJBMTI4S1ciLCJlbmMiOiJBMTI4Q0JDLUhTMjU2In0.AQEBAQEBAQEBAQEBAQEBAQICAgICAgICAgICAgICAgI.BwcHBwcHBwcHBwcHBwcHBw.aGVsbG8.oaGhoaGhoaGhoaGhoaGh''
   = [''eyJhbGciOiJBMTI4S1ciLCJlbmMiOiJBMTI4Q0JDLUhTMjU2In0'', ''AQEBAQEBAQEBAQEBAQEBAQICAgICAgICAgICAgICAgI'', ''BwcHBwcHBwcHBwcHBwcHBw'', ''aGVsbG8'', ''oaGhoaGhoaGhoaGhoaGh'']"
  by simp_all

lemma ex_iv_cbc: "iv_bytes (content_encryption kw_cbc_jose) = Some (length [7, 7, 7, 7, 7, 7, 7, 7, 7, 7, 7, 7, 7, 7, 7, 7])"
  by (simp add: kw_cbc_jose_def a128cbc_config_def)

lemma ex_iv_short: "iv_bytes (content_encryption kw_cbc_jose) \<noteq> Some (length [7, 7, 7, 7, 7, 7, 7, 7, 7, 7, 7, 7])"
  by (simp add: kw_cbc_jose_def a128cbc_config_def)

lemma ex_keys_and_mac_jose:
  "keys_and_mac toy_platform (content_encryption kw_cbc_jose) (Inr [1, 1, 1, 1, 1, 1, 1, 1, 1, 1, 1, 1, 1, 1, 1, 1, 2, 2, 2, 2, 2, 2, 2, 2, 2, 2, 2, 2, 2, 2, 2, 2])
     (arrayFromString ''eyJhbGciOiJBMTI4S1ciLCJlbmMiOiJBMTI4Q0JDLUhTMjU2In0'') [7, 7, 7, 7, 7, 7, 7, 7, 7, 7, 7, 7, 7, 7, 7, 7] [104, 101, 108, 108, 111]
   = (Inr ([2, 2, 2, 2, 2, 2, 2, 2, 2, 2, 2, 2, 2, 2, 2, 2], [161, 161, 161, 161, 161, 161, 161, 161, 161, 161, 161, 161, 161, 161, 161, 161]),
      [ExportKey [1, 1, 1, 1, 1, 1, 1, 1, 1, 1, 1, 1, 1, 1, 1, 1, 2, 2, 2, 2, 2, 2, 2, 2, 2, 2, 2, 2, 2, 2, 2, 2],
       ImportKey [1, 1, 1, 1, 1, 1, 1, 1, 1, 1, 1, 1, 1, 1, 1, 1] (hash_id ''HMAC'' ''SHA-256'') False [''sign''],
       ImportKey [2, 2, 2, 2, 2, 2, 2, 2, 2, 2, 2, 2, 2, 2, 2, 2] (length_id ''AES-CBC'' 128) False [''decrypt''],
       Sign (hash_id ''HMAC'' ''SHA-256'') [1, 1, 1, 1, 1, 1, 1, 1, 1, 1, 1, 1, 1, 1, 1, 1]
         (arrayFromString ''eyJhbGciOiJBMTI4S1ciLCJlbmMiOiJBMTI4Q0JDLUhTMjU2In0'' @ [7, 7, 7, 7, 7, 7, 7, 7, 7, 7, 7, 7, 7, 7, 7, 7] @ [104, 101, 108, 108, 111] @ AL (arrayFromString ''eyJhbGciOiJBMTI4S1ciLCJlbmMiOiJBMTI4Q0JDLUhTMjU2In0''))])"
  using ex_keys_and_mac by (simp add: kw_cbc_jose_def)

lemma ex_ciphertext_short_tag:
  "decryptCiphertext toy_platform kw_cbc_jose (Inr [1, 1, 1, 1, 1, 1, 1, 1, 1, 1, 1, 1, 1, 1, 1, 1, 2, 2, 2, 2, 2, 2, 2, 2, 2, 2, 2, 2, 2, 2, 2, 2])
     (arrayFromString ''eyJhbGciOiJBMTI4S1ciLCJlbmMiOiJBMTI4Q0JDLUhTMjU2In0'') [7, 7, 7, 7, 7, 7, 7, 7, 7, 7, 7, 7, 7, 7, 7, 7] [104, 101, 108, 108, 111]
     [161, 161, 161, 161, 161, 161, 161, 161, 161, 161, 161, 161, 161, 161, 161]
   = (Inl (Reject ''decryptCiphertext: MAC failed.''),
      [ExportKey [1, 1, 1, 1, 1, 1, 1, 1, 1, 1, 1, 1, 1, 1, 1, 1, 2, 2, 2, 2, 2, 2, 2, 2, 2, 2, 2, 2, 2, 2, 2, 2],
       ImportKey [1, 1, 1, 1, 1, 1, 1, 1, 1, 1, 1, 1, 1, 1, 1, 1] (hash_id ''HMAC'' ''SHA-256'') False [''sign''],
       ImportKey [2, 2, 2, 2, 2, 2, 2, 2, 2, 2, 2, 2, 2, 2, 2, 2] (length_id ''AES-CBC'' 128) False [''decrypt''],
       Sign (hash_id ''HMAC'' ''SHA-256'') [1, 1, 1, 1, 1, 1, 1, 1, 1, 1, 1, 1, 1, 1, 1, 1]
         (arrayFromString ''eyJhbGciOiJBMTI4S1ciLCJlbmMiOiJBMTI4Q0JDLUhTMjU2In0'' @ [7, 7, 7, 7, 7, 7, 7, 7, 7, 7, 7, 7, 7, 7, 7, 7] @ [104, 101, 108, 108, 111] @ AL (arrayFromString ''eyJhbGciOiJBMTI4S1ciLCJlbmMiOiJBMTI4Q0JDLUhTMjU2In0''))])"
  by (rule decryptCiphertext_mac_mismatch [OF ex_auth_cbc ex_iv_cbc ex_keys_and_mac_jose]) simp

lemma ex_ciphertext_short_iv:
  "decryptCiphertext toy_platform kw_cbc_jose (Inr [1, 1, 1, 1, 1, 1, 1, 1, 1, 1, 1, 1, 1, 1, 1, 1, 2, 2, 2, 2, 2, 2, 2, 2, 2, 2, 2, 2, 2, 2, 2, 2])
     (arrayFromString ''eyJhbGciOiJBMTI4S1ciLCJlbmMiOiJBMTI4Q0JDLUhTMjU2In0'') [7, 7, 7, 7, 7, 7, 7, 7, 7, 7, 7, 7] [104, 101, 108, 108, 111]
     [161, 161, 161, 161, 161, 161, 161, 161, 161, 161, 161, 161, 161, 161, 161, 161]
   = (Inl (Reject ''decryptCiphertext: invalid IV''), [])"
  by (rule decryptCiphertext_invalid_iv [OF ex_iv_short])

lemma ex_decrypt_short_tag:
  "decrypt toy_platform new_jose (Inr [9])
     ''eyJhbGciOiJBMTI4S1ciLCJlbmMiOiJBMTI4Q0JDLUhTMjU2In0.AQEBAQEBAQEBAQEBAQEBAQICAgICAgICAgICAgICAgI.BwcHBwcHBwcHBwcHBwcHBw.aGVsbG8.oaGhoaGhoaGhoaGhoaGh''
   = (Inl (Reject ''decryptCiphertext: MAC failed.''), kw_cbc_jose,
      UnwrapKey [1, 1, 1, 1, 1, 1, 1, 1, 1, 1, 1, 1, 1, 1, 1, 1, 2, 2, 2, 2, 2, 2, 2, 2, 2, 2, 2, 2, 2, 2, 2, 2] [9] (length_id ''AES-KW'' 128) (length_id ''AES-CBC'' 256) True [''decrypt''] #
      [ExportKey [1, 1, 1, 1, 1, 1, 1, 1, 1, 1, 1, 1, 1, 1, 1, 1, 2, 2, 2, 2, 2, 2, 2, 2, 2, 2, 2, 2, 2, 2, 2, 2],
       ImportKey [1, 1, 1, 1, 1, 1, 1, 1, 1, 1, 1, 1, 1, 1, 1, 1] (hash_id ''HMAC'' ''SHA-256'') False [''sign''],
       ImportKey [2, 2, 2, 2, 2, 2, 2, 2, 2, 2, 2, 2, 2, 2, 2, 2] (length_id ''AES-CBC'' 128) False [''decrypt''],
       Sign (hash_id ''HMAC'' ''SHA-256'') [1, 1, 1, 1, 1, 1, 1, 1, 1, 1, 1, 1, 1, 1, 1, 1]
         (arrayFromString ''eyJhbGciOiJBMTI4S1ciLCJlbmMiOiJBMTI4Q0JDLUhTMjU2In0'' @ [7, 7, 7, 7, 7, 7, 7, 7, 7, 7, 7, 7, 7, 7, 7, 7] @ [104, 101, 108, 108, 111] @ AL (arrayFromString ''eyJhbGciOiJBMTI4S1ciLCJlbmMiOiJBMTI4Q0JDLUhTMjU2In0''))])"
proof -
  have nt: "\<not> truthy None" by (simp add: truthy_def)
  show ?thesis
    using decrypt_reached [where this = new_jose and key = "Inr [9]", OF ex_split_more(3) ex_header_cbc
        ex_parse(2) ex_members(1) ex_configs(3) ex_members(2) ex_configs(4) ex_members(3) nt
        ex_segments(4) _ ex_segments(5) ex_segments(6) ex_segments_more(2)]
        ex_decryptCek ex_ciphertext_short_tag
    by (simp add: ex_states)
qed

lemma ex_decrypt_short_iv:
  "decrypt toy_platform new_jose (Inr [9])
     ''eyJhbGciOiJBMTI4S1ciLCJlbmMiOiJBMTI4Q0JDLUhTMjU2In0.AQEBAQEBAQEBAQEBAQEBAQICAgICAgICAgICAgICAgI.BwcHBwcHBwcHBwcH.aGVsbG8.oaGhoaGhoaGhoaGhoaGhoQ''
   = (Inl (Reject ''decryptCiphertext: invalid IV''), kw_cbc_jose,
      [UnwrapKey [1, 1, 1, 1, 1, 1, 1, 1, 1, 1, 1, 1, 1, 1, 1, 1, 2, 2, 2, 2, 2, 2, 2, 2, 2, 2, 2, 2, 2, 2, 2, 2] [9] (length_id ''AES-KW'' 128) (length_id ''AES-CBC'' 256) True [''decrypt'']])"
proof -
  have nt: "\<not> truthy None" by (simp add: truthy_def)
  show ?thesis
    using decrypt_reached [where this = new_jose and key = "Inr [9]", OF ex_split_more(2) ex_header_cbc
        ex_parse(2) ex_members(1) ex_configs(3) ex_members(2) ex_configs(4) ex_members(3) nt
        ex_segments(4) _ ex_segments(2) ex_segments(6) ex_segments(7)]
        ex_decryptCek ex_ciphertext_short_iv
    by (simp add: ex_states)
qed

theorem decryptCiphertext_mac_before_decrypt_witness:
  "decryptCiphertext toy_platform kw_cbc_jose (Inr [1, 1, 1, 1, 1, 1, 1, 1, 1, 1, 1, 1, 1, 1, 1, 1, 2, 2, 2, 2, 2, 2, 2, 2, 2, 2, 2, 2, 2, 2, 2, 2])
     (arrayFromString ''eyJhbGciOiJBMTI4S1ciLCJlbmMiOiJBMTI4Q0JDLUhTMjU2In0'') [7, 7, 7, 7, 7, 7, 7, 7, 7, 7, 7, 7, 7, 7, 7, 7] [104, 101, 108, 108, 111]
     [161, 161, 161, 161, 161, 161, 161, 161, 161, 161, 161, 161, 161, 161, 161, 160]
   = (Inl (Reject ''decryptCiphertext: MAC failed.''),
      [ExportKey [1, 1, 1, 1, 1, 1, 1, 1, 1, 1, 1, 1, 1, 1, 1, 1, 2, 2, 2, 2, 2, 2, 2, 2, 2, 2, 2, 2, 2, 2, 2, 2],
       ImportKey [1, 1, 1, 1, 1, 1, 1, 1, 1, 1, 1, 1, 1, 1, 1, 1] (hash_id ''HMAC'' ''SHA-256'') False [''sign''],
       ImportKey [2, 2, 2, 2, 2, 2, 2, 2, 2, 2, 2, 2, 2, 2, 2, 2] (length_id ''AES-CBC'' 128) False [''decrypt''],
       Sign (hash_id ''HMAC'' ''SHA-256'') [1, 1, 1, 1, 1, 1, 1, 1, 1, 1, 1, 1, 1, 1, 1, 1]
         (arrayFromString ''eyJhbGciOiJBMTI4S1ciLCJlbmMiOiJBMTI4Q0JDLUhTMjU2In0'' @ [7, 7, 7, 7, 7, 7, 7, 7, 7, 7, 7, 7, 7, 7, 7, 7] @ [104, 101, 108, 108, 111] @ AL (arrayFromString ''eyJhbGciOiJBMTI4S1ciLCJlbmMiOiJBMTI4Q0JDLUhTMjU2In0''))])
   \<and> isl (fst (decrypt toy_platform new_jose (Inr [9])
     ''eyJhbGciOiJBMTI4S1ciLCJlbmMiOiJBMTI4Q0JDLUhTMjU2In0.AQEBAQEBAQEBAQEBAQEBAQICAgICAgICAgICAgICAgI.BwcHBwcHBwcHBwcHBwcHBw.aGVsbG8.oaGhoaGhoaGhoaGhoaGhoA''))
   \<and> list_all (\<lambda>c. \<not> is_Decrypt c) (snd (snd (decrypt toy_platform new_jose (Inr [9])
     ''eyJhbGciOiJBMTI4S1ciLCJlbmMiOiJBMTI4Q0JDLUhTMjU2In0.AQEBAQEBAQEBAQEBAQEBAQICAgICAgICAgICAgICAgI.BwcHBwcHBwcHBwcHBwcHBw.aGVsbG8.oaGhoaGhoaGhoaGhoaGhoA'')))
   \<and> decrypt toy_platform new_jose (Inr [9])
     ''eyJhbGciOiJBMTI4S1ciLCJlbmMiOiJBMTI4Q0JDLUhTMjU2In0.AQEBAQEBAQEBAQEBAQEBAQICAgICAgICAgICAgICAgI.BwcHBwcHBwcHBwcHBwcHBw.aGVsbG8.oaGhoaGhoaGhoaGhoaGhoS''
     = decrypt toy_platform new_jose (Inr [9])
     ''eyJhbGciOiJBMTI4S1ciLCJlbmMiOiJBMTI4Q0JDLUhTMjU2In0.AQEBAQEBAQEBAQEBAQEBAQICAgICAgICAgICAgICAgI.BwcHBwcHBwcHBwcHBwcHBw.aGVsbG8.oaGhoaGhoaGhoaGhoaGhoQ''"
proof -
  note T = decryptCiphertext_mac_before_decrypt [where P = toy_platform and this = kw_cbc_jose
      and kb = 16 and aid = "hash_id ''HMAC'' ''SHA-256''" and tb = 16
      and cekp = "Inr [1, 1, 1, 1, 1, 1, 1, 1, 1, 1, 1, 1, 1, 1, 1, 1, 2, 2, 2, 2, 2, 2, 2, 2, 2, 2, 2, 2, 2, 2, 2, 2]"
      and aad = "arrayFromString ''eyJhbGciOiJBMTI4S1ciLCJlbmMiOiJBMTI4Q0JDLUhTMjU2In0''"
      and iv = "[7, 7, 7, 7, 7, 7, 7, 7, 7, 7, 7, 7, 7, 7, 7, 7]" and ct = "[104, 101, 108, 108, 111]"
      and tag = "[161, 161, 161, 161, 161, 161, 161, 161, 161, 161, 161, 161, 161, 161, 161, 161]"
      and enc_key = "[2, 2, 2, 2, 2, 2, 2, 2, 2, 2, 2, 2, 2, 2, 2, 2]"
      and mac = "[161, 161, 161, 161, 161, 161, 161, 161, 161, 161, 161, 161, 161, 161, 161, 161]"
      and ?calls0.0 = "[ExportKey [1, 1, 1, 1, 1, 1, 1, 1, 1, 1, 1, 1, 1, 1, 1, 1, 2, 2, 2, 2, 2, 2, 2, 2, 2, 2, 2, 2, 2, 2, 2, 2],
       ImportKey [1, 1, 1, 1, 1, 1, 1, 1, 1, 1, 1, 1, 1, 1, 1, 1] (hash_id ''HMAC'' ''SHA-256'') False [''sign''],
       ImportKey [2, 2, 2, 2, 2, 2, 2, 2, 2, 2, 2, 2, 2, 2, 2, 2] (length_id ''AES-CBC'' 128) False [''decrypt''],
       Sign (hash_id ''HMAC'' ''SHA-256'') [1, 1, 1, 1, 1, 1, 1, 1, 1, 1, 1, 1, 1, 1, 1, 1]
         (arrayFromString ''eyJhbGciOiJBMTI4S1ciLCJlbmMiOiJBMTI4Q0JDLUhTMjU2In0'' @ [7, 7, 7, 7, 7, 7, 7, 7, 7, 7, 7, 7, 7, 7, 7, 7] @ [104, 101, 108, 108, 111] @ AL (arrayFromString ''eyJhbGciOiJBMTI4S1ciLCJlbmMiOiJBMTI4Q0JDLUhTMjU2In0''))]"
      and ?tag0.0 = "[161, 161, 161, 161, 161, 161, 161, 161, 161, 161, 161, 161, 161, 161, 161, 160]"
      and s = "''eyJhbGciOiJBMTI4S1ciLCJlbmMiOiJBMTI4Q0JDLUhTMjU2In0.AQEBAQEBAQEBAQEBAQEBAQICAgICAgICAgICAgICAgI.BwcHBwcHBwcHBwcHBwcHBw.aGVsbG8.oaGhoaGhoaGhoaGhoaGhoQ''"
      and s' = "''eyJhbGciOiJBMTI4S1ciLCJlbmMiOiJBMTI4Q0JDLUhTMjU2In0.AQEBAQEBAQEBAQEBAQEBAQICAgICAgICAgICAgICAgI.BwcHBwcHBwcHBwcHBwcHBw.aGVsbG8.oaGhoaGhoaGhoaGhoaGhoA''"
      and ?s2.0 = "''eyJhbGciOiJBMTI4S1ciLCJlbmMiOiJBMTI4Q0JDLUhTMjU2In0.AQEBAQEBAQEBAQEBAQEBAQICAgICAgICAgICAgICAgI.BwcHBwcHBwcHBwcHBwcHBw.aGVsbG8.oaGhoaGhoaGhoaGhoaGhoS''"
      and h = "''eyJhbGciOiJBMTI4S1ciLCJlbmMiOiJBMTI4Q0JDLUhTMjU2In0''" and e = "''AQEBAQEBAQEBAQEBAQEBAQICAgICAgICAgICAgICAgI''"
      and i = "''BwcHBwcHBwcHBwcHBwcHBw''" and c = "''aGVsbG8''"
      and t = "''oaGhoaGhoaGhoaGhoaGhoQ''" and t' = "''oaGhoaGhoaGhoaGhoaGhoA''" and ?t2.0 = "''oaGhoaGhoaGhoaGhoaGhoS''"
      and ?this0.0 = new_jose and key = "Inr [9]" and plain_text = "''hello''" and st = kw_cbc_jose
      and ?calls1.0 = "UnwrapKey [1, 1, 1, 1, 1, 1, 1, 1, 1, 1, 1, 1, 1, 1, 1, 1, 2, 2, 2, 2, 2, 2, 2, 2, 2, 2, 2, 2, 2, 2, 2, 2] [9] (length_id ''AES-KW'' 128) (length_id ''AES-CBC'' 256) True [''decrypt''] #
      ([ExportKey [1, 1, 1, 1, 1, 1, 1, 1, 1, 1, 1, 1, 1, 1, 1, 1, 2, 2, 2, 2, 2, 2, 2, 2, 2, 2, 2, 2, 2, 2, 2, 2],
       ImportKey [1, 1, 1, 1, 1, 1, 1, 1, 1, 1, 1, 1, 1, 1, 1, 1] (hash_id ''HMAC'' ''SHA-256'') False [''sign''],
       ImportKey [2, 2, 2, 2, 2, 2, 2, 2, 2, 2, 2, 2, 2, 2, 2, 2] (length_id ''AES-CBC'' 128) False [''decrypt''],
       Sign (hash_id ''HMAC'' ''SHA-256'') [1, 1, 1, 1, 1, 1, 1, 1, 1, 1, 1, 1, 1, 1, 1, 1]
         (arrayFromString ''eyJhbGciOiJBMTI4S1ciLCJlbmMiOiJBMTI4Q0JDLUhTMjU2In0'' @ [7, 7, 7, 7, 7, 7, 7, 7, 7, 7, 7, 7, 7, 7, 7, 7] @ [104, 101, 108, 108, 111] @ AL (arrayFromString ''eyJhbGciOiJBMTI4S1ciLCJlbmMiOiJBMTI4Q0JDLUhTMjU2In0''))]
      @ [Decrypt (cbc_params a128cbc_config [7, 7, 7, 7, 7, 7, 7, 7, 7, 7, 7, 7, 7, 7, 7, 7]) [2, 2, 2, 2, 2, 2, 2, 2, 2, 2, 2, 2, 2, 2, 2, 2] [104, 101, 108, 108, 111]])"
      and ?kb1.0 = 16 and ?aid1.0 = "hash_id ''HMAC'' ''SHA-256''" and ?tb1.0 = 16]
  have nc: "\<not> compare [161, 161, 161, 161, 161, 161, 161, 161, 161, 161, 161, 161, 161, 161, 161, 161]
                      [161, 161, 161, 161, 161, 161, 161, 161, 161, 161, 161, 161, 161, 161, 161, 160]"
    by (simp add: compare_eq)
  have ne: "Base64Url_decodeArray ''oaGhoaGhoaGhoaGhoaGhoA'' \<noteq> Base64Url_decodeArray ''oaGhoaGhoaGhoaGhoaGhoQ''"
    unfolding ex_segments(7,8) by simp
  have eq: "Base64Url_decodeArray ''oaGhoaGhoaGhoaGhoaGhoS'' = Base64Url_decodeArray ''oaGhoaGhoaGhoaGhoaGhoQ''"
    unfolding ex_segments(7) ex_segments_more(1) by (rule refl)
  have a: "decryptCiphertext toy_platform kw_cbc_jose (Inr [1, 1, 1, 1, 1, 1, 1, 1, 1, 1, 1, 1, 1, 1, 1, 1, 2, 2, 2, 2, 2, 2, 2, 2, 2, 2, 2, 2, 2, 2, 2, 2])
     (arrayFromString ''eyJhbGciOiJBMTI4S1ciLCJlbmMiOiJBMTI4Q0JDLUhTMjU2In0'') [7, 7, 7, 7, 7, 7, 7, 7, 7, 7, 7, 7, 7, 7, 7, 7] [104, 101, 108, 108, 111]
     [161, 161, 161, 161, 161, 161, 161, 161, 161, 161, 161, 161, 161, 161, 161, 160]
   = (Inl (Reject ''decryptCiphertext: MAC failed.''),
      [ExportKey [1, 1, 1, 1, 1, 1, 1, 1, 1, 1, 1, 1, 1, 1, 1, 1, 2, 2, 2, 2, 2, 2, 2, 2, 2, 2, 2, 2, 2, 2, 2, 2],
       ImportKey [1, 1, 1, 1, 1, 1, 1, 1, 1, 1, 1, 1, 1, 1, 1, 1] (hash_id ''HMAC'' ''SHA-256'') False [''sign''],
       ImportKey [2, 2, 2, 2, 2, 2, 2, 2, 2, 2, 2, 2, 2, 2, 2, 2] (length_id ''AES-CBC'' 128) False [''decrypt''],
       Sign (hash_id ''HMAC'' ''SHA-256'') [1, 1, 1, 1, 1, 1, 1, 1, 1, 1, 1, 1, 1, 1, 1, 1]
         (arrayFromString ''eyJhbGciOiJBMTI4S1ciLCJlbmMiOiJBMTI4Q0JDLUhTMjU2In0'' @ [7, 7, 7, 7, 7, 7, 7, 7, 7, 7, 7, 7, 7, 7, 7, 7] @ [104, 101, 108, 108, 111] @ AL (arrayFromString ''eyJhbGciOiJBMTI4S1ciLCJlbmMiOiJBMTI4Q0JDLUhTMjU2In0''))])"
    using T [THEN conjunct2, THEN conjunct1, THEN mp,
        OF conjI [OF ex_auth_cbc conjI [OF ex_iv_cbc conjI [OF ex_keys_and_mac_jose nc]]]]
    by (rule conjunct1)
  have b: "isl (fst (decrypt toy_platform new_jose (Inr [9])
     ''eyJhbGciOiJBMTI4S1ciLCJlbmMiOiJBMTI4Q0JDLUhTMjU2In0.AQEBAQEBAQEBAQEBAQEBAQICAgICAgICAgICAgICAgI.BwcHBwcHBwcHBwcHBwcHBw.aGVsbG8.oaGhoaGhoaGhoaGhoaGhoA''))
   \<and> list_all (\<lambda>c. \<not> is_Decrypt c) (snd (snd (decrypt toy_platform new_jose (Inr [9])
     ''eyJhbGciOiJBMTI4S1ciLCJlbmMiOiJBMTI4Q0JDLUhTMjU2In0.AQEBAQEBAQEBAQEBAQEBAQICAgICAgICAgICAgICAgI.BwcHBwcHBwcHBwcHBwcHBw.aGVsbG8.oaGhoaGhoaGhoaGhoaGhoA'')))"
    by (rule T [THEN conjunct2, THEN conjunct2, THEN conjunct2, THEN conjunct1, THEN mp,
        OF conjI [OF ex_split_cbc(1) conjI [OF ex_split_cbc(2) conjI [OF ex_decrypt_valid
          conjI [OF ex_auth_cbc ne]]]]])
  have c: "decrypt toy_platform new_jose (Inr [9])
     ''eyJhbGciOiJBMTI4S1ciLCJlbmMiOiJBMTI4Q0JDLUhTMjU2In0.AQEBAQEBAQEBAQEBAQEBAQICAgICAgICAgICAgICAgI.BwcHBwcHBwcHBwcHBwcHBw.aGVsbG8.oaGhoaGhoaGhoaGhoaGhoS''
     = decrypt toy_platform new_jose (Inr [9])
     ''eyJhbGciOiJBMTI4S1ciLCJlbmMiOiJBMTI4Q0JDLUhTMjU2In0.AQEBAQEBAQEBAQEBAQEBAQICAgICAgICAgICAgICAgI.BwcHBwcHBwcHBwcHBwcHBw.aGVsbG8.oaGhoaGhoaGhoaGhoaGhoQ''"
    by (rule T [THEN conjunct2, THEN conjunct2, THEN conjunct2, THEN conjunct2, THEN mp,
        OF conjI [OF ex_split_cbc(1) conjI [OF ex_split_more(1) eq]]])
  show ?thesis using a b c by (intro conjI) (rule a, rule b [THEN conjunct1], rule b [THEN conjunct2], rule c)
qed

text \<open>
  The last character of the 22 characters of a 16 byte tag carries two bits of the tag
  and four unused bits, which \<open>atob\<close> discards. The valid text below still decrypts
  after its last character \<open>Q\<close> is changed to \<open>S\<close>, one bit of the character flipped.
\<close>

theorem decrypt_tag_segment_unused_bits_counterexample:
  "fst (decrypt toy_platform new_jose (Inr [9])
     ''eyJhbGciOiJBMTI4S1ciLCJlbmMiOiJBMTI4Q0JDLUhTMjU2In0.AQEBAQEBAQEBAQEBAQEBAQICAgICAgICAgICAgICAgI.BwcHBwcHBwcHBwcHBwcHBw.aGVsbG8.oaGhoaGhoaGhoaGhoaGhoQ'') = Inr ''hello''
   \<and> split_on CHR ''.'' ''eyJhbGciOiJBMTI4S1ciLCJlbmMiOiJBMTI4Q0JDLUhTMjU2In0.AQEBAQEBAQEBAQEBAQEBAQICAgICAgICAgICAgICAgI.BwcHBwcHBwcHBwcHBwcHBw.aGVsbG8.oaGhoaGhoaGhoaGhoaGhoQ''
     = [''eyJhbGciOiJBMTI4S1ciLCJlbmMiOiJBMTI4Q0JDLUhTMjU2In0'', ''AQEBAQEBAQEBAQEBAQEBAQICAgICAgICAgICAgICAgI'', ''BwcHBwcHBwcHBwcHBwcHBw'', ''aGVsbG8'', ''oaGhoaGhoaGhoaGhoaGhoQ'']
   \<and> split_on CHR ''.'' ''eyJhbGciOiJBMTI4S1ciLCJlbmMiOiJBMTI4Q0JDLUhTMjU2In0.AQEBAQEBAQEBAQEBAQEBAQICAgICAgICAgICAgICAgI.BwcHBwcHBwcHBwcHBwcHBw.aGVsbG8.oaGhoaGhoaGhoaGhoaGhoS''
     = [''eyJhbGciOiJBMTI4S1ciLCJlbmMiOiJBMTI4Q0JDLUhTMjU2In0'', ''AQEBAQEBAQEBAQEBAQEBAQICAgICAgICAgICAgICAgI'', ''BwcHBwcHBwcHBwcHBwcHBw'', ''aGVsbG8'', ''oaGhoaGhoaGhoaGhoaGhoS'']
   \<and> fst (decrypt toy_platform new_jose (Inr [9])
     ''eyJhbGciOiJBMTI4S1ciLCJlbmMiOiJBMTI4Q0JDLUhTMjU2In0.AQEBAQEBAQEBAQEBAQEBAQICAgICAgICAgICAgICAgI.BwcHBwcHBwcHBwcHBwcHBw.aGVsbG8.oaGhoaGhoaGhoaGhoaGhoS'') = Inr ''hello''"
proof -
  have eq: "Base64Url_decodeArray ''oaGhoaGhoaGhoaGhoaGhoS'' = Base64Url_decodeArray ''oaGhoaGhoaGhoaGhoaGhoQ''"
    unfolding ex_segments(7) ex_segments_more(1) by (rule refl)
  have "decrypt toy_platform new_jose (Inr [9])
     ''eyJhbGciOiJBMTI4S1ciLCJlbmMiOiJBMTI4Q0JDLUhTMjU2In0.AQEBAQEBAQEBAQEBAQEBAQICAgICAgICAgICAgICAgI.BwcHBwcHBwcHBwcHBwcHBw.aGVsbG8.oaGhoaGhoaGhoaGhoaGhoS''
     = decrypt toy_platform new_jose (Inr [9])
     ''eyJhbGciOiJBMTI4S1ciLCJlbmMiOiJBMTI4Q0JDLUhTMjU2In0.AQEBAQEBAQEBAQEBAQEBAQICAgICAgICAgICAgICAgI.BwcHBwcHBwcHBwcHBwcHBw.aGVsbG8.oaGhoaGhoaGhoaGhoaGhoQ''"
    by (rule decrypt_same_tag_bytes [OF ex_split_cbc(1) ex_split_more(1) eq])
  then show ?thesis
    unfolding ex_decrypt_valid by (intro conjI) (simp, rule ex_split_cbc(1), rule ex_split_more(1), simp)
qed

theorem decryptCiphertext_length_checks_witness:
  "decryptCiphertext toy_platform kw_cbc_jose (Inr [1, 1, 1, 1, 1, 1, 1, 1, 1, 1, 1, 1, 1, 1, 1, 1, 2, 2, 2, 2, 2, 2, 2, 2, 2, 2, 2, 2, 2, 2, 2, 2])
     (arrayFromString ''eyJhbGciOiJBMTI4S1ciLCJlbmMiOiJBMTI4Q0JDLUhTMjU2In0'') [7, 7, 7, 7, 7, 7, 7, 7, 7, 7, 7, 7] [104, 101, 108, 108, 111]
     [161, 161, 161, 161, 161, 161, 161, 161, 161, 161, 161, 161, 161, 161, 161, 161]
   = (Inl (Reject ''decryptCiphertext: invalid IV''), [])
   \<and> decryptCiphertext toy_platform kw_cbc_jose (Inr [1, 1, 1, 1, 1, 1, 1, 1, 1, 1, 1, 1, 1, 1, 1, 1, 2, 2, 2, 2, 2, 2, 2, 2, 2, 2, 2, 2, 2, 2, 2, 2])
     (arrayFromString ''eyJhbGciOiJBMTI4S1ciLCJlbmMiOiJBMTI4Q0JDLUhTMjU2In0'') [7, 7, 7, 7, 7, 7, 7, 7, 7, 7, 7, 7, 7, 7, 7, 7] [104, 101, 108, 108, 111]
     [161, 161, 161, 161, 161, 161, 161, 161, 161, 161, 161, 161, 161, 161, 161]
   = (Inl (Reject ''decryptCiphertext: MAC failed.''),
      [ExportKey [1, 1, 1, 1, 1, 1, 1, 1, 1, 1, 1, 1, 1, 1, 1, 1, 2, 2, 2, 2, 2, 2, 2, 2, 2, 2, 2, 2, 2, 2, 2, 2],
       ImportKey [1, 1, 1, 1, 1, 1, 1, 1, 1, 1, 1, 1, 1, 1, 1, 1] (hash_id ''HMAC'' ''SHA-256'') False [''sign''],
       ImportKey [2, 2, 2, 2, 2, 2, 2, 2, 2, 2, 2, 2, 2, 2, 2, 2] (length_id ''AES-CBC'' 128) False [''decrypt''],
       Sign (hash_id ''HMAC'' ''SHA-256'') [1, 1, 1, 1, 1, 1, 1, 1, 1, 1, 1, 1, 1, 1, 1, 1]
         (arrayFromString ''eyJhbGciOiJBMTI4S1ciLCJlbmMiOiJBMTI4Q0JDLUhTMjU2In0'' @ [7, 7, 7, 7, 7, 7, 7, 7, 7, 7, 7, 7, 7, 7, 7, 7] @ [104, 101, 108, 108, 111] @ AL (arrayFromString ''eyJhbGciOiJBMTI4S1ciLCJlbmMiOiJBMTI4Q0JDLUhTMjU2In0''))])
   \<and> isl (fst (decrypt toy_platform new_jose (Inr [9])
     ''eyJhbGciOiJBMTI4S1ciLCJlbmMiOiJBMTI4Q0JDLUhTMjU2In0.AQEBAQEBAQEBAQEBAQEBAQICAgICAgICAgICAgICAgI.BwcHBwcHBwcHBwcH.aGVsbG8.oaGhoaGhoaGhoaGhoaGhoQ''))"
proof -
  note T = decryptCiphertext_length_checks [where P = toy_platform and this = kw_cbc_jose
      and kb = 16 and aid = "hash_id ''HMAC'' ''SHA-256''" and tb = 16
      and cekp = "Inr [1, 1, 1, 1, 1, 1, 1, 1, 1, 1, 1, 1, 1, 1, 1, 1, 2, 2, 2, 2, 2, 2, 2, 2, 2, 2, 2, 2, 2, 2, 2, 2]"
      and aad = "arrayFromString ''eyJhbGciOiJBMTI4S1ciLCJlbmMiOiJBMTI4Q0JDLUhTMjU2In0''"
      and iv = "[7, 7, 7, 7, 7, 7, 7, 7, 7, 7, 7, 7]" and ?iv0.0 = "[7, 7, 7, 7, 7, 7, 7, 7, 7, 7, 7, 7, 7, 7, 7, 7]"
      and ct = "[104, 101, 108, 108, 111]"
      and tag = "[161, 161, 161, 161, 161, 161, 161, 161, 161, 161, 161, 161, 161, 161, 161, 161]"
      and enc_key = "[2, 2, 2, 2, 2, 2, 2, 2, 2, 2, 2, 2, 2, 2, 2, 2]"
      and mac = "[161, 161, 161, 161, 161, 161, 161, 161, 161, 161, 161, 161, 161, 161, 161, 161]"
      and ?calls0.0 = "[ExportKey [1, 1, 1, 1, 1, 1, 1, 1, 1, 1, 1, 1, 1, 1, 1, 1, 2, 2, 2, 2, 2, 2, 2, 2, 2, 2, 2, 2, 2, 2, 2, 2],
       ImportKey [1, 1, 1, 1, 1, 1, 1, 1, 1, 1, 1, 1, 1, 1, 1, 1] (hash_id ''HMAC'' ''SHA-256'') False [''sign''],
       ImportKey [2, 2, 2, 2, 2, 2, 2, 2, 2, 2, 2, 2, 2, 2, 2, 2] (length_id ''AES-CBC'' 128) False [''decrypt''],
       Sign (hash_id ''HMAC'' ''SHA-256'') [1, 1, 1, 1, 1, 1, 1, 1, 1, 1, 1, 1, 1, 1, 1, 1]
         (arrayFromString ''eyJhbGciOiJBMTI4S1ciLCJlbmMiOiJBMTI4Q0JDLUhTMjU2In0'' @ [7, 7, 7, 7, 7, 7, 7, 7, 7, 7, 7, 7, 7, 7, 7, 7] @ [104, 101, 108, 108, 111] @ AL (arrayFromString ''eyJhbGciOiJBMTI4S1ciLCJlbmMiOiJBMTI4Q0JDLUhTMjU2In0''))]"
      and ?tag0.0 = "[161, 161, 161, 161, 161, 161, 161, 161, 161, 161, 161, 161, 161, 161, 161]"
      and s = "''eyJhbGciOiJBMTI4S1ciLCJlbmMiOiJBMTI4Q0JDLUhTMjU2In0.AQEBAQEBAQEBAQEBAQEBAQICAgICAgICAgICAgICAgI.BwcHBwcHBwcHBwcH.aGVsbG8.oaGhoaGhoaGhoaGhoaGhoQ''"
      and ?iv1.0 = "[7, 7, 7, 7, 7, 7, 7, 7, 7, 7, 7, 7]" and ?tag1.0 = "[161, 161, 161, 161, 161, 161, 161, 161, 161, 161, 161, 161, 161, 161, 161, 161]"
      and ?this0.0 = new_jose and key = "Inr [9]"]
  have a: "decryptCiphertext toy_platform kw_cbc_jose (Inr [1, 1, 1, 1, 1, 1, 1, 1, 1, 1, 1, 1, 1, 1, 1, 1, 2, 2, 2, 2, 2, 2, 2, 2, 2, 2, 2, 2, 2, 2, 2, 2])
     (arrayFromString ''eyJhbGciOiJBMTI4S1ciLCJlbmMiOiJBMTI4Q0JDLUhTMjU2In0'') [7, 7, 7, 7, 7, 7, 7, 7, 7, 7, 7, 7] [104, 101, 108, 108, 111]
     [161, 161, 161, 161, 161, 161, 161, 161, 161, 161, 161, 161, 161, 161, 161, 161]
   = (Inl (Reject ''decryptCiphertext: invalid IV''), [])"
    using T [THEN conjunct1, THEN mp, OF ex_iv_short] by (rule conjunct1)
  have l: "length [161, 161, 161, 161, 161, 161, 161, 161, 161, 161, 161, 161, 161, 161, 161, 161] = 16 \<and> length [161, 161, 161, 161, 161, 161, 161, 161, 161, 161, 161, 161, 161, 161, 161] \<noteq> 16"
    by simp
  have b: "decryptCiphertext toy_platform kw_cbc_jose (Inr [1, 1, 1, 1, 1, 1, 1, 1, 1, 1, 1, 1, 1, 1, 1, 1, 2, 2, 2, 2, 2, 2, 2, 2, 2, 2, 2, 2, 2, 2, 2, 2])
     (arrayFromString ''eyJhbGciOiJBMTI4S1ciLCJlbmMiOiJBMTI4Q0JDLUhTMjU2In0'') [7, 7, 7, 7, 7, 7, 7, 7, 7, 7, 7, 7, 7, 7, 7, 7] [104, 101, 108, 108, 111]
     [161, 161, 161, 161, 161, 161, 161, 161, 161, 161, 161, 161, 161, 161, 161]
   = (Inl (Reject ''decryptCiphertext: MAC failed.''),
      [ExportKey [1, 1, 1, 1, 1, 1, 1, 1, 1, 1, 1, 1, 1, 1, 1, 1, 2, 2, 2, 2, 2, 2, 2, 2, 2, 2, 2, 2, 2, 2, 2, 2],
       ImportKey [1, 1, 1, 1, 1, 1, 1, 1, 1, 1, 1, 1, 1, 1, 1, 1] (hash_id ''HMAC'' ''SHA-256'') False [''sign''],
       ImportKey [2, 2, 2, 2, 2, 2, 2, 2, 2, 2, 2, 2, 2, 2, 2, 2] (length_id ''AES-CBC'' 128) False [''decrypt''],
       Sign (hash_id ''HMAC'' ''SHA-256'') [1, 1, 1, 1, 1, 1, 1, 1, 1, 1, 1, 1, 1, 1, 1, 1]
         (arrayFromString ''eyJhbGciOiJBMTI4S1ciLCJlbmMiOiJBMTI4Q0JDLUhTMjU2In0'' @ [7, 7, 7, 7, 7, 7, 7, 7, 7, 7, 7, 7, 7, 7, 7, 7] @ [104, 101, 108, 108, 111] @ AL (arrayFromString ''eyJhbGciOiJBMTI4S1ciLCJlbmMiOiJBMTI4Q0JDLUhTMjU2In0''))])"
    using T [THEN conjunct2, THEN conjunct1, THEN mp,
        OF conjI [OF ex_auth_cbc conjI [OF ex_iv_cbc conjI [OF ex_keys_and_mac_jose l]]]]
    by (rule conjunct1)
  have s2: "Base64Url_decodeArray (split_on CHR ''.'' ''eyJhbGciOiJBMTI4S1ciLCJlbmMiOiJBMTI4Q0JDLUhTMjU2In0.AQEBAQEBAQEBAQEBAQEBAQICAgICAgICAgICAgICAgI.BwcHBwcHBwcHBwcH.aGVsbG8.oaGhoaGhoaGhoaGhoaGhoQ'' ! 2) = Inr [7, 7, 7, 7, 7, 7, 7, 7, 7, 7, 7, 7]"
    unfolding ex_split_more(2) by (simp add: ex_segments(2))
  have s4: "Base64Url_decodeArray (split_on CHR ''.'' ''eyJhbGciOiJBMTI4S1ciLCJlbmMiOiJBMTI4Q0JDLUhTMjU2In0.AQEBAQEBAQEBAQEBAQEBAQICAgICAgICAgICAgICAgI.BwcHBwcHBwcHBwcH.aGVsbG8.oaGhoaGhoaGhoaGhoaGhoQ'' ! 4) = Inr [161, 161, 161, 161, 161, 161, 161, 161, 161, 161, 161, 161, 161, 161, 161, 161]"
    unfolding ex_split_more(2) by (simp add: ex_segments(7))
  have st: "iv_bytes (content_encryption (fst (snd (decrypt toy_platform new_jose (Inr [9])
     ''eyJhbGciOiJBMTI4S1ciLCJlbmMiOiJBMTI4Q0JDLUhTMjU2In0.AQEBAQEBAQEBAQEBAQEBAQICAgICAgICAgICAgICAgI.BwcHBwcHBwcHBwcH.aGVsbG8.oaGhoaGhoaGhoaGhoaGhoQ'')))) \<noteq> Some (length [7, 7, 7, 7, 7, 7, 7, 7, 7, 7, 7, 7])"
    unfolding ex_decrypt_short_iv using ex_iv_short by simp
  have c: "isl (fst (decrypt toy_platform new_jose (Inr [9])
     ''eyJhbGciOiJBMTI4S1ciLCJlbmMiOiJBMTI4Q0JDLUhTMjU2In0.AQEBAQEBAQEBAQEBAQEBAQICAgICAgICAgICAgICAgI.BwcHBwcHBwcHBwcH.aGVsbG8.oaGhoaGhoaGhoaGhoaGhoQ''))"
    using T [THEN conjunct2, THEN conjunct2, THEN mp, OF conjI [OF s2 conjI [OF s4 disjI1 [OF st]]]]
    by (rule conjunct1)
  show ?thesis by (intro conjI) (rule a, rule b, rule c)
qed

text \<open>
  A tag of 15 bytes under \<open>A128CBC-HS256\<close>, whose truncated length is 16: the run is
  rejected by the MAC comparison, and the kind of the rejection is not a malformed
  input.
\<close>

theorem decrypt_short_tag_counterexample:
  "Base64Url_decodeArray ''oaGhoaGhoaGhoaGhoaGh'' = Inr [161, 161, 161, 161, 161, 161, 161, 161, 161, 161, 161, 161, 161, 161, 161]
   \<and> auth (content_encryption kw_cbc_jose) = Some (Mac 16 (hash_id ''HMAC'' ''SHA-256'') 16)
   \<and> decrypt toy_platform new_jose (Inr [9])
     ''eyJhbGciOiJBMTI4S1ciLCJlbmMiOiJBMTI4Q0JDLUhTMjU2In0.AQEBAQEBAQEBAQEBAQEBAQICAgICAgICAgICAgICAgI.BwcHBwcHBwcHBwcHBwcHBw.aGVsbG8.oaGhoaGhoaGhoaGhoaGh''
     = (Inl (Reject ''decryptCiphertext: MAC failed.''), kw_cbc_jose,
      UnwrapKey [1, 1, 1, 1, 1, 1, 1, 1, 1, 1, 1, 1, 1, 1, 1, 1, 2, 2, 2, 2, 2, 2, 2, 2, 2, 2, 2, 2, 2, 2, 2, 2] [9] (length_id ''AES-KW'' 128) (length_id ''AES-CBC'' 256) True [''decrypt''] #
      [ExportKey [1, 1, 1, 1, 1, 1, 1, 1, 1, 1, 1, 1, 1, 1, 1, 1, 2, 2, 2, 2, 2, 2, 2, 2, 2, 2, 2, 2, 2, 2, 2, 2],
       ImportKey [1, 1, 1, 1, 1, 1, 1, 1, 1, 1, 1, 1, 1, 1, 1, 1] (hash_id ''HMAC'' ''SHA-256'') False [''sign''],
       ImportKey [2, 2, 2, 2, 2, 2, 2, 2, 2, 2, 2, 2, 2, 2, 2, 2] (length_id ''AES-CBC'' 128) False [''decrypt''],
       Sign (hash_id ''HMAC'' ''SHA-256'') [1, 1, 1, 1, 1, 1, 1, 1, 1, 1, 1, 1, 1, 1, 1, 1]
         (arrayFromString ''eyJhbGciOiJBMTI4S1ciLCJlbmMiOiJBMTI4Q0JDLUhTMjU2In0'' @ [7, 7, 7, 7, 7, 7, 7, 7, 7, 7, 7, 7, 7, 7, 7, 7] @ [104, 101, 108, 108, 111] @ AL (arrayFromString ''eyJhbGciOiJBMTI4S1ciLCJlbmMiOiJBMTI4Q0JDLUhTMjU2In0''))])
   \<and> error_kind_of (Reject ''decryptCiphertext: MAC failed.'') \<noteq> MalformedInput"
  by (intro conjI) (rule ex_segments_more(2), rule ex_auth_cbc, rule ex_decrypt_short_tag,
      simp add: error_kind_of_def)

end
